(* ===== verification/Prelude.thy ===== *)
theory Prelude
  imports Main "HOL-Library.Monad_Syntax"
begin

text \<open>
  What the components share: bytes and C integers at their width, buffers as byte lists,
  file contents as byte lists, the cutting of a file into the pieces the copy and cipher
  loops work on, and the two ways to speak about a computation that may fault.

  A computation of the kernel modules is a function from a state to an \<open>option\<close> of a result
  and the state after it, in the \<open>do\<close> notation of \<open>HOL-Library.Monad_Syntax\<close>. \<open>None\<close> is
  undefined behaviour (a dereference of \<open>NULL\<close> or of an error pointer, a use of freed memory,
  a write past the end of a buffer) or a loop that does not end.
\<close>

named_theorems exec_simps \<open>symbolic execution of the model's primitives\<close>
named_theorems frame_rules \<open>what an operation leaves unchanged\<close>

subsection \<open>Bytes and integers\<close>

type_synonym byte = char

abbreviation NUL :: byte where
  "NUL \<equiv> CHR 0x00"

definition i32 :: "int \<Rightarrow> int" where
  "i32 x = signed_take_bit 31 x"

definition u32 :: "int \<Rightarrow> int" where
  "u32 x = take_bit 32 x"

definition u64 :: "int \<Rightarrow> int" where
  "u64 x = take_bit 64 x"

definition i64 :: "int \<Rightarrow> int" where
  "i64 x = signed_take_bit 63 x"

definition c_rem :: "int \<Rightarrow> int \<Rightarrow> int" where
  "c_rem a b = sgn a * (\<bar>a\<bar> mod \<bar>b\<bar>)"

lemma i32_id: "- 2147483648 \<le> x \<Longrightarrow> x < 2147483648 \<Longrightarrow> i32 x = x"
  unfolding i32_def by (rule signed_take_bit_int_eq_self) simp_all

lemma i32_range: "- 2147483648 \<le> i32 x \<and> i32 x < 2147483648"
  using signed_take_bit_int_greater_eq_minus_exp [of 31 x]
    signed_take_bit_int_less_exp [of 31 x] by (simp add: i32_def)

lemma i32_minus_twopow: "2147483648 \<le> x \<Longrightarrow> x < 4294967296 \<Longrightarrow> i32 x = x - 4294967296"
proof -
  assume a: "2147483648 \<le> x" "x < 4294967296"
  have "i32 x = i32 (x - 4294967296)"
    unfolding i32_def by (rule signed_take_bit_eq_iff_take_bit_eq [THEN iffD2])
      (simp add: take_bit_eq_mod mod_diff_right_eq [symmetric])
  with a show ?thesis by (simp add: i32_id)
qed

lemma i64_id: "- 9223372036854775808 \<le> x \<Longrightarrow> x < 9223372036854775808 \<Longrightarrow> i64 x = x"
  unfolding i64_def by (rule signed_take_bit_int_eq_self) simp_all

lemma u64_id: "0 \<le> x \<Longrightarrow> x < 18446744073709551616 \<Longrightarrow> u64 x = x"
  by (simp add: u64_def take_bit_eq_mod)

lemma u32_id: "0 \<le> x \<Longrightarrow> x < 4294967296 \<Longrightarrow> u32 x = x"
  by (simp add: u32_def take_bit_eq_mod)

lemma u64_nonneg [simp]: "0 \<le> u64 x"
  by (simp add: u64_def)

lemma u32_nonneg [simp]: "0 \<le> u32 x"
  by (simp add: u32_def)

lemma c_rem_nonneg: "0 \<le> a \<Longrightarrow> 0 < b \<Longrightarrow> c_rem a b = a mod b"
  by (cases "a = 0") (simp_all add: c_rem_def)

lemma c_rem_bound: "0 < b \<Longrightarrow> \<bar>c_rem a b\<bar> < b"
  by (simp add: c_rem_def abs_mult sgn_if)

subsection \<open>Computations that may fault\<close>

definition safely :: "'a option \<Rightarrow> ('a \<Rightarrow> bool) \<Rightarrow> bool" where
  "safely m Q = (case m of None \<Rightarrow> True | Some x \<Rightarrow> Q x)"

definition returns :: "'a option \<Rightarrow> ('a \<Rightarrow> bool) \<Rightarrow> bool" where
  "returns m Q = (case m of None \<Rightarrow> False | Some x \<Rightarrow> Q x)"

lemma safely_Some [simp]: "safely (Some x) Q = Q x"
  and safely_None [simp]: "safely None Q"
  by (simp_all add: safely_def)

lemma returns_Some [simp]: "returns (Some x) Q = Q x"
  and returns_None [simp]: "\<not> returns None Q"
  by (simp_all add: returns_def)

lemma safely_bind [simp]: "safely (Option.bind m f) Q = safely m (\<lambda>x. safely (f x) Q)"
  by (cases m) simp_all

lemma returns_bind [simp]: "returns (Option.bind m f) Q = returns m (\<lambda>x. returns (f x) Q)"
  by (cases m) simp_all

lemma safely_mono: "safely m P \<Longrightarrow> (\<And>x. m = Some x \<Longrightarrow> P x \<Longrightarrow> Q x) \<Longrightarrow> safely m Q"
  by (cases m) simp_all

lemma returns_mono: "returns m P \<Longrightarrow> (\<And>x. m = Some x \<Longrightarrow> P x \<Longrightarrow> Q x) \<Longrightarrow> returns m Q"
  by (cases m) simp_all

lemma safelyD: "safely m Q \<Longrightarrow> m = Some x \<Longrightarrow> Q x"
  by simp

lemma safelyI: "(\<And>x. m = Some x \<Longrightarrow> Q x) \<Longrightarrow> safely m Q"
  by (cases m) simp_all

lemma safely_iff: "safely m Q \<longleftrightarrow> (\<forall>x. m = Some x \<longrightarrow> Q x)"
  by (cases m) simp_all

lemma returns_iff: "returns m Q \<longleftrightarrow> (\<exists>x. m = Some x \<and> Q x)"
  by (cases m) simp_all

lemma returns_conj: "returns m P \<Longrightarrow> safely m Q \<Longrightarrow> returns m (\<lambda>x. P x \<and> Q x)"
  by (cases m) simp_all

subsection \<open>Buffers and file contents\<close>

definition overlay :: "byte list \<Rightarrow> nat \<Rightarrow> byte list \<Rightarrow> byte list" where
  "overlay buf off bs = take off buf @ bs @ drop (off + length bs) buf"

definition write_at :: "byte list \<Rightarrow> nat \<Rightarrow> byte list \<Rightarrow> byte list" where
  "write_at old pos bs =
     (if bs = [] then old
      else take pos old @ replicate (pos - length old) NUL @ bs @ drop (pos + length bs) old)"

definition resize :: "nat \<Rightarrow> byte list \<Rightarrow> byte list" where
  "resize n bs = take n bs @ replicate (n - length bs) NUL"

lemma length_overlay: "off + length bs \<le> length buf \<Longrightarrow> length (overlay buf off bs) = length buf"
  by (simp add: overlay_def)

lemma take_overlay_0 [simp]: "take (length bs) (overlay buf 0 bs) = bs"
  by (simp add: overlay_def)

lemma length_resize [simp]: "length (resize n bs) = n"
  by (simp add: resize_def)

lemma write_at_end: "write_at old (length old) bs = old @ bs"
  by (simp add: write_at_def)

lemma length_write_at:
  "bs \<noteq> [] \<Longrightarrow> length (write_at old pos bs) = max (length old) (pos + length bs)"
  by (simp add: write_at_def)

lemma write_at_Nil [simp]: "write_at old pos [] = old"
  by (simp add: write_at_def)

lemma write_at_front:
  "write_at (a @ drop (length a) old) (length a) bs = (a @ bs) @ drop (length (a @ bs)) old"
  by (cases "bs = []") (simp_all add: write_at_def add.commute)

lemma write_at_over:
  "length x \<le> length bs \<Longrightarrow> write_at (a @ x @ drop (length a + length x) old) (length a) bs =
     (a @ bs) @ drop (length (a @ bs)) old"
  by (cases "bs = []") (simp_all add: write_at_def add.commute)

subsection \<open>Cutting a file into pieces\<close>

function pieces :: "nat \<Rightarrow> byte list \<Rightarrow> byte list list" where
  "pieces n xs = (if n = 0 \<or> xs = [] then [] else take n xs # pieces n (drop n xs))"
  by pat_completeness auto
termination
  by (relation "measure (\<lambda>(n, xs). length xs)") auto

declare pieces.simps [simp del]

lemma pieces_Nil [simp]: "pieces n [] = []"
  by (simp add: pieces.simps)

lemma pieces_step: "0 < n \<Longrightarrow> xs \<noteq> [] \<Longrightarrow> pieces n xs = take n xs # pieces n (drop n xs)"
  by (simp add: pieces.simps [of n xs])

lemma concat_pieces: "0 < n \<Longrightarrow> concat (pieces n xs) = xs"
proof (induction n xs rule: pieces.induct)
  case (1 n xs)
  then show ?case by (cases "xs = []") (simp_all add: pieces_step)
qed

lemma length_pieces: "0 < n \<Longrightarrow> length (pieces n xs) = (length xs + n - 1) div n"
proof (induction n xs rule: pieces.induct)
  case (1 n xs)
  show ?case
  proof (cases "xs = []")
    case True
    with 1 show ?thesis by simp
  next
    case False
    with 1 have IH: "length (pieces n (drop n xs)) = (length xs - n + n - 1) div n" by simp
    show ?thesis
    proof (cases "length xs \<le> n")
      case True
      then have "(length xs + n - 1) div n = 1"
        using False 1(2) by (intro div_nat_eqI) (cases xs; simp)+
      with True False 1 show ?thesis by (simp add: pieces_step)
    next
      case False
      then have e: "length xs + n - 1 = (length xs - 1) + n" "length xs - n + n - 1 = length xs - 1"
        by simp_all
      have "((length xs - 1) + n) div n = Suc ((length xs - 1) div n)"
        using div_add_self2 [of n "length xs - 1"] 1(2) by (simp only: Suc_eq_plus1 simp_thms)
      then have "(length xs + n - 1) div n = Suc ((length xs - n + n - 1) div n)"
        by (simp only: e)
      with IH False 1(2) \<open>xs \<noteq> []\<close> show ?thesis by (simp add: pieces_step)
    qed
  qed
qed

lemma piece_length: "p \<in> set (pieces n xs) \<Longrightarrow> 0 < length p \<and> length p \<le> n"
proof (induction n xs rule: pieces.induct)
  case (1 n xs)
  then show ?case
    by (cases "n = 0 \<or> xs = []") (auto simp: pieces.simps [of n xs])
qed

end
