(* ===== verification/Kernel.thy ===== *)
theory Kernel
  imports Prelude
begin

text \<open>
  The interface between the modules under \<open>src/\<close> and the Linux kernel they run in.

  The kernel's functions are not part of the repository, so they are a parameter: a record
  \<open>'w kernel\<close> with one field for each function the sources call, over a type \<open>'w\<close> of kernel
  states of which nothing is known here. The state \<open>'w kst\<close> of a computation holds that kernel
  state, the fields the sources write themselves (\<open>addr_limit\<close> through \<open>set_fs\<close>, \<open>f_pos\<close> of an
  open file, the global \<open>enc_key\<close>), and observations that the code itself cannot read: which
  allocations and which open files the code still owns, and the trace of its calls.
  The wrappers below check what C leaves undefined: a pointer is dereferenced only when it is
  neither \<open>NULL\<close> nor an error pointer, a closed file or a freed buffer is not used again, a
  transfer stays inside its buffer.
\<close>

subsection \<open>Constants of the kernel headers\<close>

definition PAGE_SIZE :: int where "PAGE_SIZE = 4096"
definition PATH_MAX :: nat where "PATH_MAX = 4096"
definition EPERM :: int where "EPERM = 1"
definition ENOMEM :: int where "ENOMEM = 12"
definition EFAULT :: int where "EFAULT = 14"
definition EINVAL :: int where "EINVAL = 22"
definition O_RDONLY :: int where "O_RDONLY = 0"
definition O_WRONLY :: int where "O_WRONLY = 1"
definition O_CREAT :: int where "O_CREAT = 64"

lemmas header_defs = PAGE_SIZE_def PATH_MAX_def EPERM_def ENOMEM_def EFAULT_def EINVAL_def
  O_RDONLY_def O_WRONLY_def O_CREAT_def

subsection \<open>Pointers, buffers, broken-down time\<close>

text \<open>A pointer as \<open>IS_ERR\<close> and \<open>PTR_ERR\<close> see it.\<close>

datatype 'a eptr = Null | ErrPtr int | Ptr 'a

fun is_err :: "'a eptr \<Rightarrow> bool" where
  "is_err (ErrPtr e) = True"
| "is_err _ = False"

fun ptr_err :: "'a eptr \<Rightarrow> int" where
  "ptr_err (ErrPtr e) = e"
| "ptr_err _ = 0"

fun bad_ptr :: "'a eptr \<Rightarrow> bool" where
  "bad_ptr (Ptr p) = False"
| "bad_ptr _ = True"

fun deref :: "'a eptr \<Rightarrow> 'a option" where
  "deref (Ptr p) = Some p"
| "deref _ = None"

lemma deref_Some_iff [simp]: "deref p = Some x \<longleftrightarrow> p = Ptr x"
  by (cases p) simp_all

lemma bad_ptr_iff: "bad_ptr p \<longleftrightarrow> p = Null \<or> is_err p"
  by (cases p) simp_all

lemma not_bad_ptr: "\<not> bad_ptr p \<longleftrightarrow> (\<exists>x. p = Ptr x)"
  by (cases p) simp_all

datatype mm_segment = USER_DS | KERNEL_DS

record cbuf =
  bid :: nat
  mem :: "byte list"

record tm =
  tm_year :: int
  tm_mon :: int
  tm_mday :: int

record blkcipher =
  t_key :: "byte list option"
  t_iv :: "byte list"

subsection \<open>The kernel's functions\<close>

record 'w kernel =
  kmalloc_k :: "nat \<Rightarrow> 'w \<Rightarrow> byte list option \<times> 'w"
  ptr_bits_k :: "nat \<Rightarrow> int"
  f_pos_offset_k :: int
  filp_open_k :: "string \<Rightarrow> int \<Rightarrow> int \<Rightarrow> 'w \<Rightarrow> nat eptr \<times> 'w"
  filp_close_k :: "nat \<Rightarrow> 'w \<Rightarrow> 'w"
  vfs_read_k :: "mm_segment \<Rightarrow> nat \<Rightarrow> nat \<Rightarrow> int \<Rightarrow> 'w \<Rightarrow> (int \<times> byte list \<times> int) \<times> 'w"
  vfs_write_k :: "mm_segment \<Rightarrow> nat \<Rightarrow> byte list \<Rightarrow> int \<Rightarrow> 'w \<Rightarrow> (int \<times> int) \<times> 'w"
  vfs_read_null_k :: "mm_segment \<Rightarrow> nat \<Rightarrow> nat \<Rightarrow> int \<Rightarrow> 'w \<Rightarrow> (int \<times> int) \<times> 'w"
  vfs_write_null_k :: "mm_segment \<Rightarrow> nat \<Rightarrow> nat \<Rightarrow> int \<Rightarrow> 'w \<Rightarrow> (int \<times> int) \<times> 'w"
  f_dentry_k :: "nat \<Rightarrow> nat"
  d_parent_inode_k :: "nat \<Rightarrow> 'w \<Rightarrow> nat"
  d_name_k :: "nat \<Rightarrow> 'w \<Rightarrow> string"
  i_size_k :: "nat \<Rightarrow> 'w \<Rightarrow> int"
  d_path_k :: "nat \<Rightarrow> nat option \<Rightarrow> nat \<Rightarrow> 'w \<Rightarrow> string eptr option"
  vfs_unlink_k :: "nat \<Rightarrow> nat \<Rightarrow> 'w \<Rightarrow> int \<times> 'w"
  vfs_setxattr_k :: "nat \<Rightarrow> string \<Rightarrow> byte list \<Rightarrow> 'w \<Rightarrow> int \<times> 'w"
  gettimeofday_k :: "'w \<Rightarrow> int \<times> 'w"
  time_to_tm_k :: "int \<Rightarrow> tm"
  alloc_blkcipher_k :: "string \<Rightarrow> 'w \<Rightarrow> blkcipher eptr \<times> 'w"
  ceph_aes_iv_k :: "byte list"
  blk_setkey_k :: "byte list \<Rightarrow> int"
  blk_ivsize_k :: nat
  blk_encrypt_k :: "blkcipher \<Rightarrow> byte list \<Rightarrow> 'w \<Rightarrow> (int \<times> byte list) \<times> 'w"
  alloc_comp_k :: "string \<Rightarrow> 'w \<Rightarrow> nat eptr \<times> 'w"
  comp_compress_k :: "nat \<Rightarrow> byte list \<Rightarrow> int \<Rightarrow> 'w \<Rightarrow> (int \<times> byte list \<times> int) \<times> 'w"
  comp_decompress_k :: "nat \<Rightarrow> byte list \<Rightarrow> int \<Rightarrow> 'w \<Rightarrow> (int \<times> byte list \<times> int) \<times> 'w"
  stack_garbage_k :: "nat \<Rightarrow> byte list"
  kern_path_create_k :: "string \<Rightarrow> 'w \<Rightarrow> (nat eptr \<times> nat) \<times> 'w"
  done_path_create_k :: "'w \<Rightarrow> 'w"
  vfs_mkdir_k :: "nat \<Rightarrow> nat \<Rightarrow> 'w \<Rightarrow> int \<times> 'w"

subsection \<open>The state of a computation\<close>

datatype kevent =
    Opened string int "nat eptr"
  | Closed nat
  | ReadAt nat int nat int
  | WroteAt nat int "byte list" int
  | DirLocked nat
  | DirUnlocked nat
  | Unlinked nat nat int
  | XattrSet nat string "byte list" int

record 'w kst =
  world :: 'w
  addr_limit :: mm_segment
  fpos :: "nat \<Rightarrow> int"
  enc_key :: "cbuf option"
  live :: "nat list"
  next_id :: nat
  opened :: "nat list"
  trace :: "kevent list"

definition set_fpos :: "nat \<Rightarrow> int \<Rightarrow> 'w kst \<Rightarrow> 'w kst" where
  "set_fpos f pos s = s\<lparr>fpos := (fpos s)(f := pos)\<rparr>"

lemma set_fpos_sel [simp]:
  "world (set_fpos f p s) = world s" "addr_limit (set_fpos f p s) = addr_limit s"
  "fpos (set_fpos f p s) = (fpos s)(f := p)" "enc_key (set_fpos f p s) = enc_key s"
  "live (set_fpos f p s) = live s" "next_id (set_fpos f p s) = next_id s"
  "opened (set_fpos f p s) = opened s" "trace (set_fpos f p s) = trace s"
  by (simp_all add: set_fpos_def)

definition note_event :: "kevent \<Rightarrow> 'w kst \<Rightarrow> 'w kst" where
  "note_event e s = s\<lparr>trace := trace s @ [e]\<rparr>"

lemma note_event_sel [simp]:
  "world (note_event e s) = world s" "addr_limit (note_event e s) = addr_limit s"
  "fpos (note_event e s) = fpos s" "enc_key (note_event e s) = enc_key s"
  "live (note_event e s) = live s" "next_id (note_event e s) = next_id s"
  "opened (note_event e s) = opened s" "trace (note_event e s) = trace s @ [e]"
  by (simp_all add: note_event_def)

subsection \<open>Calls\<close>

definition kmalloc :: "'w kernel \<Rightarrow> nat \<Rightarrow> 'w kst \<Rightarrow> (cbuf option \<times> 'w kst) option" where
  "kmalloc K n s =
     (case kmalloc_k K n (world s) of
        (None, w) \<Rightarrow> Some (None, s\<lparr>world := w\<rparr>)
      | (Some garbage, w) \<Rightarrow>
          Some (Some \<lparr>bid = next_id s, mem = resize n garbage\<rparr>,
            s\<lparr>world := w, next_id := Suc (next_id s), live := next_id s # live s\<rparr>))"

definition kfree :: "cbuf option \<Rightarrow> 'w kst \<Rightarrow> (unit \<times> 'w kst) option" where
  "kfree p s =
     (case p of
        None \<Rightarrow> Some ((), s)
      | Some b \<Rightarrow>
          if bid b \<in> set (live s) then Some ((), s\<lparr>live := remove1 (bid b) (live s)\<rparr>) else None)"

text \<open>The bytes behind a pointer: undefined for \<open>NULL\<close> and for freed memory.\<close>

definition buf_bytes :: "cbuf option \<Rightarrow> 'w kst \<Rightarrow> byte list option" where
  "buf_bytes p s =
     (case p of None \<Rightarrow> None | Some b \<Rightarrow> if bid b \<in> set (live s) then Some (mem b) else None)"

fun add_open :: "nat eptr \<Rightarrow> nat list \<Rightarrow> nat list" where
  "add_open (Ptr f) fs = f # fs"
| "add_open _ fs = fs"

lemma add_open_bad [simp]: "bad_ptr p \<Longrightarrow> add_open p fs = fs"
  by (cases p) simp_all

definition filp_open :: "'w kernel \<Rightarrow> string \<Rightarrow> int \<Rightarrow> int \<Rightarrow> 'w kst \<Rightarrow> (nat eptr \<times> 'w kst) option" where
  "filp_open K path flags mode s =
     (case filp_open_k K path flags mode (world s) of
        (p, w) \<Rightarrow> Some (p, note_event (Opened path flags p)
          (s\<lparr>world := w, opened := add_open p (opened s)\<rparr>)))"

definition filp_close :: "'w kernel \<Rightarrow> nat \<Rightarrow> 'w kst \<Rightarrow> (unit \<times> 'w kst) option" where
  "filp_close K f s =
     (if f \<in> set (opened s)
      then Some ((), note_event (Closed f)
             (s\<lparr>world := filp_close_k K f (world s), opened := remove1 f (opened s)\<rparr>))
      else None)"

definition vfs_read ::
  "'w kernel \<Rightarrow> nat \<Rightarrow> byte list \<Rightarrow> int \<Rightarrow> int \<Rightarrow> 'w kst \<Rightarrow> ((int \<times> byte list \<times> int) \<times> 'w kst) option" where
  "vfs_read K f buf len pos s =
     (if f \<in> set (opened s) then
        (case vfs_read_k K (addr_limit s) f (nat (u64 len)) pos (world s) of
           ((ret, bytes, pos'), w) \<Rightarrow>
             if length bytes \<le> length buf
             then Some ((ret, overlay buf 0 bytes, pos'),
                    note_event (ReadAt f pos (nat (u64 len)) ret) (s\<lparr>world := w\<rparr>))
             else None)
      else None)"

definition vfs_write ::
  "'w kernel \<Rightarrow> nat \<Rightarrow> byte list \<Rightarrow> int \<Rightarrow> int \<Rightarrow> 'w kst \<Rightarrow> ((int \<times> int) \<times> 'w kst) option" where
  "vfs_write K f buf len pos s =
     (if f \<in> set (opened s) \<and> nat (u64 len) \<le> length buf then
        (case vfs_write_k K (addr_limit s) f (take (nat (u64 len)) buf) pos (world s) of
           ((ret, pos'), w) \<Rightarrow>
             Some ((ret, pos'), note_event (WroteAt f pos (take (nat (u64 len)) buf) ret) (s\<lparr>world := w\<rparr>)))
      else None)"

text \<open>
  The code also passes the result of \<open>kmalloc\<close> on without looking at it. A transfer to or from
  \<open>NULL\<close> is answered by the kernel like any other bad address (\<open>-EFAULT\<close>, or 0 for no bytes at
  all) and moves no byte. The area behind a pointer, for code that bounds its accesses by a
  length of its own, is empty for \<open>NULL\<close>.
\<close>

definition buf_area :: "cbuf option \<Rightarrow> 'w kst \<Rightarrow> byte list option" where
  "buf_area p s = (case p of None \<Rightarrow> Some [] | Some b \<Rightarrow> buf_bytes (Some b) s)"

definition vfs_read_ptr ::
  "'w kernel \<Rightarrow> nat \<Rightarrow> cbuf option \<Rightarrow> byte list \<Rightarrow> int \<Rightarrow> int \<Rightarrow> 'w kst
   \<Rightarrow> ((int \<times> byte list \<times> int) \<times> 'w kst) option" where
  "vfs_read_ptr K f p m len pos s =
     (case p of
        Some b \<Rightarrow> vfs_read K f m len pos s
      | None \<Rightarrow>
          if f \<in> set (opened s) then
            (case vfs_read_null_k K (addr_limit s) f (nat (u64 len)) pos (world s) of
               ((ret, pos'), w) \<Rightarrow>
                 Some ((ret, m, pos'), note_event (ReadAt f pos (nat (u64 len)) ret) (s\<lparr>world := w\<rparr>)))
          else None)"

definition vfs_write_ptr ::
  "'w kernel \<Rightarrow> nat \<Rightarrow> cbuf option \<Rightarrow> byte list \<Rightarrow> int \<Rightarrow> int \<Rightarrow> 'w kst
   \<Rightarrow> ((int \<times> int) \<times> 'w kst) option" where
  "vfs_write_ptr K f p m len pos s =
     (case p of
        Some b \<Rightarrow> vfs_write K f m len pos s
      | None \<Rightarrow>
          if f \<in> set (opened s) then
            (case vfs_write_null_k K (addr_limit s) f (nat (u64 len)) pos (world s) of
               ((ret, pos'), w) \<Rightarrow>
                 Some ((ret, pos'), note_event (WroteAt f pos [] ret) (s\<lparr>world := w\<rparr>)))
          else None)"

lemma valid_ptr [simp]:
  "buf_area (Some b) s = buf_bytes (Some b) s" "buf_area None s = Some []"
  "vfs_read_ptr K f (Some b) m len pos s = vfs_read K f m len pos s"
  "vfs_write_ptr K f (Some b) m len pos s = vfs_write K f m len pos s"
  by (simp_all add: buf_area_def vfs_read_ptr_def vfs_write_ptr_def)

definition d_path :: "'w kernel \<Rightarrow> nat \<Rightarrow> cbuf option \<Rightarrow> nat \<Rightarrow> 'w kst \<Rightarrow> string eptr option" where
  "d_path K f buf n s = d_path_k K f (map_option bid buf) n (world s)"

definition lock_dir :: "nat \<Rightarrow> 'w kst \<Rightarrow> (unit \<times> 'w kst) option" where
  "lock_dir d s = Some ((), note_event (DirLocked d) s)"

definition unlock_dir :: "nat \<Rightarrow> 'w kst \<Rightarrow> (unit \<times> 'w kst) option" where
  "unlock_dir d s = Some ((), note_event (DirUnlocked d) s)"

definition vfs_unlink :: "'w kernel \<Rightarrow> nat \<Rightarrow> nat \<Rightarrow> 'w kst \<Rightarrow> (int \<times> 'w kst) option" where
  "vfs_unlink K dir victim s =
     (case vfs_unlink_k K dir victim (world s) of
        (r, w) \<Rightarrow> Some (r, note_event (Unlinked dir victim r) (s\<lparr>world := w\<rparr>)))"

definition vfs_setxattr ::
  "'w kernel \<Rightarrow> nat \<Rightarrow> string \<Rightarrow> byte list \<Rightarrow> 'w kst \<Rightarrow> (int \<times> 'w kst) option" where
  "vfs_setxattr K d name val s =
     (case vfs_setxattr_k K d name val (world s) of
        (r, w) \<Rightarrow> Some (r, note_event (XattrSet d name val r) (s\<lparr>world := w\<rparr>)))"

definition do_gettimeofday :: "'w kernel \<Rightarrow> 'w kst \<Rightarrow> (int \<times> 'w kst) option" where
  "do_gettimeofday K s =
     (case gettimeofday_k K (world s) of (sec, w) \<Rightarrow> Some (sec, s\<lparr>world := w\<rparr>))"

end
