(* ===== verification/File_IO.thy ===== *)
theory File_IO
  imports Kernel
begin

text \<open>
  The file helpers of \<open>sys_xclone2.c\<close>: \<open>file_open\<close>, \<open>file_close\<close>, \<open>file_read\<close>, \<open>file_write\<close>,
  and the pair \<open>open_file\<close>, \<open>close_file\<close>. A helper switches the thread's address limit with
  \<open>set_fs\<close> around its call, because the buffers live in kernel space.
\<close>

definition set_fs :: "mm_segment \<Rightarrow> 'w kst \<Rightarrow> 'w kst" where
  "set_fs seg s = s\<lparr>addr_limit := seg\<rparr>"

lemma set_fs_sel [simp]:
  "world (set_fs g s) = world s" "addr_limit (set_fs g s) = g"
  "fpos (set_fs g s) = fpos s" "enc_key (set_fs g s) = enc_key s"
  "live (set_fs g s) = live s" "next_id (set_fs g s) = next_id s"
  "opened (set_fs g s) = opened s" "trace (set_fs g s) = trace s"
  by (simp_all add: set_fs_def)

definition file_open :: "'w kernel \<Rightarrow> string \<Rightarrow> int \<Rightarrow> int \<Rightarrow> 'w kst \<Rightarrow> (nat eptr \<times> 'w kst) option" where
  "file_open K path flags rights s = do {
     let s = set_fs KERNEL_DS s;
     (filp, s) \<leftarrow> filp_open K path flags rights s;
     Some (filp, s)
   }"

definition file_close :: "'w kernel \<Rightarrow> nat \<Rightarrow> 'w kst \<Rightarrow> (unit \<times> 'w kst) option" where
  "file_close K file s = filp_close K file s"

definition file_read ::
  "'w kernel \<Rightarrow> nat \<Rightarrow> int \<Rightarrow> byte list \<Rightarrow> int \<Rightarrow> 'w kst \<Rightarrow> ((int \<times> byte list) \<times> 'w kst) option" where
  "file_read K file offset buf len s = do {
     let oldfs = addr_limit s;
     let s = set_fs KERNEL_DS s;
     ((ret, buf, offset), s) \<leftarrow> vfs_read K file buf (u32 len) (i64 offset) s;
     let bytes = i32 ret;
     let s = set_fs oldfs s;
     Some ((bytes, buf), s)
   }"

definition file_write ::
  "'w kernel \<Rightarrow> nat \<Rightarrow> int \<Rightarrow> byte list \<Rightarrow> int \<Rightarrow> 'w kst \<Rightarrow> (int \<times> 'w kst) option" where
  "file_write K file offset buf len s = do {
     let oldfs = addr_limit s;
     let s = set_fs KERNEL_DS s;
     ((ret, offset), s) \<leftarrow> vfs_write K file buf (u32 len) (i64 offset) s;
     let bytes = i32 ret;
     let s = set_fs oldfs s;
     Some (bytes, s)
   }"

text \<open>
  \<open>open_file\<close> passes \<open>&flip->f_pos\<close> with \<open>flip\<close> still \<open>NULL\<close> as the creation mode, which is
  the offset of \<open>f_pos\<close> in \<open>struct file\<close>. It turns an error pointer into \<open>NULL\<close>.
\<close>

definition open_file :: "'w kernel \<Rightarrow> string \<Rightarrow> int \<Rightarrow> int \<Rightarrow> 'w kst \<Rightarrow> (nat eptr \<times> 'w kst) option" where
  "open_file K filepath acces offset s = do {
     let old_fs = addr_limit s;
     let s = set_fs KERNEL_DS s;
     (flip, s) \<leftarrow> filp_open K filepath acces (f_pos_offset_k K) s;
     let s = set_fs old_fs s;
     if is_err flip then Some (Null, s)
     else Some (flip, s)
   }"

definition close_file :: "'w kernel \<Rightarrow> nat eptr \<Rightarrow> 'w kst \<Rightarrow> (unit \<times> 'w kst) option" where
  "close_file K flip s = do { f \<leftarrow> deref flip; filp_close K f s }"

subsection \<open>What every helper leaves alone\<close>

text \<open>
  Ownership of memory and of the key is not touched by the file helpers, and a transfer does
  not change which files are open.
\<close>

definition same_memory :: "'w kst \<Rightarrow> 'w kst \<Rightarrow> bool" where
  "same_memory s t \<longleftrightarrow> live t = live s \<and> next_id t = next_id s \<and> enc_key t = enc_key s"

definition same_owned :: "'w kst \<Rightarrow> 'w kst \<Rightarrow> bool" where
  "same_owned s t \<longleftrightarrow> same_memory s t \<and> opened t = opened s"

lemma same_memory_refl [simp]: "same_memory s s"
  by (simp add: same_memory_def)

lemma same_memory_trans: "same_memory s t \<Longrightarrow> same_memory t u \<Longrightarrow> same_memory s u"
  by (simp add: same_memory_def)

lemma same_owned_refl [simp]: "same_owned s s"
  by (simp add: same_owned_def)

lemma same_owned_trans: "same_owned s t \<Longrightarrow> same_owned t u \<Longrightarrow> same_owned s u"
  by (auto simp: same_owned_def intro: same_memory_trans)

lemma same_ownedD:
  assumes "same_owned s t"
  shows "live t = live s" "next_id t = next_id s" "enc_key t = enc_key s" "opened t = opened s"
  using assms by (simp_all add: same_owned_def same_memory_def)

text \<open>
  A routine that frees only what it has allocated itself leaves the allocations of before in place
  and adds some of its own.
\<close>

definition grown :: "'w kst \<Rightarrow> 'w kst \<Rightarrow> bool" where
  "grown s t \<longleftrightarrow> enc_key t = enc_key s \<and> next_id s \<le> next_id t \<and>
     (let k = length (live t) - length (live s) in
      length (live s) \<le> length (live t) \<and> drop k (live t) = live s \<and> distinct (take k (live t)) \<and>
      (\<forall>i\<in>set (take k (live t)). next_id s \<le> i \<and> i < next_id t))"

lemma file_read_Some_iff:
  "file_read K f off buf len s = Some ((r, buf'), s') \<longleftrightarrow>
     (\<exists>ret bytes pos w. f \<in> set (opened s) \<and>
        vfs_read_k K KERNEL_DS f (nat (u64 (u32 len))) (i64 off) (world s) = ((ret, bytes, pos), w) \<and>
        length bytes \<le> length buf \<and> r = i32 ret \<and> buf' = overlay buf 0 bytes \<and>
        s' = note_event (ReadAt f (i64 off) (nat (u64 (u32 len))) ret) (s\<lparr>world := w\<rparr>))"
  by (auto simp: file_read_def vfs_read_def set_fs_def note_event_def Let_def
      split: prod.splits if_splits)

lemma file_write_Some_iff:
  "file_write K f off buf len s = Some (r, s') \<longleftrightarrow>
     (\<exists>ret pos w. f \<in> set (opened s) \<and> nat (u64 (u32 len)) \<le> length buf \<and>
        vfs_write_k K KERNEL_DS f (take (nat (u64 (u32 len))) buf) (i64 off) (world s) = ((ret, pos), w) \<and>
        r = i32 ret \<and>
        s' = note_event (WroteAt f (i64 off) (take (nat (u64 (u32 len))) buf) ret) (s\<lparr>world := w\<rparr>))"
  by (auto simp: file_write_def vfs_write_def set_fs_def note_event_def Let_def
      split: prod.splits if_splits)

lemma file_read_frame [frame_rules]:
  "safely (file_read K f off buf len s)
     (\<lambda>(x, t). same_owned s t \<and> addr_limit t = addr_limit s)"
  by (rule safelyI) (auto simp: file_read_Some_iff same_owned_def same_memory_def)

lemma file_write_frame [frame_rules]:
  "safely (file_write K f off buf len s)
     (\<lambda>(x, t). same_owned s t \<and> addr_limit t = addr_limit s)"
  by (rule safelyI) (auto simp: file_write_Some_iff same_owned_def same_memory_def)

lemma file_open_Some_iff:
  "file_open K path fl md s = Some (p, s') \<longleftrightarrow>
     (\<exists>w. filp_open_k K path fl md (world s) = (p, w) \<and>
       s' = note_event (Opened path fl p) (s\<lparr>addr_limit := KERNEL_DS, world := w,
              opened := add_open p (opened s)\<rparr>))"
  by (auto simp: file_open_def filp_open_def set_fs_def note_event_def Let_def split: prod.splits)

lemma file_close_Some_iff:
  "file_close K f s = Some (x, s') \<longleftrightarrow>
     f \<in> set (opened s) \<and>
     s' = note_event (Closed f)
       (s\<lparr>world := filp_close_k K f (world s), opened := remove1 f (opened s)\<rparr>)"
  by (auto simp: file_close_def filp_close_def)


subsection \<open>Symbolic execution\<close>

text \<open>
  One equation for each call: what has to hold for a condition to hold after it, whatever the
  kernel answers.
\<close>

lemma safely_if [exec_simps]:
  "safely (if b then m else n) Q \<longleftrightarrow> (b \<longrightarrow> safely m Q) \<and> (\<not> b \<longrightarrow> safely n Q)"
  by simp

lemma safely_let [exec_simps]: "safely (let x = e in f x) Q = safely (f e) Q"
  by (simp add: Let_def)

lemma safely_deref [exec_simps]: "safely (deref p) Q \<longleftrightarrow> (\<forall>x. p = Ptr x \<longrightarrow> Q x)"
  by (auto simp: safely_iff)

lemma safely_kmalloc [exec_simps]:
  "safely (kmalloc K n s) Q \<longleftrightarrow>
     (\<forall>w. kmalloc_k K n (world s) = (None, w) \<longrightarrow> Q (None, s\<lparr>world := w\<rparr>)) \<and>
     (\<forall>g w. kmalloc_k K n (world s) = (Some g, w) \<longrightarrow>
        Q (Some \<lparr>bid = next_id s, mem = resize n g\<rparr>,
          s\<lparr>world := w, next_id := Suc (next_id s), live := next_id s # live s\<rparr>))"
  by (auto simp: kmalloc_def split: prod.splits option.splits)

lemma safely_kfree [exec_simps]:
  "safely (kfree (Some b) s) Q \<longleftrightarrow>
     (bid b \<in> set (live s) \<longrightarrow> Q ((), s\<lparr>live := remove1 (bid b) (live s)\<rparr>))"
  by (simp add: kfree_def)

lemma safely_kfree_None [exec_simps]: "safely (kfree None s) Q \<longleftrightarrow> Q ((), s)"
  by (simp add: kfree_def)

lemma safely_buf_bytes [exec_simps]:
  "safely (buf_bytes p s) Q \<longleftrightarrow> (\<forall>b. p = Some b \<and> bid b \<in> set (live s) \<longrightarrow> Q (mem b))"
  by (cases p) (auto simp: buf_bytes_def)

lemma safely_file_open [exec_simps]:
  "safely (file_open K path fl md s) Q \<longleftrightarrow>
     (\<forall>p w. filp_open_k K path fl md (world s) = (p, w) \<longrightarrow>
       Q (p, note_event (Opened path fl p)
         (s\<lparr>addr_limit := KERNEL_DS, world := w, opened := add_open p (opened s)\<rparr>)))"
  by (auto simp: safely_iff file_open_Some_iff)

lemma safely_file_close [exec_simps]:
  "safely (file_close K f s) Q \<longleftrightarrow>
     (f \<in> set (opened s) \<longrightarrow> Q ((), note_event (Closed f)
       (s\<lparr>world := filp_close_k K f (world s), opened := remove1 f (opened s)\<rparr>)))"
  by (auto simp: safely_iff file_close_Some_iff)

lemma safely_vfs_unlink [exec_simps]:
  "safely (vfs_unlink K dir v s) Q \<longleftrightarrow>
     (\<forall>r w. vfs_unlink_k K dir v (world s) = (r, w) \<longrightarrow>
        Q (r, note_event (Unlinked dir v r) (s\<lparr>world := w\<rparr>)))"
  by (auto simp: vfs_unlink_def split: prod.splits)

lemma safely_lock_dir [exec_simps]:
  "safely (lock_dir d s) Q = Q ((), note_event (DirLocked d) s)"
  "safely (unlock_dir d s) Q = Q ((), note_event (DirUnlocked d) s)"
  by (simp_all add: lock_dir_def unlock_dir_def)

lemma safely_vfs_setxattr [exec_simps]:
  "safely (vfs_setxattr K d n x s) Q \<longleftrightarrow>
     (\<forall>r w. vfs_setxattr_k K d n x (world s) = (r, w) \<longrightarrow>
        Q (r, note_event (XattrSet d n x r) (s\<lparr>world := w\<rparr>)))"
  by (auto simp: vfs_setxattr_def split: prod.splits)

lemma safely_do_gettimeofday [exec_simps]:
  "safely (do_gettimeofday K s) Q \<longleftrightarrow>
     (\<forall>sec w. gettimeofday_k K (world s) = (sec, w) \<longrightarrow> Q (sec, s\<lparr>world := w\<rparr>))"
  by (auto simp: do_gettimeofday_def split: prod.splits)

lemma safely_vfs_read [exec_simps]:
  "safely (vfs_read K f buf len pos s) Q \<longleftrightarrow>
     (\<forall>r bs p w. f \<in> set (opened s) \<and>
        vfs_read_k K (addr_limit s) f (nat (u64 len)) pos (world s) = ((r, bs, p), w) \<and>
        length bs \<le> length buf \<longrightarrow>
        Q ((r, overlay buf 0 bs, p), note_event (ReadAt f pos (nat (u64 len)) r) (s\<lparr>world := w\<rparr>)))"
  by (auto simp: vfs_read_def split: prod.splits)

lemma safely_vfs_write [exec_simps]:
  "safely (vfs_write K f buf len pos s) Q \<longleftrightarrow>
     (\<forall>r p w. f \<in> set (opened s) \<and> nat (u64 len) \<le> length buf \<and>
        vfs_write_k K (addr_limit s) f (take (nat (u64 len)) buf) pos (world s) = ((r, p), w) \<longrightarrow>
        Q ((r, p), note_event (WroteAt f pos (take (nat (u64 len)) buf) r) (s\<lparr>world := w\<rparr>)))"
  by (auto simp: vfs_write_def split: prod.splits)

lemma safely_buf_area [exec_simps]:
  "safely (buf_area p s) Q \<longleftrightarrow>
     (p = None \<longrightarrow> Q []) \<and> (\<forall>b. p = Some b \<and> bid b \<in> set (live s) \<longrightarrow> Q (mem b))"
  by (cases p) (auto simp: buf_area_def buf_bytes_def)

lemma safely_vfs_read_null [exec_simps]:
  "safely (vfs_read_ptr K f None m len pos s) Q \<longleftrightarrow>
     (\<forall>r p w. f \<in> set (opened s) \<and>
        vfs_read_null_k K (addr_limit s) f (nat (u64 len)) pos (world s) = ((r, p), w) \<longrightarrow>
        Q ((r, m, p), note_event (ReadAt f pos (nat (u64 len)) r) (s\<lparr>world := w\<rparr>)))"
  by (auto simp: vfs_read_ptr_def split: prod.splits)

lemma safely_vfs_write_null [exec_simps]:
  "safely (vfs_write_ptr K f None m len pos s) Q \<longleftrightarrow>
     (\<forall>r p w. f \<in> set (opened s) \<and>
        vfs_write_null_k K (addr_limit s) f (nat (u64 len)) pos (world s) = ((r, p), w) \<longrightarrow>
        Q ((r, p), note_event (WroteAt f pos [] r) (s\<lparr>world := w\<rparr>)))"
  by (auto simp: vfs_write_ptr_def split: prod.splits)

end
