(* ===== verification/C_Strings.thy ===== *)
theory C_Strings
  imports Kernel
begin

text \<open>
  The C string library as the sources use it (\<open>strlen\<close>, \<open>strcat\<close>, \<open>memcpy\<close>, \<open>memset\<close>,
  \<open>strreplace\<close>, and \<open>sprintf\<close> with \<open>%d\<close>, \<open>%ld\<close> and \<open>%02d\<close>), on buffers whose
  size is known: \<open>strcat\<close> starts at the first NUL of the destination and is undefined when there
  is none or when the result does not fit.
\<close>

definition c_div :: "int \<Rightarrow> int \<Rightarrow> int" where
  "c_div a b = sgn a * sgn b * (\<bar>a\<bar> div \<bar>b\<bar>)"

lemma c_div_nonneg: "0 \<le> a \<Longrightarrow> 0 < b \<Longrightarrow> c_div a b = a div b"
  by (cases "a = 0") (simp_all add: c_div_def)

subsection \<open>Decimal output\<close>

definition digit :: "nat \<Rightarrow> char" where
  "digit d = char_of (48 + d)"

fun dec_nat :: "nat \<Rightarrow> string" where
  "dec_nat n = (if n < 10 then [digit n] else dec_nat (n div 10) @ [digit (n mod 10)])"

declare dec_nat.simps [simp del]

definition fmt_d :: "int \<Rightarrow> string" where
  "fmt_d x = (if x < 0 then CHR ''-'' # dec_nat (nat (- x)) else dec_nat (nat x))"

definition fmt_02d :: "int \<Rightarrow> string" where
  "fmt_02d x = (if 0 \<le> x \<and> x < 10 then CHR ''0'' # fmt_d x else fmt_d x)"

lemma of_char_digit: "d < 10 \<Longrightarrow> (of_char (digit d) :: nat) = 48 + d"
  by (simp add: digit_def)

lemma digit_inj: "d < 10 \<Longrightarrow> e < 10 \<Longrightarrow> digit d = digit e \<Longrightarrow> d = e"
  by (metis of_char_digit add_left_cancel)

lemma digit_not_NUL: "d < 10 \<Longrightarrow> digit d \<noteq> NUL"
proof
  assume d: "d < 10" and "digit d = NUL"
  then have "(of_char (digit d) :: nat) = of_char NUL" by simp
  with of_char_digit [OF d] show False by simp
qed

lemma dec_nat_chars: "c \<in> set (dec_nat n) \<Longrightarrow> \<exists>d < 10. c = digit d"
proof (induction n rule: dec_nat.induct)
  case (1 n)
  then show ?case
    by (subst (asm) (2) dec_nat.simps)
      (auto split: if_splits intro: exI [of _ n] exI [of _ "n mod 10"])
qed

lemma dec_nat_no_NUL: "NUL \<notin> set (dec_nat n)"
  using dec_nat_chars digit_not_NUL by metis

lemma fmt_d_no_NUL: "NUL \<notin> set (fmt_d x)"
  by (simp add: fmt_d_def dec_nat_no_NUL)

lemma fmt_02d_no_NUL: "NUL \<notin> set (fmt_02d x)"
  by (simp add: fmt_02d_def fmt_d_no_NUL)

lemma dec_nat_length_bound: "n < 10 ^ k \<Longrightarrow> 0 < k \<Longrightarrow> length (dec_nat n) \<le> k"
proof (induction k arbitrary: n)
  case (Suc k)
  show ?case
  proof (cases "n < 10")
    case True
    then show ?thesis by (subst dec_nat.simps) simp
  next
    case False
    with Suc.prems have "n div 10 < 10 ^ k" "0 < k"
      by (simp_all add: less_mult_imp_div_less mult.commute) (cases k; simp)+
    with Suc.IH [of "n div 10"] False show ?thesis by (subst dec_nat.simps) simp
  qed
qed simp

lemma dec_nat_length_ge: "10 ^ k \<le> n \<Longrightarrow> k < length (dec_nat n)"
proof (induction k arbitrary: n)
  case 0
  show ?case by (subst dec_nat.simps) simp
next
  case (Suc k)
  then have "10 ^ k \<le> n div 10" and "\<not> n < 10"
    by (simp_all add: less_eq_div_iff_mult_less_eq mult.commute) (metis One_nat_def le_trans
      mult_le_mono2 nat_mult_1_right one_le_numeral one_le_power not_le)
  with Suc.IH [of "n div 10"] show ?case by (subst dec_nat.simps) simp
qed

lemma fmt_02d_two_digits: "0 \<le> x \<Longrightarrow> x < 100 \<Longrightarrow> length (fmt_02d x) = 2"
proof -
  assume x: "0 \<le> x" "x < 100"
  have le: "length (dec_nat (nat x)) \<le> 2"
    using x by (intro dec_nat_length_bound) simp_all
  show ?thesis
  proof (cases "x < 10")
    case True
    with x show ?thesis by (simp add: fmt_02d_def fmt_d_def dec_nat.simps)
  next
    case False
    then have "1 < length (dec_nat (nat x))"
      by (intro dec_nat_length_ge) simp
    with False x le show ?thesis by (simp add: fmt_02d_def fmt_d_def)
  qed
qed

lemma fmt_d_four_digits: "1000 \<le> x \<Longrightarrow> x < 10000 \<Longrightarrow> length (fmt_d x) = 4"
proof -
  assume x: "1000 \<le> x" "x < 10000"
  then have "nat x < 10 ^ 4" and "10 ^ 3 \<le> nat x" by simp_all
  then have "length (dec_nat (nat x)) \<le> 4" and "3 < length (dec_nat (nat x))"
    using dec_nat_length_bound [of "nat x" 4] dec_nat_length_ge [of 3 "nat x"] by simp_all
  with x show ?thesis by (simp add: fmt_d_def)
qed

lemma fmt_d_negative_digit: "- 10 < x \<Longrightarrow> x < 0 \<Longrightarrow> fmt_02d x = [CHR ''-'', digit (nat (- x))]"
  by (simp add: fmt_02d_def fmt_d_def dec_nat.simps)

lemma length_fmt_02d_small: "- 10 < x \<Longrightarrow> x < 100 \<Longrightarrow> length (fmt_02d x) = 2"
  by (cases "x < 0") (simp_all add: fmt_d_negative_digit fmt_02d_two_digits)

subsection \<open>Strings in buffers\<close>

definition c_str :: "byte list \<Rightarrow> string" where
  "c_str buf = takeWhile (\<lambda>c. c \<noteq> NUL) buf"

definition c_strlen :: "byte list \<Rightarrow> nat option" where
  "c_strlen buf = (if length (c_str buf) < length buf then Some (length (c_str buf)) else None)"

definition c_strcat :: "byte list \<Rightarrow> string \<Rightarrow> byte list option" where
  "c_strcat buf str = do {
     n \<leftarrow> c_strlen buf;
     if n + length str + 1 \<le> length buf then Some (overlay buf n (str @ [NUL])) else None
   }"

fun c_strcats :: "byte list \<Rightarrow> string list \<Rightarrow> byte list option" where
  "c_strcats buf [] = Some buf"
| "c_strcats buf (t # ts) = do { buf' \<leftarrow> c_strcat buf t; c_strcats buf' ts }"

definition c_memcpy :: "byte list \<Rightarrow> byte list \<Rightarrow> byte list option" where
  "c_memcpy buf src = (if length src \<le> length buf then Some (overlay buf 0 src) else None)"

definition c_memset :: "byte list \<Rightarrow> byte \<Rightarrow> nat \<Rightarrow> byte list option" where
  "c_memset buf c n = c_memcpy buf (replicate n c)"

definition c_strreplace :: "string \<Rightarrow> char \<Rightarrow> char \<Rightarrow> string" where
  "c_strreplace str old new = map (\<lambda>c. if c = old then new else c) str"

lemma safely_c_strlen [exec_simps]:
  "safely (c_strlen m) Q \<longleftrightarrow> (length (c_str m) < length m \<longrightarrow> Q (length (c_str m)))"
  by (simp add: c_strlen_def)

lemma length_c_str_le: "length (c_str buf) \<le> length buf"
  by (simp add: c_str_def length_takeWhile_le)

lemma c_str_no_NUL: "NUL \<notin> set (c_str buf)"
  by (auto simp: c_str_def dest: set_takeWhileD)

lemma take_c_str: "take (length (c_str buf)) buf = c_str buf"
  by (simp add: c_str_def takeWhile_eq_take [symmetric])

lemma c_str_prefix: "NUL \<notin> set t \<Longrightarrow> c_str (t @ NUL # rest) = t"
  by (induction t) (auto simp: c_str_def)

lemma c_str_append_rest: "NUL \<notin> set t \<Longrightarrow> c_str (t @ rest) = t @ c_str rest"
  by (induction t) (auto simp: c_str_def)

lemma c_str_replicate_NUL [simp]: "c_str (replicate n NUL) = []"
  by (cases n) (simp_all add: c_str_def)

lemma length_c_strreplace [simp]: "length (c_strreplace t a b) = length t"
  by (simp add: c_strreplace_def)

lemma c_strreplace_removes: "a \<noteq> b \<Longrightarrow> a \<notin> set (c_strreplace t a b)"
  by (auto simp: c_strreplace_def)

lemma c_strreplace_no_NUL: "NUL \<notin> set t \<Longrightarrow> b \<noteq> NUL \<Longrightarrow> NUL \<notin> set (c_strreplace t a b)"
  by (auto simp: c_strreplace_def)

lemma c_strcat_fits:
  assumes "NUL \<notin> set t" and "length (c_str buf) + length t < length buf"
  shows "\<exists>b. c_strcat buf t = Some b \<and> c_str b = c_str buf @ t \<and> length b = length buf"
proof -
  let ?b = "overlay buf (length (c_str buf)) (t @ [NUL])"
  have "?b = (c_str buf @ t) @ NUL # drop (length (c_str buf) + length (t @ [NUL])) buf"
    unfolding overlay_def take_c_str by simp
  then have "c_str ?b = c_str buf @ t"
    using assms(1) c_str_no_NUL by (metis Un_iff c_str_prefix set_append)
  with assms(2) show ?thesis
    by (simp add: c_strcat_def c_strlen_def length_overlay)
qed

lemma c_strcat_overflow: "length buf \<le> length (c_str buf) + length t \<Longrightarrow> c_strcat buf t = None"
  by (simp add: c_strcat_def c_strlen_def)

lemma c_strcats_fits:
  "\<forall>t\<in>set ts. NUL \<notin> set t \<Longrightarrow> length (c_str buf) + length (concat ts) < length buf \<Longrightarrow>
   \<exists>b. c_strcats buf ts = Some b \<and> c_str b = c_str buf @ concat ts \<and> length b = length buf"
proof (induction ts arbitrary: buf)
  case (Cons t ts)
  then obtain b where b: "c_strcat buf t = Some b" "c_str b = c_str buf @ t" "length b = length buf"
    using c_strcat_fits [of t buf] by auto
  with Cons.IH [of b] Cons.prems show ?case by auto
qed simp

lemma c_strcats_overflow:
  "\<forall>t\<in>set ts. NUL \<notin> set t \<Longrightarrow> ts \<noteq> [] \<Longrightarrow>
   length buf \<le> length (c_str buf) + length (concat ts) \<Longrightarrow> c_strcats buf ts = None"
proof (induction ts arbitrary: buf)
  case (Cons t ts)
  show ?case
  proof (cases "length (c_str buf) + length t < length buf")
    case True
    then obtain b where b: "c_strcat buf t = Some b" "c_str b = c_str buf @ t" "length b = length buf"
      using c_strcat_fits [of t buf] Cons.prems by auto
    moreover from True Cons.prems have "ts \<noteq> []" by auto
    ultimately show ?thesis using Cons.IH [of b] Cons.prems by auto
  next
    case False
    then show ?thesis by (simp add: c_strcat_overflow)
  qed
qed simp

end
