(* ===== verification/Trash_Name.thy ===== *)
theory Trash_Name
  imports C_Strings File_IO
begin

text \<open>
  The names of files in the trash folder. All routines build the name the same way: the folder,
  a time stamp of year, month, day, hour and minute, and the path of the file with every
  slash replaced by an opening bracket. \<open>processunlink\<close> does it in a cleared buffer
  sized from the file's name (\<open>build_name_sized\<close>), the others in an uncleared buffer of
  \<open>PATH_MAX\<close> bytes (\<open>name_prefix\<close>, \<open>name_finish\<close>).
\<close>

subsection \<open>Clock and stamp\<close>

definition clock :: "'w kernel \<Rightarrow> 'w kst \<Rightarrow> ((tm \<times> int \<times> int) \<times> 'w kst) option" where
  "clock K s = do {
     (tv_sec, s) \<leftarrow> do_gettimeofday K s;
     let get_time = u64 tv_sec;
     let tmp1 = i32 (get_time div 60);
     let mins = c_rem tmp1 60;
     let tmp2 = c_div tmp1 60;
     let hr = c_rem tmp2 24 - 4;
     Some ((time_to_tm_k K get_time, hr, mins), s)
   }"

definition stamp_parts :: "tm \<Rightarrow> int \<Rightarrow> int \<Rightarrow> string list" where
  "stamp_parts tv2 hr mins =
     [''/trashbin'', ''/'', fmt_d (tm_year tv2 + 1900), ''-'', fmt_02d (tm_mon tv2), ''-'',
      fmt_02d (tm_mday tv2), ''-'', fmt_02d hr, '':'', fmt_02d mins, ''_'']"

definition stamp :: "tm \<Rightarrow> int \<Rightarrow> int \<Rightarrow> string" where
  "stamp tv2 hr mins = ''/usr'' @ concat (stamp_parts tv2 hr mins)"

definition flat_path :: "string \<Rightarrow> string" where
  "flat_path path = c_strreplace path CHR ''/'' CHR ''[''"

subsection \<open>Building the name\<close>

definition sized_name_len :: "string \<Rightarrow> nat" where
  "sized_name_len d_name = length ''/usr'' + 9 + length d_name + 26"

definition build_name_sized ::
  "'w kernel \<Rightarrow> nat \<Rightarrow> nat \<Rightarrow> cbuf option \<Rightarrow> 'w kst \<Rightarrow> (byte list \<times> 'w kst) option" where
  "build_name_sized K infile bytes trashbinfolder_filename s = do {
     ((tv2, hr, mins), s) \<leftarrow> clock K s;
     m \<leftarrow> buf_bytes trashbinfolder_filename s;
     m \<leftarrow> c_memset m NUL bytes;
     m \<leftarrow> c_memcpy m ''/usr'';
     m \<leftarrow> c_strcats m (stamp_parts tv2 hr mins);
     p \<leftarrow> d_path K infile None PATH_MAX s;
     path \<leftarrow> deref p;
     m \<leftarrow> c_strcat m (flat_path path);
     Some (m, s)
   }"

definition name_prefix :: "'w kernel \<Rightarrow> 'w kst \<Rightarrow> ((cbuf option \<times> byte list) \<times> 'w kst) option" where
  "name_prefix K s = do {
     ((tv2, hr, mins), s) \<leftarrow> clock K s;
     (trashbinfolder_filename, s) \<leftarrow> kmalloc K PATH_MAX s;
     m \<leftarrow> buf_bytes trashbinfolder_filename s;
     m \<leftarrow> c_memcpy m ''/usr'';
     m \<leftarrow> c_strcats m (stamp_parts tv2 hr mins);
     Some ((trashbinfolder_filename, m), s)
   }"

definition name_finish ::
  "'w kernel \<Rightarrow> nat \<Rightarrow> cbuf option \<Rightarrow> byte list \<Rightarrow> string list \<Rightarrow> 'w kst \<Rightarrow> byte list option" where
  "name_finish K f_read filename m suffixes s = do {
     p \<leftarrow> d_path K f_read filename PATH_MAX s;
     path \<leftarrow> deref p;
     c_strcats m (flat_path path # suffixes)
   }"

subsection \<open>What the kernel documents about time\<close>

text \<open>
  \<open>do_gettimeofday\<close> reads the seconds since 1970 (here: up to the year 6053, so that the
  minutes still fit an \<open>int\<close>); \<open>time_to_tm\<close> gives a year of four digits after 1900 is added,
  a month from 0 to 11 and a day from 1 to 31.
\<close>

definition clock_contract :: "'w kernel \<Rightarrow> bool" where
  "clock_contract K \<longleftrightarrow>
     (\<forall>w. 0 \<le> fst (gettimeofday_k K w) \<and> fst (gettimeofday_k K w) < 128849018880) \<and>
     (\<forall>t. - 900 \<le> tm_year (time_to_tm_k K t) \<and> tm_year (time_to_tm_k K t) < 8100 \<and>
          0 \<le> tm_mon (time_to_tm_k K t) \<and> tm_mon (time_to_tm_k K t) \<le> 11 \<and>
          1 \<le> tm_mday (time_to_tm_k K t) \<and> tm_mday (time_to_tm_k K t) \<le> 31)"

lemma clock_fields:
  assumes "0 \<le> sec" and "sec < 128849018880"
  shows "c_rem (c_div (i32 (u64 sec div 60)) 60) 24 - 4 = sec div 3600 mod 24 - 4"
    and "c_rem (i32 (u64 sec div 60)) 60 = sec div 60 mod 60"
proof -
  from assms have u: "u64 sec = sec" by (simp add: u64_id)
  from assms have "i32 (sec div 60) = sec div 60"
    by (intro i32_id) simp_all
  with u assms show "c_rem (c_div (i32 (u64 sec div 60)) 60) 24 - 4 = sec div 3600 mod 24 - 4"
    and "c_rem (i32 (u64 sec div 60)) 60 = sec div 60 mod 60"
    by (simp_all add: c_rem_nonneg c_div_nonneg pos_imp_zdiv_nonneg_iff zdiv_zmult2_eq [symmetric])
qed

lemma clock_returns:
  assumes "clock_contract K"
  shows "\<exists>tv2 hr mins w. clock K s = Some ((tv2, hr, mins), s\<lparr>world := w\<rparr>) \<and>
    w = snd (gettimeofday_k K (world s)) \<and>
    hr = fst (gettimeofday_k K (world s)) div 3600 mod 24 - 4 \<and>
    - 4 \<le> hr \<and> hr \<le> 19 \<and> 0 \<le> mins \<and> mins < 60 \<and>
    - 900 \<le> tm_year tv2 \<and> tm_year tv2 < 8100 \<and> 0 \<le> tm_mon tv2 \<and> tm_mon tv2 \<le> 11 \<and>
    1 \<le> tm_mday tv2 \<and> tm_mday tv2 \<le> 31"
proof -
  obtain sec w where g: "gettimeofday_k K (world s) = (sec, w)" by (cases "gettimeofday_k K (world s)")
  have c: "0 \<le> fst (gettimeofday_k K w) \<and> fst (gettimeofday_k K w) < 128849018880" for w
    using assms by (simp add: clock_contract_def)
  from c [of "world s"] g have sec: "0 \<le> sec" "sec < 128849018880" by simp_all
  have "clock K s = Some ((time_to_tm_k K (u64 sec), sec div 3600 mod 24 - 4, sec div 60 mod 60),
      s\<lparr>world := w\<rparr>)"
    using clock_fields [OF sec] by (simp add: clock_def do_gettimeofday_def g Let_def)
  moreover have "0 \<le> sec div 3600 mod 24" "sec div 3600 mod 24 < 24" "0 \<le> sec div 60 mod 60"
    "sec div 60 mod 60 < 60" by simp_all
  moreover have "- 900 \<le> tm_year (time_to_tm_k K t) \<and> tm_year (time_to_tm_k K t) < 8100 \<and>
          0 \<le> tm_mon (time_to_tm_k K t) \<and> tm_mon (time_to_tm_k K t) \<le> 11 \<and>
          1 \<le> tm_mday (time_to_tm_k K t) \<and> tm_mday (time_to_tm_k K t) \<le> 31" for t
    using assms by (simp add: clock_contract_def)
  ultimately show ?thesis
    using g by (intro exI [of _ "time_to_tm_k K (u64 sec)"] exI conjI) auto
qed

subsection \<open>The stamp\<close>

lemma stamp_parts_no_NUL: "\<forall>t\<in>set (stamp_parts tv2 hr mins). NUL \<notin> set t"
  by (simp add: stamp_parts_def fmt_d_no_NUL fmt_02d_no_NUL)

lemma stamp_parts_not_Nil: "stamp_parts tv2 hr mins \<noteq> []"
  by (simp add: stamp_parts_def)

lemma stamp_length:
  assumes "- 900 \<le> tm_year tv2" "tm_year tv2 < 8100" "0 \<le> tm_mon tv2" "tm_mon tv2 \<le> 11"
    "1 \<le> tm_mday tv2" "tm_mday tv2 \<le> 31" "- 4 \<le> hr" "hr \<le> 19" "0 \<le> mins" "mins < 60"
  shows "length (stamp tv2 hr mins) = 31"
  using assms
  by (simp add: stamp_def stamp_parts_def fmt_d_four_digits length_fmt_02d_small)

lemma stamp_no_NUL: "NUL \<notin> set (stamp tv2 hr mins)"
  using stamp_parts_no_NUL [of tv2 hr mins] by (auto simp: stamp_def)

lemma flat_path_no_NUL: "NUL \<notin> set path \<Longrightarrow> NUL \<notin> set (flat_path path)"
  by (simp add: flat_path_def c_strreplace_no_NUL)

lemma length_flat_path [simp]: "length (flat_path path) = length path"
  by (simp add: flat_path_def)

definition now_stamp :: "'w kernel \<Rightarrow> 'w kst \<Rightarrow> string" where
  "now_stamp K s = (case clock K s of Some ((tv2, hr, mins), _) \<Rightarrow> stamp tv2 hr mins | None \<Rightarrow> [])"

abbreviation after_clock :: "'w kernel \<Rightarrow> 'w \<Rightarrow> 'w" where
  "after_clock K w \<equiv> snd (gettimeofday_k K w)"

lemma clock_stamp:
  obtains tv2 hr mins where "clock K s = Some ((tv2, hr, mins), s\<lparr>world := after_clock K (world s)\<rparr>)"
    and "now_stamp K s = stamp tv2 hr mins"
  by (cases "gettimeofday_k K (world s)")
    (simp add: clock_def now_stamp_def do_gettimeofday_def Let_def)

lemma now_stamp_no_NUL: "NUL \<notin> set (now_stamp K s)"
  by (rule clock_stamp [of K s]) (simp add: stamp_no_NUL)

lemma length_now_stamp: "clock_contract K \<Longrightarrow> length (now_stamp K s) = 31"
proof -
  assume "clock_contract K"
  then obtain tv2 hr mins w where "clock K s = Some ((tv2, hr, mins), s\<lparr>world := w\<rparr>)"
    and "length (stamp tv2 hr mins) = 31"
    using clock_returns [of K s] stamp_length by metis
  then show ?thesis by (simp add: now_stamp_def)
qed

subsection \<open>The uncleared buffer\<close>

text \<open>
  The uncleared buffer of \<open>PATH_MAX\<close> bytes: \<open>strcat\<close> appends at the first NUL the allocator
  left behind the four bytes of \<open>/usr\<close>, so whatever stood there becomes part of the name.
\<close>

definition leftover :: "byte list \<Rightarrow> string" where
  "leftover garbage = c_str (drop 4 (resize PATH_MAX garbage))"

lemma name_prefix_result:
  assumes alloc: "kmalloc_k K PATH_MAX (after_clock K (world s)) = (Some garbage, w)"
    and fits: "length (now_stamp K s) + length (leftover garbage) < PATH_MAX"
  shows "\<exists>m. name_prefix K s = Some ((Some \<lparr>bid = next_id s, mem = resize PATH_MAX garbage\<rparr>, m),
      s\<lparr>world := w, next_id := Suc (next_id s), live := next_id s # live s\<rparr>) \<and>
    c_str m = ''/usr'' @ leftover garbage @ drop 4 (now_stamp K s) \<and> length m = PATH_MAX"
proof -
  obtain tv2 hr mins where c: "clock K s = Some ((tv2, hr, mins), s\<lparr>world := after_clock K (world s)\<rparr>)"
    and st: "now_stamp K s = stamp tv2 hr mins" by (rule clock_stamp)
  let ?g = "resize PATH_MAX garbage"
  let ?m = "overlay ?g 0 ''/usr''"
  have over: "?m = ''/usr'' @ drop 4 ?g"
    by (simp add: overlay_def numeral_eq_Suc)
  have m: "c_str ?m = ''/usr'' @ leftover garbage"
    unfolding over leftover_def by (rule c_str_append_rest) simp
  have len: "length ?m = PATH_MAX"
    by (simp add: length_overlay PATH_MAX_def)
  have d: "drop 4 (now_stamp K s) = concat (stamp_parts tv2 hr mins)"
    by (simp add: st stamp_def)
  have "length (c_str ?m) + length (concat (stamp_parts tv2 hr mins)) < length ?m"
    using fits m len st by (simp add: stamp_def)
  from c_strcats_fits [OF stamp_parts_no_NUL this] obtain b where
    "c_strcats ?m (stamp_parts tv2 hr mins) = Some b"
    "c_str b = c_str ?m @ concat (stamp_parts tv2 hr mins)" "length b = length ?m" by blast
  then show ?thesis
    using m len d alloc
    by (simp add: name_prefix_def c kmalloc_def buf_bytes_def c_memcpy_def PATH_MAX_def)
qed

lemma name_finish_result:
  assumes "d_path_k K f (map_option bid filename) PATH_MAX (world s) = Some (Ptr path)"
    and "NUL \<notin> set path" and "\<forall>t\<in>set suffixes. NUL \<notin> set t"
    and "length (c_str m) + length path + length (concat suffixes) < length m"
  shows "\<exists>m'. name_finish K f filename m suffixes s = Some m' \<and>
    c_str m' = c_str m @ flat_path path @ concat suffixes"
  using c_strcats_fits [of "flat_path path # suffixes" m] assms
  by (auto simp: name_finish_def d_path_def flat_path_no_NUL)

subsection \<open>Frames\<close>

text \<open>Building a name touches the clock, and \<open>name_prefix\<close> allocates one buffer.\<close>

lemma safely_build_name_sized [frame_rules]:
  "(\<And>m w. Q (m, s\<lparr>world := w\<rparr>)) \<Longrightarrow> safely (build_name_sized K f n nb s) Q"
  by (rule clock_stamp [of K s])
    (auto simp: build_name_sized_def safely_iff Option.bind_eq_Some_conv)

lemma safely_name_prefix [frame_rules]:
  "(\<And>m g w. Q ((Some \<lparr>bid = next_id s, mem = resize PATH_MAX g\<rparr>, m),
       s\<lparr>world := w, next_id := Suc (next_id s), live := next_id s # live s\<rparr>)) \<Longrightarrow>
     safely (name_prefix K s) Q"
  by (rule clock_stamp [of K s])
    (auto simp: name_prefix_def safely_iff Option.bind_eq_Some_conv kmalloc_def buf_bytes_def
      split: prod.splits option.splits if_splits)

end
