(* ===== verification/Params.thy ===== *)
theory Params
  imports Kernel "HOL-Library.Word"
begin

unbundle bit_operations_syntax

text \<open>
  The system calls' argument (\<open>params.h\<close>) and the clone flags (\<open>flags.h\<close>).
\<close>

record Param =
  fname :: "string option"
  b1 :: "32 word"

definition CLONE_PROT_MV :: "32 word" where "CLONE_PROT_MV = 0xff1"
definition CLONE_PROT_ZIP :: "32 word" where "CLONE_PROT_ZIP = 0xff2"
definition CLONE_PROT_ENC :: "32 word" where "CLONE_PROT_ENC = 0xff4"

lemmas flag_defs = CLONE_PROT_MV_def CLONE_PROT_ZIP_def CLONE_PROT_ENC_def

end
