(* ===== verification/Kernel_Contract.thy ===== *)
theory Kernel_Contract
  imports File_IO Trash_Name Params
begin

text \<open>
  What the modules rely on when they call the kernel, stated over an observation \<open>c\<close> of the
  kernel state: \<open>c d w\<close> is the content of the regular file behind the directory entry \<open>d\<close>
  (empty when the file does not exist). Reads return the bytes at the position, fewer only at
  the end of the file; writes store all bytes and pad a gap with zeros; no other call changes a
  content, but for the unlinked file's own. A short write (a full disk, a signal) is outside this
  contract; the theorems about it take the kernel as it is.
\<close>

definition reads_files :: "'w kernel \<Rightarrow> (nat \<Rightarrow> 'w \<Rightarrow> byte list) \<Rightarrow> bool" where
  "reads_files K c \<longleftrightarrow>
     (\<forall>f n pos w. 0 \<le> pos \<longrightarrow>
        (\<exists>w'. vfs_read_k K KERNEL_DS f n pos w =
            ((int (length (take n (drop (nat pos) (c (f_dentry_k K f) w)))),
              take n (drop (nat pos) (c (f_dentry_k K f) w)),
              pos + int (length (take n (drop (nat pos) (c (f_dentry_k K f) w))))), w') \<and>
          (\<forall>d. c d w' = c d w)))"

definition writes_files :: "'w kernel \<Rightarrow> (nat \<Rightarrow> 'w \<Rightarrow> byte list) \<Rightarrow> bool" where
  "writes_files K c \<longleftrightarrow>
     (\<forall>f bytes pos w. 0 \<le> pos \<longrightarrow>
        (\<exists>w'. vfs_write_k K KERNEL_DS f bytes pos w =
            ((int (length bytes), pos + int (length bytes)), w') \<and>
          (\<forall>d. c d w' = (if d = f_dentry_k K f then write_at (c d w) (nat pos) bytes else c d w))))"

definition keeps_files :: "'w kernel \<Rightarrow> (nat \<Rightarrow> 'w \<Rightarrow> byte list) \<Rightarrow> bool" where
  "keeps_files K c \<longleftrightarrow>
     (\<forall>n w d. c d (snd (kmalloc_k K n w)) = c d w) \<and>
     (\<forall>p fl m w d. c d (snd (filp_open_k K p fl m w)) = c d w) \<and>
     (\<forall>f w d. c d (filp_close_k K f w) = c d w) \<and>
     (\<forall>w d. c d (snd (gettimeofday_k K w)) = c d w) \<and>
     (\<forall>dir v w d. d \<noteq> v \<longrightarrow> c d (snd (vfs_unlink_k K dir v w)) = c d w) \<and>
     (\<forall>e n v w d. c d (snd (vfs_setxattr_k K e n v w)) = c d w)"

definition fs_contract :: "'w kernel \<Rightarrow> (nat \<Rightarrow> 'w \<Rightarrow> byte list) \<Rightarrow> bool" where
  "fs_contract K c \<longleftrightarrow> reads_files K c \<and> writes_files K c \<and> keeps_files K c \<and>
     (\<forall>d w. i_size_k K d w = int (length (c d w)))"

definition allocates :: "'w kernel \<Rightarrow> bool" where
  "allocates K \<longleftrightarrow> (\<forall>n w. fst (kmalloc_k K n w) \<noteq> None)"

text \<open>A name that opens, with the flags given, as the open file \<open>f\<close>.\<close>

definition opens_as :: "'w kernel \<Rightarrow> string \<Rightarrow> int \<Rightarrow> int \<Rightarrow> nat \<Rightarrow> bool" where
  "opens_as K path flags mode f \<longleftrightarrow> (\<forall>w. fst (filp_open_k K path flags mode w) = Ptr f)"

subsection \<open>The wrappers under the contract\<close>

lemma file_read_exec:
  assumes "reads_files K c" and "f \<in> set (opened s)" and "0 \<le> off" and "off < 9223372036854775808"
    and "n \<le> length buf" and "n < 4294967296" and "m = int n"
  obtains w where
    "file_read K f off buf m s =
      Some ((i32 (int (length (take n (drop (nat off) (c (f_dentry_k K f) (world s)))))),
             overlay buf 0 (take n (drop (nat off) (c (f_dentry_k K f) (world s))))),
        note_event (ReadAt f off n (int (length (take n (drop (nat off) (c (f_dentry_k K f) (world s)))))))
          (s\<lparr>world := w\<rparr>))"
    and "\<And>d. c d w = c d (world s)"
proof -
  have i: "i64 off = off" using assms by (simp add: i64_id)
  have u: "nat (u64 (u32 (int n))) = n" using assms by (simp add: u32_id u64_id)
  let ?bs = "take n (drop (nat off) (c (f_dentry_k K f) (world s)))"
  obtain w where w: "vfs_read_k K KERNEL_DS f n off (world s) =
      ((int (length ?bs), ?bs, off + int (length ?bs)), w)" "\<And>d. c d w = c d (world s)"
    using assms(1,3) unfolding reads_files_def by metis
  have "file_read K f off buf m s = Some ((i32 (int (length ?bs)), overlay buf 0 ?bs),
      note_event (ReadAt f off n (int (length ?bs))) (s\<lparr>world := w\<rparr>))"
    using assms w by (simp add: file_read_Some_iff i u del: length_take) (simp add: min.coboundedI2)
  with w that show ?thesis by blast
qed

lemma file_write_exec:
  assumes "writes_files K c" and "f \<in> set (opened s)" and "0 \<le> off" and "off < 9223372036854775808"
    and "n \<le> length buf" and "n < 2147483648" and "m = int n"
  obtains w where
    "file_write K f off buf m s =
      Some (int n, note_event (WroteAt f off (take n buf) (int n)) (s\<lparr>world := w\<rparr>))"
    and "\<And>d. c d w = (if d = f_dentry_k K f then write_at (c d (world s)) (nat off) (take n buf)
           else c d (world s))"
proof -
  have i: "i64 off = off" using assms by (simp add: i64_id)
  have u: "nat (u64 (u32 (int n))) = n" using assms by (simp add: u32_id u64_id)
  have l: "length (take n buf) = n" using assms by simp
  obtain w where w: "vfs_write_k K KERNEL_DS f (take n buf) off (world s) =
      ((int n, off + int n), w)"
    "\<And>d. c d w = (if d = f_dentry_k K f then write_at (c d (world s)) (nat off) (take n buf)
           else c d (world s))"
    using assms(1,3) l unfolding writes_files_def by metis
  have "file_write K f off buf m s =
      Some (int n, note_event (WroteAt f off (take n buf) (int n)) (s\<lparr>world := w\<rparr>))"
    using assms w by (simp add: file_write_Some_iff i u i32_id)
  with w that show ?thesis by blast
qed

lemma kmalloc_exec:
  assumes "keeps_files K c" and "allocates K"
  obtains w g where "kmalloc K n s = Some (Some \<lparr>bid = next_id s, mem = resize n g\<rparr>,
      s\<lparr>world := w, next_id := Suc (next_id s), live := next_id s # live s\<rparr>)"
    and "\<And>d. c d w = c d (world s)"
proof -
  obtain g w where k: "kmalloc_k K n (world s) = (Some g, w)"
    using assms(2) unfolding allocates_def by (metis option.exhaust prod.collapse)
  moreover have "\<And>d. c d (snd (kmalloc_k K n (world s))) = c d (world s)"
    using assms(1) by (simp add: keeps_files_def)
  ultimately show ?thesis
    using that [of g w] by (simp add: kmalloc_def)
qed

lemma file_open_exec:
  assumes "keeps_files K c" and "opens_as K path fl md f"
  obtains w where "file_open K path fl md s = Some (Ptr f, note_event (Opened path fl (Ptr f))
      (s\<lparr>addr_limit := KERNEL_DS, world := w, opened := f # opened s\<rparr>))"
    and "\<And>d. c d w = c d (world s)"
proof -
  obtain w where k: "filp_open_k K path fl md (world s) = (Ptr f, w)"
    using assms(2) unfolding opens_as_def by (metis prod.collapse)
  moreover have "\<And>d. c d (snd (filp_open_k K path fl md (world s))) = c d (world s)"
    using assms(1) by (simp add: keeps_files_def)
  ultimately show ?thesis
    using that [of w] by (simp add: file_open_Some_iff)
qed

lemma file_close_exec:
  assumes "f \<in> set (opened s)"
  shows "file_close K f s = Some ((), note_event (Closed f)
    (s\<lparr>world := filp_close_k K f (world s), opened := remove1 f (opened s)\<rparr>))"
  using assms by (simp add: file_close_Some_iff)

lemma keeps_close: "keeps_files K c \<Longrightarrow> c d (filp_close_k K f w) = c d w"
  and keeps_clock: "keeps_files K c \<Longrightarrow> c d (snd (gettimeofday_k K w)) = c d w"
  and keeps_unlink: "keeps_files K c \<Longrightarrow> d \<noteq> v \<Longrightarrow> c d (snd (vfs_unlink_k K dir v w)) = c d w"
  and keeps_xattr: "keeps_files K c \<Longrightarrow> c d (snd (vfs_setxattr_k K e n x w)) = c d w"
  by (simp_all add: keeps_files_def)

lemma fs_contractD:
  assumes "fs_contract K c"
  shows "reads_files K c" "writes_files K c" "keeps_files K c"
  using assms by (simp_all add: fs_contract_def)

lemma contract_size: "fs_contract K c \<Longrightarrow> i_size_k K d w = int (length (c d w))"
  by (simp add: fs_contract_def)

lemmas kernel_keeps = keeps_close keeps_clock keeps_unlink keeps_xattr


subsection \<open>Total symbolic execution under the contract\<close>

text \<open>
  Introduction rules for \<open>returns\<close>: what has to hold after a call for the rest of the
  computation to return, given that the kernel keeps its contract.
\<close>

lemma returns_kmalloc:
  assumes "keeps_files K c" and "allocates K"
    and "\<And>g w. (\<And>d. c d w = c d (world s)) \<Longrightarrow>
      Q (Some \<lparr>bid = next_id s, mem = resize n g\<rparr>,
        s\<lparr>world := w, next_id := Suc (next_id s), live := next_id s # live s\<rparr>)"
  shows "returns (kmalloc K n s) Q"
  by (rule kmalloc_exec [OF assms(1,2), of n s]) (use assms(3) in simp)

lemma returns_file_open:
  assumes "keeps_files K c" and "opens_as K path fl md f"
    and "\<And>w. (\<And>d. c d w = c d (world s)) \<Longrightarrow>
      Q (Ptr f, note_event (Opened path fl (Ptr f))
        (s\<lparr>addr_limit := KERNEL_DS, world := w, opened := f # opened s\<rparr>))"
  shows "returns (file_open K path fl md s) Q"
  by (rule file_open_exec [OF assms(1,2), of s]) (use assms(3) in simp)

lemma returns_file_close:
  assumes "f \<in> set (opened s)"
    and "Q ((), note_event (Closed f)
       (s\<lparr>world := filp_close_k K f (world s), opened := remove1 f (opened s)\<rparr>))"
  shows "returns (file_close K f s) Q"
  using assms by (simp add: file_close_exec)

lemma returns_kfree:
  assumes "bid b \<in> set (live s)" and "Q ((), s\<lparr>live := remove1 (bid b) (live s)\<rparr>)"
  shows "returns (kfree (Some b) s) Q"
  using assms by (simp add: kfree_def)

lemma returns_buf_bytes:
  assumes "bid b \<in> set (live s)" and "Q (mem b)"
  shows "returns (buf_bytes (Some b) s) Q"
  using assms by (simp add: buf_bytes_def)

lemma returns_vfs_unlink:
  assumes "\<And>r w. (r, w) = vfs_unlink_k K dir v (world s) \<Longrightarrow>
      Q (r, note_event (Unlinked dir v r) (s\<lparr>world := w\<rparr>))"
  shows "returns (vfs_unlink K dir v s) Q"
  using assms by (simp add: vfs_unlink_def split: prod.splits)

lemma returns_let [simp]: "returns (let x = e in f x) Q = returns (f e) Q"
  by (simp add: Let_def)

lemma returns_deref [simp]: "returns (deref (Ptr x)) Q = Q x"
  by simp

lemma returns_c_strlen:
  "length (c_str m) < length m \<Longrightarrow> Q (length (c_str m)) \<Longrightarrow> returns (c_strlen m) Q"
  by (simp add: c_strlen_def)

lemma returns_vfs_setxattr:
  assumes "\<And>u. u = vfs_setxattr_k K d n x (world s) \<Longrightarrow>
      Q (fst u, note_event (XattrSet d n x (fst u)) (s\<lparr>world := snd u\<rparr>))"
  shows "returns (vfs_setxattr K d n x s) Q"
  using assms by (simp add: vfs_setxattr_def case_prod_beta)

text \<open>A read and a write at a position the code keeps in \<open>f_pos\<close>.\<close>

lemma returns_vfs_read:
  assumes "reads_files K c" and "f \<in> set (opened s)" and "addr_limit s = KERNEL_DS"
    and "0 \<le> pos" and "0 \<le> len" and "len < 18446744073709551616" and "nat len \<le> length buf"
    and "\<And>bs w. bs = take (nat len) (drop (nat pos) (c (f_dentry_k K f) (world s))) \<Longrightarrow>
      (\<And>d. c d w = c d (world s)) \<Longrightarrow>
      Q ((int (length bs), overlay buf 0 bs, pos + int (length bs)),
        note_event (ReadAt f pos (nat len) (int (length bs))) (s\<lparr>world := w\<rparr>))"
  shows "returns (vfs_read K f buf len pos s) Q"
proof -
  let ?bs = "take (nat len) (drop (nat pos) (c (f_dentry_k K f) (world s)))"
  obtain w where w: "vfs_read_k K KERNEL_DS f (nat len) pos (world s) =
      ((int (length ?bs), ?bs, pos + int (length ?bs)), w)" "\<And>d. c d w = c d (world s)"
    using assms(1,4) unfolding reads_files_def by metis
  have "length ?bs \<le> length buf" using assms(7) by simp
  then show ?thesis
    using assms w by (simp add: vfs_read_def u64_id del: length_take length_drop)
qed

lemma returns_vfs_write:
  assumes "writes_files K c" and "f \<in> set (opened s)" and "addr_limit s = KERNEL_DS"
    and "0 \<le> pos" and "0 \<le> len" and "len < 18446744073709551616" and "nat len \<le> length buf"
    and "\<And>w. (\<And>d. c d w = (if d = f_dentry_k K f
                then write_at (c d (world s)) (nat pos) (take (nat len) buf) else c d (world s))) \<Longrightarrow>
      Q ((len, pos + len), note_event (WroteAt f pos (take (nat len) buf) len) (s\<lparr>world := w\<rparr>))"
  shows "returns (vfs_write K f buf len pos s) Q"
proof -
  have l: "int (length (take (nat len) buf)) = len" using assms(5,7) by simp
  obtain w where w: "vfs_write_k K KERNEL_DS f (take (nat len) buf) pos (world s) =
      ((len, pos + len), w)"
    "\<And>d. c d w = (if d = f_dentry_k K f
                then write_at (c d (world s)) (nat pos) (take (nat len) buf) else c d (world s))"
    using assms(1,4) l unfolding writes_files_def by metis
  then show ?thesis
    using assms by (simp add: vfs_write_def u64_id)
qed

lemmas returns_rules = returns_file_close returns_kfree returns_buf_bytes returns_vfs_unlink
  returns_c_strlen returns_vfs_setxattr


lemma safely_False: "safely m (\<lambda>x. False) \<longleftrightarrow> m = None"
  by (cases m) simp_all

lemma allocates_not_None: "allocates K \<Longrightarrow> kmalloc_k K n w \<noteq> (None, w')"
  by (metis allocates_def fst_conv)

lemma opens_as_eq: "opens_as K path fl md f \<Longrightarrow> filp_open_k K path fl md w = (p, w') \<Longrightarrow> p = Ptr f"
  by (metis opens_as_def fst_conv)

subsection \<open>Reaching the loop of the other routines\<close>

text \<open>
  The situation in which encryption and compression reach their loop: the kernel allocates, tells
  the time, opens the input as \<open>fr\<close> and finds its path, the uncleared page the name is built in
  happens to hold the string \<open>lo\<close> behind its first four bytes, the name fits, and the trash file
  of that name and suffix opens as \<open>fw\<close>.
\<close>

definition trash_setup ::
  "'w kernel \<Rightarrow> (nat \<Rightarrow> 'w \<Rightarrow> byte list) \<Rightarrow> string \<Rightarrow> nat \<Rightarrow> string \<Rightarrow> string \<Rightarrow> string \<Rightarrow> nat \<Rightarrow> bool" where
  "trash_setup K c name fr path lo suffix fw \<longleftrightarrow>
     keeps_files K c \<and> allocates K \<and> clock_contract K \<and> opens_as K name O_RDONLY 0 fr \<and>
     (\<forall>b w. d_path_k K fr (Some b) PATH_MAX w = Some (Ptr path)) \<and>
     NUL \<notin> set path \<and> NUL \<notin> set suffix \<and>
     (\<forall>w g w'. kmalloc_k K PATH_MAX w = (Some g, w') \<longrightarrow> leftover g = lo) \<and>
     31 + length lo + length path + length suffix < PATH_MAX \<and>
     (\<forall>st. length st = 27 \<longrightarrow>
        opens_as K (''/usr'' @ lo @ st @ flat_path path @ suffix) (O_WRONLY OR O_CREAT) 420 fw) \<and>
     fr \<noteq> fw \<and> f_dentry_k K fr \<noteq> f_dentry_k K fw"

definition named_prefix :: "string \<Rightarrow> byte list \<Rightarrow> bool" where
  "named_prefix lo m \<longleftrightarrow>
     length m = PATH_MAX \<and> (\<exists>st. length st = 27 \<and> c_str m = ''/usr'' @ lo @ st)"

lemma returns_name_prefix:
  assumes S: "trash_setup K c name fr path lo suffix fw"
    and Q: "\<And>m g w. (\<And>d. c d w = c d (world s)) \<Longrightarrow> named_prefix lo m \<Longrightarrow>
      Q ((Some \<lparr>bid = next_id s, mem = resize PATH_MAX g\<rparr>, m),
        s\<lparr>world := w, next_id := Suc (next_id s), live := next_id s # live s\<rparr>)"
  shows "returns (name_prefix K s) Q"
proof -
  have K: "keeps_files K c" and A: "allocates K" and C: "clock_contract K"
    and lo: "\<And>w g w'. kmalloc_k K PATH_MAX w = (Some g, w') \<Longrightarrow> leftover g = lo"
    and len: "31 + length lo < PATH_MAX"
    using S unfolding trash_setup_def by (blast, blast, blast, blast, linarith)
  obtain g w where k: "kmalloc_k K PATH_MAX (after_clock K (world s)) = (Some g, w)"
    using A unfolding allocates_def by (metis option.exhaust prod.collapse)
  have c: "c d w = c d (world s)" for d
    using K k unfolding keeps_files_def by (metis snd_conv)
  from name_prefix_result [OF k] lo [OF k] len length_now_stamp [OF C, of s]
  obtain m where m: "name_prefix K s = Some ((Some \<lparr>bid = next_id s, mem = resize PATH_MAX g\<rparr>, m),
      s\<lparr>world := w, next_id := Suc (next_id s), live := next_id s # live s\<rparr>)"
    "c_str m = ''/usr'' @ lo @ drop 4 (now_stamp K s)" "length m = PATH_MAX" by auto
  moreover have "named_prefix lo m"
    using m length_now_stamp [OF C, of s]
    by (auto simp: named_prefix_def intro!: exI [of _ "drop 4 (now_stamp K s)"])
  ultimately show ?thesis using Q [OF c] by simp
qed

lemma returns_name_finish:
  assumes S: "trash_setup K c name fr path lo (concat suffixes) fw" and m: "named_prefix lo m"
    and Q: "\<And>m'. opens_as K (c_str m') (O_WRONLY OR O_CREAT) 420 fw \<Longrightarrow> Q m'"
  shows "returns (name_finish K fr (Some b) m suffixes s) Q"
proof -
  obtain st where st: "length st = 27" "c_str m = ''/usr'' @ lo @ st" "length m = PATH_MAX"
    using m by (auto simp: named_prefix_def)
  have "d_path_k K fr (map_option bid (Some b)) PATH_MAX (world s) = Some (Ptr path)"
    and "NUL \<notin> set path" and "\<forall>t\<in>set suffixes. NUL \<notin> set t"
    and "length (c_str m) + length path + length (concat suffixes) < length m"
    using S st by (auto simp: trash_setup_def)
  from name_finish_result [OF this] obtain m' where
    "name_finish K fr (Some b) m suffixes s = Some m'"
    "c_str m' = ''/usr'' @ lo @ st @ flat_path path @ concat suffixes"
    using st by auto
  then show ?thesis
    using S st Q [of m'] by (simp add: trash_setup_def)
qed

end
