(* ===== verification/Demo_Kernel.thy ===== *)
theory Demo_Kernel
  imports Kernel_Contract
begin

text \<open>
  A concrete kernel that keeps the contracts, on which the properties with hypotheses about the
  kernel are exercised: a file system in memory (a state is the content of each directory entry)
  in which an open file and its entry share a number, a clock that stands still, a cipher that
  leaves its input alone or reverses it, and a compressor that copies
  what fits the capacity. On a \<open>NULL\<close> buffer its transfers fail with \<open>-EFAULT\<close>, and \<open>d_path\<close> faults.
\<close>

type_synonym mem_fs = "nat \<Rightarrow> byte list"

definition demo_file :: "string \<Rightarrow> nat" where
  "demo_file name = (if name = ''/a'' then 1 else if name = ''temp.txt'' then 3 else 2)"

definition demo_read :: "mm_segment \<Rightarrow> nat \<Rightarrow> nat \<Rightarrow> int \<Rightarrow> mem_fs \<Rightarrow> (int \<times> byte list \<times> int) \<times> mem_fs" where
  "demo_read seg f n pos w =
     (let bs = take n (drop (nat pos) (w f)) in ((int (length bs), bs, pos + int (length bs)), w))"

definition demo_write :: "mm_segment \<Rightarrow> nat \<Rightarrow> byte list \<Rightarrow> int \<Rightarrow> mem_fs \<Rightarrow> (int \<times> int) \<times> mem_fs" where
  "demo_write seg f bs pos w =
     ((int (length bs), pos + int (length bs)), w(f := write_at (w f) (nat pos) bs))"

definition demo_kernel :: "mem_fs kernel" where
  "demo_kernel = \<lparr>
     kmalloc_k = (\<lambda>n w. (Some [], w)),
     ptr_bits_k = (\<lambda>i. 4096),
     f_pos_offset_k = 104,
     filp_open_k = (\<lambda>p fl m w. (Ptr (demo_file p), w)),
     filp_close_k = (\<lambda>f w. w),
     vfs_read_k = demo_read,
     vfs_write_k = demo_write,
     vfs_read_null_k = (\<lambda>seg f n pos w. ((- 14, pos), w)),
     vfs_write_null_k = (\<lambda>seg f n pos w. ((if n = 0 then 0 else - 14, pos), w)),
     f_dentry_k = (\<lambda>f. f),
     d_parent_inode_k = (\<lambda>d w. 0),
     d_name_k = (\<lambda>d w. ''a''),
     i_size_k = (\<lambda>d w. int (length (w d))),
     d_path_k = (\<lambda>f b n w. if b = None then None else Some (Ptr ''/a'')),
     vfs_unlink_k = (\<lambda>dir v w. (0, w(v := []))),
     vfs_setxattr_k = (\<lambda>d n x w. (0, w)),
     gettimeofday_k = (\<lambda>w. (1524000000, w)),
     time_to_tm_k = (\<lambda>t. \<lparr>tm_year = 118, tm_mon = 3, tm_mday = 17\<rparr>),
     alloc_blkcipher_k = (\<lambda>n w. (Ptr \<lparr>t_key = None, t_iv = []\<rparr>, w)),
     ceph_aes_iv_k = replicate 16 CHR ''v'',
     blk_setkey_k = (\<lambda>k. if length k \<in> {16, 24, 32} then 0 else - 22),
     blk_ivsize_k = 16,
     blk_encrypt_k = (\<lambda>t bs w. ((0, if t_key t = None then bs else rev bs), w)),
     alloc_comp_k = (\<lambda>n w. (Ptr 0, w)),
     comp_compress_k = (\<lambda>t bs cap w.
       if int (length bs) \<le> cap then ((0, bs, int (length bs)), w) else ((- 22, [], cap), w)),
     comp_decompress_k = (\<lambda>t bs cap w.
       if int (length bs) \<le> cap then ((0, bs, int (length bs)), w) else ((- 22, [], cap), w)),
     stack_garbage_k = (\<lambda>n. []),
     kern_path_create_k = (\<lambda>p w. ((Ptr 7, 6), w)),
     done_path_create_k = (\<lambda>w. w),
     vfs_mkdir_k = (\<lambda>dir d w. (0, w))\<rparr>"

definition demo_state :: "mem_fs \<Rightarrow> mem_fs kst" where
  "demo_state w = \<lparr>world = w, addr_limit = USER_DS, fpos = (\<lambda>f. 0), enc_key = None, live = [],
     next_id = 0, opened = [], trace = []\<rparr>"

lemma demo_fs_contract: "fs_contract demo_kernel (\<lambda>d w. w d)"
  by (auto simp: fs_contract_def reads_files_def writes_files_def keeps_files_def demo_kernel_def
      demo_read_def demo_write_def Let_def)

lemma demo_allocates: "allocates demo_kernel"
  by (simp add: allocates_def demo_kernel_def)

lemma demo_clock: "clock_contract demo_kernel"
  by (simp add: clock_contract_def demo_kernel_def)

lemma demo_state_sel [simp]:
  "world (demo_state w) = w" "addr_limit (demo_state w) = USER_DS" "enc_key (demo_state w) = None"
  "live (demo_state w) = []" "opened (demo_state w) = []" "trace (demo_state w) = []"
  by (simp_all add: demo_state_def)

end
