(* ===== verification/Move.thy ===== *)
theory Move
  imports Kernel_Contract Demo_Kernel
begin

text \<open>
  \<open>processunlink\<close> of \<open>sys_xclone2.c\<close>: copy the file into the trash folder page by page, then
  unlink it. The copy loop ends by itself only when a transfer is short, so it is a partial
  function. The buffer for the path is never allocated: \<open>d_path\<close> is handed \<open>NULL\<close>. The error paths are the early returns and the labels \<open>out\<close> to \<open>out4\<close>.
\<close>

definition close_and_unlink :: "'w kernel \<Rightarrow> nat \<Rightarrow> 'w kst \<Rightarrow> (int \<times> 'w kst) option" where
  "close_and_unlink K infile s = do {
     let deletevic = f_dentry_k K infile;
     let deletedir = d_parent_inode_k K deletevic (world s);
     (_, s) \<leftarrow> file_close K infile s;
     (_, s) \<leftarrow> lock_dir deletedir s;
     (err, s) \<leftarrow> vfs_unlink K deletedir deletevic s;
     (_, s) \<leftarrow> unlock_dir deletedir s;
     Some (err, s)
   }"

text \<open>The result of the loop is whether it was left at its end (and not through \<open>goto out4\<close>).\<close>

partial_function (option) copy_loop ::
  "'w kernel \<Rightarrow> nat \<Rightarrow> nat \<Rightarrow> byte list \<Rightarrow> int \<Rightarrow> int \<Rightarrow> 'w kst \<Rightarrow> (bool \<times> 'w kst) option" where
  "copy_loop K infile trashbinfile tempbuf1 pagesread total_bytes_written s = do {
     ((readbytes, tempbuf1), s) \<leftarrow>
       file_read K infile (u64 (pagesread * PAGE_SIZE)) tempbuf1 PAGE_SIZE s;
     if readbytes < 0 then Some (False, s)
     else do {
       (writebytes, s) \<leftarrow>
         file_write K trashbinfile (u64 total_bytes_written) tempbuf1 readbytes s;
       let total_bytes_written = i32 (total_bytes_written + writebytes);
       let pagesread = (if readbytes = PAGE_SIZE then i32 (pagesread + 1) else pagesread);
       if readbytes = writebytes \<and> readbytes = PAGE_SIZE
       then copy_loop K infile trashbinfile tempbuf1 pagesread total_bytes_written s
       else Some (True, s)
     }
   }"

definition processunlink :: "'w kernel \<Rightarrow> Param option \<Rightarrow> 'w kst \<Rightarrow> (int \<times> 'w kst) option" where
  "processunlink K args s = do {
     (tempbuf1, s) \<leftarrow> kmalloc K (nat PAGE_SIZE) s;
     (tempbuf2, s) \<leftarrow> kmalloc K (nat PAGE_SIZE) s;
     if tempbuf1 = None \<or> tempbuf2 = None then Some (- ENOMEM, s)
     else do {
       param \<leftarrow> args;
       name \<leftarrow> fname param;
       (infile, s) \<leftarrow> file_open K name O_RDONLY 0 s;
       if bad_ptr infile then do {
         (_, s) \<leftarrow> kfree tempbuf1 s;
         (_, s) \<leftarrow> kfree tempbuf2 s;
         Some (- EPERM, s)
       }
       else do {
         fin \<leftarrow> deref infile;
         let bytes = sized_name_len (d_name_k K (f_dentry_k K fin) (world s));
         (trashbinfolder_filename, s) \<leftarrow> kmalloc K bytes s;
         if trashbinfolder_filename = None then do {
           (_, s) \<leftarrow> file_close K fin s;
           (_, s) \<leftarrow> kfree tempbuf1 s;
           (_, s) \<leftarrow> kfree tempbuf2 s;
           Some (0, s)
         }
         else do {
           (trash_name, s) \<leftarrow> build_name_sized K fin bytes trashbinfolder_filename s;
           (trashbinfile, s) \<leftarrow> file_open K (c_str trash_name) (O_WRONLY OR O_CREAT) 420 s;
           if bad_ptr trashbinfile then do {
             (_, s) \<leftarrow> file_close K fin s;
             (_, s) \<leftarrow> kfree tempbuf1 s;
             (_, s) \<leftarrow> kfree tempbuf2 s;
             (_, s) \<leftarrow> kfree trashbinfolder_filename s;
             Some (- EPERM, s)
           }
           else do {
             tf \<leftarrow> deref trashbinfile;
             buf \<leftarrow> buf_bytes tempbuf1 s;
             (copied, s) \<leftarrow> copy_loop K fin tf buf 0 0 s;
             if \<not> copied then do {
               (_, s) \<leftarrow> file_close K tf s;
               (_, s) \<leftarrow> file_close K fin s;
               (_, s) \<leftarrow> kfree tempbuf1 s;
               (_, s) \<leftarrow> kfree tempbuf2 s;
               (_, s) \<leftarrow> kfree trashbinfolder_filename s;
               Some (0, s)
             }
             else do {
               (err, s) \<leftarrow> close_and_unlink K fin s;
               (_, s) \<leftarrow> file_close K tf s;
               (_, s) \<leftarrow> kfree trashbinfolder_filename s;
               (_, s) \<leftarrow> kfree tempbuf1 s;
               (_, s) \<leftarrow> kfree tempbuf2 s;
               Some (err, s)
             }
           }
         }
       }
     }
   }"

subsection \<open>The copy loop, for every kernel\<close>

fun is_transfer :: "kevent \<Rightarrow> bool" where
  "is_transfer (ReadAt f p n r) = True"
| "is_transfer (WroteAt f p b r) = True"
| "is_transfer _ = False"

definition no_read_error :: "kevent list \<Rightarrow> bool" where
  "no_read_error evs = (\<forall>f p n r. ReadAt f p n r \<in> set evs \<longrightarrow> 0 \<le> i32 r)"

lemma no_read_error_simps [simp]:
  "no_read_error []"
  "no_read_error (xs @ ys) = (no_read_error xs \<and> no_read_error ys)"
  "no_read_error (ReadAt f p n r # xs) = (0 \<le> i32 r \<and> no_read_error xs)"
  "\<not> (\<exists>f p n r. e = ReadAt f p n r) \<Longrightarrow> no_read_error (e # xs) = no_read_error xs"
  by (auto simp: no_read_error_def)

lemma copy_loop_trace:
  "safely (copy_loop K f tf buf k tot s) (\<lambda>(copied, t).
     same_owned s t \<and> addr_limit t = addr_limit s \<and>
     (\<exists>evs. trace t = trace s @ evs \<and> (\<forall>e\<in>set evs. is_transfer e) \<and>
        (copied \<longrightarrow> no_read_error evs)))"
proof (rule safelyI, clarify)
  fix copied t
  assume ret: "copy_loop K f tf buf k tot s = Some (copied, t)"
  let ?P = "\<lambda>(s :: 'a kst) (copied, t). same_owned s t \<and> addr_limit t = addr_limit s \<and>
     (\<exists>evs. trace t = trace s @ evs \<and> (\<forall>e\<in>set evs. is_transfer e) \<and>
        (copied \<longrightarrow> no_read_error evs))"
  have "?P s (copied, t)"
  proof (rule copy_loop.raw_induct [where P = "\<lambda>K f tf buf k tot s r. ?P s r", OF _ ret])
    fix loop :: "'a kernel \<Rightarrow> nat \<Rightarrow> nat \<Rightarrow> byte list \<Rightarrow> int \<Rightarrow> int \<Rightarrow> 'a kst \<Rightarrow> (bool \<times> 'a kst) option"
      and K f tf buf k tot s r
    assume IH: "\<And>K f tf buf k tot s r. loop K f tf buf k tot s = Some r \<Longrightarrow> ?P s r"
    assume body: "Option.bind (file_read K f (u64 (k * PAGE_SIZE)) buf PAGE_SIZE s)
      (\<lambda>((readbytes, tempbuf1), s). if readbytes < 0 then Some (False, s)
         else Option.bind (file_write K tf (u64 tot) tempbuf1 readbytes s)
           (\<lambda>(writebytes, s). let total_bytes_written = i32 (tot + writebytes);
              pagesread = (if readbytes = PAGE_SIZE then i32 (k + 1) else k) in
              if readbytes = writebytes \<and> readbytes = PAGE_SIZE
              then loop K f tf tempbuf1 pagesread total_bytes_written s
              else Some (True, s))) = Some r"
    then obtain rb buf' s1 where rd: "file_read K f (u64 (k * PAGE_SIZE)) buf PAGE_SIZE s = Some ((rb, buf'), s1)"
      by (auto simp: Option.bind_eq_Some_conv)
    then obtain e1 where e1: "trace s1 = trace s @ [e1]" "is_transfer e1"
      "0 \<le> rb \<Longrightarrow> no_read_error [e1]" "same_owned s s1" "addr_limit s1 = addr_limit s"
      by (auto simp: file_read_Some_iff same_owned_def same_memory_def)
    show "?P s r"
    proof (cases "rb < 0")
      case True
      with body rd e1 show ?thesis by auto
    next
      case False
      with body rd obtain wb s2 where wr: "file_write K tf (u64 tot) buf' rb s1 = Some (wb, s2)"
        by (auto simp: Option.bind_eq_Some_conv Let_def)
      then obtain e2 where e2: "trace s2 = trace s1 @ [e2]" "is_transfer e2" "no_read_error [e2]"
        "same_owned s1 s2" "addr_limit s2 = addr_limit s1"
        by (auto simp: file_write_Some_iff same_owned_def same_memory_def)
      have "?P s2 r"
      proof (cases "rb = wb \<and> rb = PAGE_SIZE")
        case True
        with body rd wr False IH show ?thesis by (simp add: Let_def split: if_splits)
      next
        case False
        with body rd wr \<open>\<not> rb < 0\<close> show ?thesis by (auto simp: Let_def split: if_splits)
      qed
      then obtain copied t evs where r: "r = (copied, t)" "same_owned s2 t" "addr_limit t = addr_limit s2"
        "trace t = trace s2 @ evs" "\<forall>e\<in>set evs. is_transfer e" "copied \<longrightarrow> no_read_error evs"
        by auto
      moreover have "no_read_error ([e1] @ [e2] @ evs)" if "no_read_error evs"
        using that e1 e2 False by (simp only: no_read_error_simps)
      ultimately show ?thesis
        using e1 e2 by (auto intro: same_owned_trans intro!: exI [of _ "[e1, e2] @ evs"])
    qed
  qed
  then show "same_owned s t \<and> addr_limit t = addr_limit s \<and>
     (\<exists>evs. trace t = trace s @ evs \<and> (\<forall>e\<in>set evs. is_transfer e) \<and>
        (copied \<longrightarrow> no_read_error evs))" by simp
qed

subsection \<open>The whole routine, for every kernel\<close>

lemma safely_copy_loop [frame_rules]:
  "(\<And>copied t evs. same_owned s t \<Longrightarrow> addr_limit t = addr_limit s \<Longrightarrow> trace t = trace s @ evs \<Longrightarrow>
      \<forall>e\<in>set evs. is_transfer e \<Longrightarrow> copied \<longrightarrow> no_read_error evs \<Longrightarrow> Q (copied, t)) \<Longrightarrow>
   safely (copy_loop K f tf buf k tot s) Q"
  by (rule safely_mono [OF copy_loop_trace]) auto

lemma safely_close_and_unlink [exec_simps]:
  "safely (close_and_unlink K f s) Q \<longleftrightarrow>
     (\<forall>r w. f \<in> set (opened s) \<and>
        vfs_unlink_k K (d_parent_inode_k K (f_dentry_k K f) (world s)) (f_dentry_k K f)
          (filp_close_k K f (world s)) = (r, w) \<longrightarrow>
        Q (r, s\<lparr>opened := remove1 f (opened s), world := w,
          trace := trace s @ [Closed f, DirLocked (d_parent_inode_k K (f_dentry_k K f) (world s)),
            Unlinked (d_parent_inode_k K (f_dentry_k K f) (world s)) (f_dentry_k K f) r,
            DirUnlocked (d_parent_inode_k K (f_dentry_k K f) (world s))]\<rparr>))"
  by (auto simp: close_and_unlink_def exec_simps note_event_def Let_def)

lemma processunlink_owned:
  "safely (processunlink K args s) (\<lambda>(r, t).
     opened t = opened s \<and> enc_key t = enc_key s \<and>
     (live t = live s \<or> r = - ENOMEM \<and> (\<exists>i. live t = i # live s)))"
  unfolding processunlink_def
  by (auto simp: exec_simps safely_iff [of args] safely_iff [of "fname _"] same_owned_def
      same_memory_def intro!: frame_rules)

subsection \<open>The copy loop on a kernel that reads and writes files\<close>

lemma write_at_extend:
  assumes "p \<le> length src"
  shows "write_at (take p src @ drop p old) p (take n (drop p src)) =
    take (p + length (take n (drop p src))) src @ drop (p + length (take n (drop p src))) old"
proof -
  let ?bs = "take n (drop p src)"
  have "take (p + length ?bs) src = take p src @ ?bs"
    using assms by (simp add: take_add min_def)
  moreover have "length (take p src) = p" using assms by simp
  ultimately show ?thesis
    using assms by (cases "?bs = []") (auto simp: write_at_def add.commute)
qed

lemma copy_loop_copies:
  assumes K: "fs_contract K c" and dif: "f_dentry_k K f \<noteq> f_dentry_k K tf"
    and fits: "length (c (f_dentry_k K f) (world s)) < 2147479552"
  shows "\<lbrakk>f \<in> set (opened s); tf \<in> set (opened s); length buf = 4096; 0 \<le> k;
      4096 * k \<le> int (length (c (f_dentry_k K f) (world s)));
      length (c (f_dentry_k K f) (world s)) = n;
      c (f_dentry_k K tf) (world s) =
        take (nat (4096 * k)) (c (f_dentry_k K f) (world s)) @ drop (nat (4096 * k)) old\<rbrakk> \<Longrightarrow>
    returns (copy_loop K f tf buf k (4096 * k) s) (\<lambda>(copied, t). copied \<and>
      c (f_dentry_k K tf) (world t) =
        c (f_dentry_k K f) (world s) @ drop (length (c (f_dentry_k K f) (world s))) old \<and>
      (\<forall>d. d \<noteq> f_dentry_k K tf \<longrightarrow> c d (world t) = c d (world s)))"
  using fits
proof (induction "n - nat (4096 * k)" arbitrary: k buf s rule: less_induct)
  case less
  define src where "src = c (f_dentry_k K f) (world s)"
  define p where "p = nat (4096 * k)"
  define bs where "bs = take 4096 (drop p src)"
  note defs = src_def [symmetric] p_def [symmetric] bs_def [symmetric]
  have k: "0 \<le> 4096 * k" "4096 * k < 2147479552" and p_le: "p \<le> length src"
    and kp: "4096 * k = int p"
    using less.prems by (auto simp: src_def p_def)
  have bs_le: "length bs \<le> 4096" by (simp add: bs_def)
  have off: "u64 (k * PAGE_SIZE) = 4096 * k" "u64 (4096 * k) = 4096 * k"
    using k by (simp_all add: u64_id PAGE_SIZE_def mult.commute)
  have bl: "i32 (int (length bs)) = int (length bs)" using bs_le by (intro i32_id) simp_all
  obtain w1 where r1: "file_read K f (u64 (k * PAGE_SIZE)) buf PAGE_SIZE s =
      Some ((int (length bs), overlay buf 0 bs),
        note_event (ReadAt f (4096 * k) 4096 (int (length bs))) (s\<lparr>world := w1\<rparr>))"
    and c1: "\<And>d. c d w1 = c d (world s)"
  proof -
    have "PAGE_SIZE = int 4096" "4096 \<le> length buf" using less.prems by (simp_all add: PAGE_SIZE_def)
    moreover have "4096 * k < 9223372036854775808" "(4096::nat) < 4294967296" using k by simp_all
    ultimately obtain w where "file_read K f (4096 * k) buf PAGE_SIZE s =
      Some ((i32 (int (length bs)), overlay buf 0 bs),
        note_event (ReadAt f (4096 * k) 4096 (int (length bs))) (s\<lparr>world := w\<rparr>))"
      "\<And>d. c d w = c d (world s)"
      using file_read_exec [OF fs_contractD(1) [OF K] less.prems(1) k(1), where buf = buf and n = 4096 and m = PAGE_SIZE, unfolded defs] by blast
    with that off bl show ?thesis by simp
  qed
  let ?s1 = "note_event (ReadAt f (4096 * k) 4096 (int (length bs))) (s\<lparr>world := w1\<rparr>)"
  have tk: "take (length bs) (overlay buf 0 bs) = bs" by (rule take_overlay_0)
  obtain w2 where r2: "file_write K tf (u64 (4096 * k)) (overlay buf 0 bs) (int (length bs)) ?s1 =
      Some (int (length bs), note_event (WroteAt tf (4096 * k) bs (int (length bs))) (?s1\<lparr>world := w2\<rparr>))"
    and c2: "\<And>d. c d w2 = (if d = f_dentry_k K tf then write_at (c d w1) p bs else c d w1)"
  proof -
    have a: "length bs \<le> length (overlay buf 0 bs)" "length bs < 2147483648"
      "4096 * k < 9223372036854775808" "tf \<in> set (opened ?s1)"
      using less.prems bs_le k by (simp_all add: overlay_def)
    from file_write_exec [OF fs_contractD(2) [OF K] a(4) k(1) a(3) a(1) a(2) refl, unfolded defs tk]
    obtain w where "file_write K tf (4096 * k) (overlay buf 0 bs) (int (length bs)) ?s1 =
      Some (int (length bs), note_event (WroteAt tf (4096 * k) bs (int (length bs))) (?s1\<lparr>world := w\<rparr>))"
      "\<And>d. c d w = (if d = f_dentry_k K tf then write_at (c d (world ?s1)) p bs else c d (world ?s1))"
      by blast
    with that off show ?thesis by simp
  qed
  let ?s2 = "note_event (WroteAt tf (4096 * k) bs (int (length bs))) (?s1\<lparr>world := w2\<rparr>)"
  have src2: "c (f_dentry_k K f) w2 = src" using c1 c2 dif by (simp add: src_def)
  have oth2: "\<And>d. d \<noteq> f_dentry_k K tf \<Longrightarrow> c d w2 = c d (world s)" using c1 c2 by simp
  have dst2: "c (f_dentry_k K tf) w2 = take (p + length bs) src @ drop (p + length bs) old"
    using c1 c2 less.prems(7) write_at_extend [OF p_le, of old 4096] by (simp add: defs)
  show ?case
  proof (cases "length bs = 4096")
    case True
    have kk: "i32 (k + 1) = k + 1" and tt: "i32 (4096 * k + 4096) = 4096 * (k + 1)"
      using k by (simp_all add: i32_id)
    have "length bs = min (length src - p) 4096" by (simp add: bs_def)
    with True have le: "p + 4096 \<le> length src" by simp
    have kp': "4096 * (k + 1) = int (p + 4096)" using kp by simp
    have "returns (copy_loop K f tf (overlay buf 0 bs) (k + 1) (4096 * (k + 1)) ?s2)
       (\<lambda>(copied, t). copied \<and>
      c (f_dentry_k K tf) (world t) =
        c (f_dentry_k K f) (world ?s2) @ drop (length (c (f_dentry_k K f) (world ?s2))) old \<and>
      (\<forall>d. d \<noteq> f_dentry_k K tf \<longrightarrow> c d (world t) = c d (world ?s2)))"
    proof (rule less.hyps)
      show "n - nat (4096 * (k + 1)) < n - nat (4096 * k)"
        unfolding kp' kp nat_int using le less.prems(6) by (simp add: src_def)
      show "length (overlay buf 0 bs) = 4096"
        using less.prems(3) bs_le by (simp add: length_overlay)
      show "c (f_dentry_k K tf) (world ?s2) =
        take (nat (4096 * (k + 1))) (c (f_dentry_k K f) (world ?s2)) @ drop (nat (4096 * (k + 1))) old"
        unfolding kp' nat_int using dst2 src2 True by simp
      show "4096 * (k + 1) \<le> int (length (c (f_dentry_k K f) (world ?s2)))"
        unfolding kp' using le src2 by simp
    qed (use less.prems(1,2,4,6,8) src2 src_def in simp_all)
    then show ?thesis
      using src2 oth2 by (subst copy_loop.simps)
        (simp add: r1 [unfolded PAGE_SIZE_def] r2 [unfolded True of_nat_numeral]
          True Let_def PAGE_SIZE_def kk tt defs)
  next
    case False
    then have e: "p + length bs = length src" using p_le by (simp add: bs_def min_def split: if_splits)
    show ?thesis
      using False oth2 dst2 e by (subst copy_loop.simps)
        (simp add: r1 [unfolded PAGE_SIZE_def] r2 Let_def PAGE_SIZE_def defs)
  qed
qed


subsection \<open>What processunlink achieves\<close>

lemma returns_close_and_unlink:
  assumes "f \<in> set (opened s)"
    and "\<And>dir u. u = vfs_unlink_k K dir (f_dentry_k K f) (filp_close_k K f (world s)) \<Longrightarrow>
      Q (fst u, s\<lparr>opened := remove1 f (opened s), world := snd u, trace := trace s @
          [Closed f, DirLocked dir, Unlinked dir (f_dentry_k K f) (fst u), DirUnlocked dir]\<rparr>)"
  shows "returns (close_and_unlink K f s) Q"
proof -
  let ?dir = "d_parent_inode_k K (f_dentry_k K f) (world s)"
  obtain r w where u: "vfs_unlink_k K ?dir (f_dentry_k K f) (filp_close_k K f (world s)) = (r, w)"
    by (cases "vfs_unlink_k K ?dir (f_dentry_k K f) (filp_close_k K f (world s))")
  then have "close_and_unlink K f s = Some (r, s\<lparr>opened := remove1 f (opened s), world := w,
      trace := trace s @ [Closed f, DirLocked ?dir, Unlinked ?dir (f_dentry_k K f) r, DirUnlocked ?dir]\<rparr>)"
    using assms(1) by (simp add: close_and_unlink_def Let_def file_close_exec lock_dir_def
      vfs_unlink_def unlock_dir_def note_event_def)
  with assms(2) [of "(r, w)" ?dir] u show ?thesis by simp
qed

text \<open>
  C4. When the kernel keeps its contract, the copy loop of \<open>processunlink\<close>, started on an open input
  of less than 2 GiB (less one page) and an open trash file with a page as its buffer, comes to its
  end and not to \<open>out4\<close>: the trash file then holds the whole content of the input (followed by
  whatever a longer file of the same name held before, since it is opened without \<open>O_TRUNC\<close>), no
  other file has changed, and memory and open files are as before.
\<close>

theorem copy_loop_moves_content:
  assumes "fs_contract K c" and "f_dentry_k K fin \<noteq> f_dentry_k K tf"
    and "fin \<in> set (opened s)" and "tf \<in> set (opened s)" and "length buf = nat PAGE_SIZE"
    and "length (c (f_dentry_k K fin) (world s)) < 2147479552"
  shows "returns (copy_loop K fin tf buf 0 0 s) (\<lambda>(copied, t). copied \<and> same_owned s t \<and>
    c (f_dentry_k K tf) (world t) = c (f_dentry_k K fin) (world s) @
      drop (length (c (f_dentry_k K fin) (world s))) (c (f_dentry_k K tf) (world s)) \<and>
    (\<forall>d. d \<noteq> f_dentry_k K tf \<longrightarrow> c d (world t) = c d (world s)))"
proof -
  have "returns (copy_loop K fin tf buf 0 (4096 * 0) s) (\<lambda>(copied, t). copied \<and>
      c (f_dentry_k K tf) (world t) =
        c (f_dentry_k K fin) (world s) @ drop (length (c (f_dentry_k K fin) (world s)))
          (c (f_dentry_k K tf) (world s)) \<and>
      (\<forall>d. d \<noteq> f_dentry_k K tf \<longrightarrow> c d (world t) = c d (world s)))"
    by (rule copy_loop_copies [OF assms(1,2,6,3,4) _ _ _ refl])
      (use assms(5) in \<open>simp_all add: PAGE_SIZE_def\<close>)
  moreover have "safely (copy_loop K fin tf buf 0 0 s) (\<lambda>(copied, t). same_owned s t)"
    by (rule safely_mono [OF copy_loop_trace]) auto
  ultimately show ?thesis
    by (auto elim!: returns_mono [OF returns_conj])
qed

lemma demo_opened_two:
  "fs_contract demo_kernel (\<lambda>d w. w d)" "f_dentry_k demo_kernel 1 \<noteq> f_dentry_k demo_kernel 2"
  by (rule demo_fs_contract, simp add: demo_kernel_def)

theorem copy_loop_moves_content_witness:
  "returns (copy_loop demo_kernel 1 2 (replicate 4096 NUL) 0 0
      ((demo_state ((\<lambda>d. [])(1 := ''secret'', 2 := ''an older file'')))\<lparr>opened := [2, 1]\<rparr>))
     (\<lambda>(copied, t). copied \<and> world t 2 = ''secreter file'')"
  by (rule returns_mono, rule copy_loop_moves_content [OF demo_opened_two])
    (auto simp: demo_kernel_def PAGE_SIZE_def)

text \<open>
  The documentation of \<open>vfs_read\<close>: an error code or a number of bytes, at most the number asked
  for, and no more bytes than that in the buffer.
\<close>

definition sane_reads :: "'w kernel \<Rightarrow> nat \<Rightarrow> bool" where
  "sane_reads K f \<longleftrightarrow>
     (\<forall>n pos w r bs p w'. vfs_read_k K KERNEL_DS f n pos w = ((r, bs, p), w') \<longrightarrow>
        - 4096 < r \<and> r \<le> int n \<and> length bs \<le> n)"

text \<open>
  The input gives no full page at or behind the page \<open>n\<close>, in any kernel state of a set \<open>I\<close> that
  the reads and writes of the loop do not leave.
\<close>

definition ends_by :: "'w kernel \<Rightarrow> ('w \<Rightarrow> bool) \<Rightarrow> nat \<Rightarrow> nat \<Rightarrow> int \<Rightarrow> bool" where
  "ends_by K I f tf n \<longleftrightarrow>
     (\<forall>pos w r bs p w'. I w \<longrightarrow> vfs_read_k K KERNEL_DS f 4096 pos w = ((r, bs, p), w') \<longrightarrow>
        I w' \<and> (4096 * n \<le> pos \<longrightarrow> r \<noteq> 4096)) \<and>
     (\<forall>bytes pos w x w'. I w \<longrightarrow> vfs_write_k K KERNEL_DS tf bytes pos w = (x, w') \<longrightarrow> I w')"

lemma sane_readsD:
  "sane_reads K f \<Longrightarrow> vfs_read_k K KERNEL_DS f n pos w = ((r, bs, p), w') \<Longrightarrow>
     - 4096 < r \<and> r \<le> int n \<and> length bs \<le> n"
  unfolding sane_reads_def by blast

lemma ends_byD:
  "ends_by K I f tf n \<Longrightarrow> I w \<Longrightarrow> vfs_read_k K KERNEL_DS f 4096 pos w = ((r, bs, p), w') \<Longrightarrow>
     I w' \<and> (4096 * n \<le> pos \<longrightarrow> r \<noteq> 4096)"
  "ends_by K I f tf n \<Longrightarrow> I w \<Longrightarrow> vfs_write_k K KERNEL_DS tf bytes pos w = (x, w') \<Longrightarrow> I w'"
  unfolding ends_by_def by blast+

lemma copy_loop_bounded:
  assumes R: "sane_reads K f" and E: "ends_by K I f tf n" and n: "n < 2147483648"
  shows "\<lbrakk>f \<in> set (opened s); tf \<in> set (opened s); length buf = 4096; 0 \<le> k; k \<le> n; I (world s)\<rbrakk> \<Longrightarrow>
    returns (copy_loop K f tf buf k tot s)
      (\<lambda>(copied, t). \<exists>evs. trace t = trace s @ evs \<and> int (length evs) \<le> 2 * (n - k + 1))"
proof (induction "nat (n - k)" arbitrary: k tot buf s rule: less_induct)
  case less
  have off: "u64 (k * PAGE_SIZE) = 4096 * k" "i64 (4096 * k) = 4096 * k"
    using less.prems(4,5) n by (simp_all add: u64_id i64_id PAGE_SIZE_def)
  have page: "nat (u64 (u32 PAGE_SIZE)) = 4096" by (simp add: PAGE_SIZE_def u32_id u64_id)
  obtain r bs p w where rk: "vfs_read_k K KERNEL_DS f 4096 (4096 * k) (world s) = ((r, bs, p), w)"
    by (metis prod.collapse)
  have r: "- 4096 < r" "r \<le> 4096" "length bs \<le> 4096"
    using sane_readsD [OF R rk] by simp_all
  have Iw: "I w" and last: "k = n \<Longrightarrow> r \<noteq> 4096"
    using ends_byD(1) [OF E less.prems(6) rk] by simp_all
  have ri: "i32 r = r" using r by (simp add: i32_id)
  define s1 where "s1 = note_event (ReadAt f (4096 * k) 4096 r) (s\<lparr>world := w\<rparr>)"
  have rd: "file_read K f (u64 (k * PAGE_SIZE)) buf PAGE_SIZE s = Some ((r, overlay buf 0 bs), s1)"
    using rk r less.prems by (simp add: file_read_Some_iff off page ri s1_def)
  show ?case
  proof (cases "r < 0")
    case True
    then show ?thesis
      using less.prems(5) by (subst copy_loop.simps) (simp add: rd, simp add: s1_def)
  next
    case False
    have len: "nat (u64 (u32 r)) = nat r" "nat r \<le> 4096" using False r by (simp_all add: u32_id u64_id)
    have bl: "length (overlay buf 0 bs) = 4096" using less.prems(3) r(3) by (simp add: length_overlay)
    obtain wb p2 w2 where wk: "vfs_write_k K KERNEL_DS tf (take (nat r) (overlay buf 0 bs))
        (i64 (u64 tot)) w = ((wb, p2), w2)"
      by (metis prod.collapse)
    have Iw2: "I w2" by (rule ends_byD(2) [OF E Iw wk])
    define s2 where "s2 = note_event (WroteAt tf (i64 (u64 tot)) (take (nat r) (overlay buf 0 bs)) wb)
        (s1\<lparr>world := w2\<rparr>)"
    have wr: "file_write K tf (u64 tot) (overlay buf 0 bs) r s1 = Some (i32 wb, s2)"
      using wk less.prems(2) len bl by (simp add: file_write_Some_iff s2_def) (simp add: s1_def)
    have tr: "trace s2 = trace s @ [ReadAt f (4096 * k) 4096 r,
        WroteAt tf (i64 (u64 tot)) (take (nat r) (overlay buf 0 bs)) wb]"
      by (simp add: s2_def s1_def)
    show ?thesis
    proof (cases "r = i32 wb \<and> r = PAGE_SIZE")
      case True
      then have "k \<noteq> n" using last by (auto simp: PAGE_SIZE_def)
      then have k: "k < n" using less.prems(5) by simp
      have kk: "i32 (k + 1) = k + 1" using less.prems(4) k n by (simp add: i32_id)
      have "returns (copy_loop K f tf (overlay buf 0 bs) (k + 1) (i32 (tot + i32 wb)) s2)
        (\<lambda>(copied, t). \<exists>evs. trace t = trace s2 @ evs \<and> int (length evs) \<le> 2 * (n - (k + 1) + 1))"
        using less.prems(1,2,4) k bl Iw2 by (intro less.hyps) (simp_all add: s2_def s1_def)
      moreover have "copy_loop K f tf buf k tot s =
          copy_loop K f tf (overlay buf 0 bs) (k + 1) (i32 (tot + i32 wb)) s2"
      proof -
        have r4: "r = 4096" "i32 wb = 4096" "(4096 = PAGE_SIZE) = HOL.True"
          using True by (simp_all add: PAGE_SIZE_def)
        show ?thesis
          by (subst copy_loop.simps) (simp add: rd [unfolded r4(1)] wr [unfolded r4(1)] r4 kk Let_def)
      qed
      ultimately show ?thesis
        unfolding tr by (auto elim!: returns_mono)
    next
      case stop: False
      have "copy_loop K f tf buf k tot s = Some (True, s2)"
        using stop False by (subst copy_loop.simps) (auto simp: rd wr Let_def)
      then show ?thesis using less.prems(5) tr by simp
    qed
  qed
qed

text \<open>
  C27. The copy loop of \<open>processunlink\<close> ends, whatever the writes answer: when reads are as
  documented and the input gives no full page at or behind its page \<open>n\<close> (\<open>n\<close> below \<open>2 ^ 31\<close>, up
  to which the counter \<open>pagesread\<close> does not wrap around) as long as only the loop itself reads and
  writes, the loop returns after at most \<open>n + 1\<close> reads and as many writes.
\<close>

theorem copy_loop_terminates:
  assumes "sane_reads K fin" and "ends_by K I fin tf n" and "I (world s)" and "0 \<le> n" and "n < 2147483648"
    and "fin \<in> set (opened s)" and "tf \<in> set (opened s)" and "length buf = nat PAGE_SIZE"
  shows "returns (copy_loop K fin tf buf 0 0 s)
    (\<lambda>(copied, t). \<exists>evs. trace t = trace s @ evs \<and> int (length evs) \<le> 2 * (n + 1))"
  using copy_loop_bounded [OF assms(1,2,5,6,7), of buf 0 0] assms(3,4,8) by (simp add: PAGE_SIZE_def)

definition demo_dribble :: "mem_fs kernel" where
  "demo_dribble = demo_kernel\<lparr>vfs_write_k := (\<lambda>seg f bs pos w. ((- 28, pos), w))\<rparr>"

theorem copy_loop_terminates_witness:
  "returns (copy_loop demo_dribble 1 2 (replicate 4096 NUL) 0 0
      ((demo_state ((\<lambda>d. [])(1 := replicate 5000 NUL)))\<lparr>opened := [2, 1]\<rparr>))
     (\<lambda>(copied, t). length (trace t) \<le> 4)"
proof -
  have "sane_reads demo_dribble 1"
    by (auto simp: sane_reads_def demo_dribble_def demo_kernel_def demo_read_def Let_def)
  moreover have "ends_by demo_dribble (\<lambda>w. length (w 1) = 5000) 1 2 1"
    by (auto simp: ends_by_def demo_dribble_def demo_kernel_def demo_read_def Let_def)
  ultimately show ?thesis
    by (rule_tac returns_mono [OF copy_loop_terminates [where n = 1 and I = "\<lambda>w. length (w 1) = 5000"]]) (auto simp: PAGE_SIZE_def)
qed

text \<open>
  C22. Whatever the kernel does, \<open>processunlink\<close> closes every file it opened and frees every
  buffer it allocated, on every path that returns, but for one: when one of its two page buffers
  cannot be allocated it returns \<open>-ENOMEM\<close> without freeing the other.
\<close>

theorem processunlink_keeps_ownership:
  "safely (processunlink K args s) (\<lambda>(r, t).
     opened t = opened s \<and> enc_key t = enc_key s \<and>
     (live t = live s \<or> r = - ENOMEM \<and> (\<exists>i. live t = i # live s)))"
  by (rule processunlink_owned)

text \<open>
  C23. Whatever the kernel does, the input is never unlinked after a read that failed, and
  \<open>vfs_unlink\<close> is only called on the entry of the file that was closed just before, inside the
  lock of its directory, with its result returned.
\<close>

theorem processunlink_unlinks_last:
  "safely (processunlink K args s) (\<lambda>(r, t). \<exists>evs. trace t = trace s @ evs \<and>
     ((\<forall>d v q. Unlinked d v q \<notin> set evs) \<or>
      no_read_error evs \<and>
      (\<exists>xs f d tf. evs = xs @ [Closed f, DirLocked d, Unlinked d (f_dentry_k K f) r, DirUnlocked d, Closed tf] \<and>
        (\<forall>d v q. Unlinked d v q \<notin> set xs))))"
proof -
  have tr: "Unlinked d v q \<notin> set evs" if "\<forall>e\<in>set evs. is_transfer e" for evs d v q
    using that by auto
  have cons: "no_read_error (e # xs)" if "no_read_error xs" "\<not> is_transfer e" for e xs
    using that by (cases e) (simp_all add: no_read_error_def)
  show ?thesis
    unfolding processunlink_def
    by (auto simp: exec_simps safely_iff [of args] safely_iff [of "fname _"] same_owned_def
      same_memory_def tr cons intro!: frame_rules)
qed

text \<open>
  \<open>file_open\<close> switches the address limit to the kernel's and never switches it back: whatever
  the kernel does, when \<open>processunlink\<close> returns after any call that concerns a file, the thread
  runs on with the kernel's address limit.
\<close>

theorem processunlink_leaves_kernel_ds:
  "safely (processunlink K args s) (\<lambda>(r, t). addr_limit t = KERNEL_DS \<or> trace t = trace s)"
  unfolding processunlink_def
  by (auto simp: exec_simps safely_iff [of args] safely_iff [of "fname _"] same_owned_def
      same_memory_def intro!: frame_rules)

text \<open>
  A full disk: a write of at least one byte stores nothing and answers with an error (\<open>-ENOSPC\<close>, or
  \<open>-EINVAL\<close> for a negative position).
\<close>

definition disk_full :: "'w kernel \<Rightarrow> (nat \<Rightarrow> 'w \<Rightarrow> byte list) \<Rightarrow> bool" where
  "disk_full K c \<longleftrightarrow>
     (\<forall>f bytes pos w. bytes \<noteq> [] \<longrightarrow>
        (\<exists>e p w'. vfs_write_k K KERNEL_DS f bytes pos w = ((e, p), w') \<and> - 4096 < e \<and> e < 0 \<and>
           (\<forall>d. c d w' = c d w)))"

lemma disk_fullD:
  assumes "disk_full K c" and "bytes \<noteq> []"
  obtains e p w' where "vfs_write_k K KERNEL_DS f bytes pos w = ((e, p), w')" "- 4096 < e" "e < 0"
    "\<And>d. c d w' = c d w"
  using assms unfolding disk_full_def by metis

text \<open>The copy loop takes the failing write for its end: it reports a complete copy of nothing.\<close>

theorem copy_loop_disk_full:
  assumes R: "reads_files K c" and D: "disk_full K c"
    and o: "fin \<in> set (opened s)" "tf \<in> set (opened s)" "length buf = 4096"
    and ne: "c (f_dentry_k K fin) (world s) \<noteq> []"
  shows "returns (copy_loop K fin tf buf 0 0 s)
    (\<lambda>(copied, t). copied \<and> (\<forall>d. c d (world t) = c d (world s)))"
proof -
  define bs where "bs = take 4096 (c (f_dentry_k K fin) (world s))"
  have bs: "bs \<noteq> []" "length bs \<le> 4096" using ne by (simp_all add: bs_def)
  have len: "i32 (int (length bs)) = int (length bs)" "nat (u64 (u32 (int (length bs)))) = length bs"
    using bs by (simp_all add: i32_id u32_id u64_id)
  have z: "u64 0 = 0" "i64 0 = 0" by (simp_all add: u64_def i64_def)
  have "PAGE_SIZE = int 4096" "4096 \<le> length buf" "(4096::nat) < 4294967296" "(0::int) < 9223372036854775808"
    using o by (simp_all add: PAGE_SIZE_def)
  then obtain w where r: "file_read K fin 0 buf PAGE_SIZE s =
      Some ((int (length bs), overlay buf 0 bs),
        note_event (ReadAt fin 0 4096 (int (length bs))) (s\<lparr>world := w\<rparr>))"
    and c1: "\<And>d. c d w = c d (world s)"
    using file_read_exec [OF R o(1), where off = 0 and buf = buf and n = 4096 and m = PAGE_SIZE]
    by (auto simp: bs_def [symmetric] len)
  have l: "length bs \<le> length (overlay buf 0 bs)" using bs o by (simp add: overlay_def)
  obtain e q w' where wk: "vfs_write_k K KERNEL_DS tf bs 0 w = ((e, q), w')" and e: "- 4096 < e" "e < 0"
    and c2: "\<And>d. c d w' = c d w"
    using disk_fullD [OF D bs(1), where f = tf and pos = 0 and w = w] by metis
  have ei: "i32 e = e" using e by (simp add: i32_id)
  have wr: "file_write K tf 0 (overlay buf 0 bs) (int (length bs))
      (note_event (ReadAt fin 0 4096 (int (length bs))) (s\<lparr>world := w\<rparr>)) =
    Some (e, note_event (WroteAt tf 0 bs e)
      (note_event (ReadAt fin 0 4096 (int (length bs))) (s\<lparr>world := w'\<rparr>)))"
    using o l wk by (simp add: file_write_Some_iff len z ei note_event_def)
  show ?thesis
    using c1 c2 e
    by (subst copy_loop.simps) (simp add: r wr z Let_def)
qed

theorem copy_loop_disk_full_witness:
  "returns (copy_loop demo_dribble 1 2 (replicate 4096 NUL) 0 0
      ((demo_state ((\<lambda>d. [])(1 := ''secret'')))\<lparr>opened := [2, 1]\<rparr>))
     (\<lambda>(copied, t). copied \<and> world t 2 = [])"
proof -
  have "disk_full demo_dribble (\<lambda>d w. w d)" "reads_files demo_dribble (\<lambda>d w. w d)"
    using demo_fs_contract
    by (simp_all add: disk_full_def demo_dribble_def fs_contract_def reads_files_def)
  then show ?thesis
    by (rule_tac returns_mono [OF copy_loop_disk_full [where c = "\<lambda>d w. w d"]])
      (auto simp: demo_dribble_def demo_kernel_def)
qed

text \<open>
  C37. \<open>d_path\<close> is handed \<open>NULL\<close> as the buffer to write the path into: \<open>filename\<close> is never
  allocated here. With \<open>d_path\<close> as documented (it writes into the buffer, and so faults on \<open>NULL\<close>)
  a plain move never happens: \<open>processunlink\<close> returns only because an allocation failed or the
  input did not open, having opened at most the input and unlinked nothing; in every other case it
  crashes.
\<close>

theorem processunlink_null_path:
  assumes "\<And>f n w. d_path_k K f None n w = None"
  shows "safely (processunlink K args s) (\<lambda>(r, t).
    ((\<exists>n w. fst (kmalloc_k K n w) = None) \<and> r \<in> {- ENOMEM, 0} \<or>
     (\<exists>p w. bad_ptr (fst (filp_open_k K p O_RDONLY 0 w))) \<and> r = - EPERM) \<and>
    (\<exists>evs. trace t = trace s @ evs \<and>
       (\<forall>e\<in>set evs. (\<exists>p q. e = Opened p O_RDONLY q) \<or> (\<exists>f. e = Closed f))))"
proof -
  have name: "build_name_sized K f n nb u = None" for f n nb u
    by (rule clock_stamp [of K u])
      (simp add: build_name_sized_def d_path_def assms Option.bind_eq_None_conv)
  have oom: "\<exists>n w. fst (kmalloc_k K n w) = None" if "kmalloc_k K n w = (None, w')" for n w w'
    using that by (metis fst_conv)
  have bad: "\<exists>p w. bad_ptr (fst (filp_open_k K p O_RDONLY 0 w))"
    if "filp_open_k K p O_RDONLY 0 w = (q, w')" "bad_ptr q" for p w q w'
    using that by (metis fst_conv)
  show ?thesis
    unfolding processunlink_def
    by (auto simp: exec_simps safely_iff [of args] safely_iff [of "fname _"] name dest: oom bad)
qed

theorem processunlink_null_path_witness:
  "safely (processunlink demo_kernel (Some \<lparr>fname = Some ''/a'', b1 = 0\<rparr>) (demo_state (\<lambda>d. [])))
     (\<lambda>x. False)"
  by (rule safely_mono, rule processunlink_null_path) (auto simp: demo_kernel_def)

end
