(* ===== verification/Chunked_Loop.thy ===== *)
theory Chunked_Loop
  imports Kernel
begin

text \<open>
  The shape shared by the encryption, compression and decompression loops: as long as
  \<open>fsize\<close> is positive, take a piece of at most \<open>PAGE_SIZE - 16\<close> bytes, run one round on it,
  leave the loop if the round says so, and go on with the rest. The locale states it for any
  round; the loops of the model are its interpretations.
\<close>

definition piece_size :: nat where "piece_size = 4080"

lemma chunk_size:
  "(if PAGE_SIZE - 16 < n then PAGE_SIZE - 16 else n) = min n (PAGE_SIZE - 16)"
  "(if PAGE_SIZE - 16 < n then n - min n (PAGE_SIZE - 16) else 0) = n - min n (PAGE_SIZE - 16)"
  by (simp_all add: min_def)

locale chunked_loop =
  fixes loop :: "int \<Rightarrow> 'a \<Rightarrow> 's \<Rightarrow> ('r \<times> 's) option"
    and round :: "int \<Rightarrow> 'a \<Rightarrow> 's \<Rightarrow> (('r + 'a) \<times> 's) option"
    and finish :: "'a \<Rightarrow> 'r"
  assumes stop: "fsize \<le> 0 \<Longrightarrow> loop fsize a s = Some (finish a, s)"
    and go: "0 < fsize \<Longrightarrow> loop fsize a s =
      Option.bind (round (min fsize (PAGE_SIZE - 16)) a s) (\<lambda>(r, s).
        case r of Inl e \<Rightarrow> Some (e, s)
        | Inr a \<Rightarrow> loop (fsize - min fsize (PAGE_SIZE - 16)) a s)"
begin

text \<open>What every round keeps, the loop keeps, however it is left.\<close>

lemma loop_invariant:
  assumes round: "\<And>n a s. I a s \<Longrightarrow> 0 < n \<Longrightarrow> n \<le> int piece_size \<Longrightarrow>
      safely (round n a s) (\<lambda>(r, t). case r of Inl e \<Rightarrow> E e t | Inr a \<Rightarrow> I a t)"
  shows "I a s \<Longrightarrow> safely (loop fsize a s) (\<lambda>(r, t). E r t \<or> (\<exists>a. r = finish a \<and> I a t))"
proof (induction "nat fsize" arbitrary: fsize a s rule: less_induct)
  case less
  show ?case
  proof (cases "0 < fsize")
    case True
    define n where "n = min fsize (PAGE_SIZE - 16)"
    have n: "0 < n" "n \<le> int piece_size" "nat (fsize - n) < nat fsize"
      using True by (auto simp: n_def PAGE_SIZE_def piece_size_def)
    have "safely (case r of Inl e \<Rightarrow> Some (e, t) | Inr a \<Rightarrow> loop (fsize - n) a t)
        (\<lambda>(r, t). E r t \<or> (\<exists>a. r = finish a \<and> I a t))"
      if "case r of Inl e \<Rightarrow> E e t | Inr a \<Rightarrow> I a t" for r t
      using that less.hyps [OF n(3)] by (cases r) auto
    then show ?thesis
      using round [OF less.prems n(1,2)]
      unfolding go [OF True] n_def [symmetric] by (auto elim!: safely_mono)
  next
    case False
    then show ?thesis using less.prems by (auto simp: stop)
  qed
qed

text \<open>
  When every round on the front piece of the remaining bytes returns and goes on, the loop
  returns at its end with no byte left. This is its total correctness: the loop ends.
\<close>

lemma loop_returns:
  assumes round: "\<And>xs a s. J xs a s \<Longrightarrow> xs \<noteq> [] \<Longrightarrow>
      returns (round (int (length (take piece_size xs))) a s)
        (\<lambda>(r, t). \<exists>a'. r = Inr a' \<and> J (drop piece_size xs) a' t)"
  shows "J xs a s \<Longrightarrow> returns (loop (int (length xs)) a s) (\<lambda>(r, t). \<exists>a. r = finish a \<and> J [] a t)"
proof (induction "length xs" arbitrary: xs a s rule: less_induct)
  case less
  show ?case
  proof (cases "xs = []")
    case True
    then show ?thesis using less.prems by (auto simp: stop)
  next
    case False
    have n: "min (int (length xs)) (PAGE_SIZE - 16) = int (length (take piece_size xs))"
      by (simp add: PAGE_SIZE_def piece_size_def min_def)
    have r: "int (length xs) - int (length (take piece_size xs)) = int (length (drop piece_size xs))"
      by simp
    have "length (drop piece_size xs) < length xs"
      using False by (simp add: piece_size_def)
    then have "returns (loop (int (length (drop piece_size xs))) a' t)
        (\<lambda>(r, t). \<exists>a. r = finish a \<and> J [] a t)" if "J (drop piece_size xs) a' t" for a' t
      using less.hyps that by blast
    then show ?thesis
      using round [OF less.prems False] False go [of "int (length xs)" a s]
      unfolding n r by (auto simp del: length_take length_drop elim!: returns_mono)
  qed
qed

end

end
