(* ===== verification/Encrypt.thy ===== *)
theory Encrypt
  imports Move Chunked_Loop
begin

text \<open>
  \<open>clone_encryption\<close> and \<open>processencryption\<close> of \<open>sys_xclone2.c\<close>: the input is read in pieces of
  \<open>PAGE_SIZE - 16\<close> bytes, each padded to a multiple of the cipher block and encrypted on its own
  with the same initialisation vector, and written behind the one before. The key comes as a C
  string through the global \<open>enc_key\<close>, which the routine frees.
\<close>

subsection \<open>Code\<close>

text \<open>
  The lengths of the scatter lists and of the whole text are \<open>unsigned int\<close>. The cipher walks over
  the first \<open>nbytes\<close> bytes of source and padding and over as many of the destination, and only
  that much has to be there: for a \<open>src_len\<close> between \<open>-16\<close> and \<open>-1\<close>, converted to \<open>size_t\<close>, the
  sum wraps around to 0, and nothing is touched.
\<close>

definition clone_encryption ::
  "'w kernel \<Rightarrow> byte list \<Rightarrow> nat \<Rightarrow> byte list \<Rightarrow> byte list \<Rightarrow> int \<Rightarrow> 'w kst
   \<Rightarrow> ((int \<times> byte list \<times> int) \<times> 'w kst) option" where
  "clone_encryption K key key_len dst src src_len s = do {
     let zero_padding = 16 - src_len mod 16;
     let (tfm, w) = alloc_blkcipher_k K ''cbc(aes)'' (world s);
     let s = s\<lparr>world := w\<rparr>;
     if is_err tfm then Some ((ptr_err tfm, dst, 0), s)
     else do {
       let pad = replicate (nat zero_padding) (char_of (nat zero_padding));
       let dst_len = u64 (src_len + zero_padding);
       t \<leftarrow> deref tfm;
       let t = (if blk_setkey_k K (take key_len key) = 0 then t\<lparr>t_key := Some (take key_len key)\<rparr> else t);
       let t = t\<lparr>t_iv := take (blk_ivsize_k K) (ceph_aes_iv_k K)\<rparr>;
       let sg_in_len = nat (u32 src_len);
       let nbytes = nat (u32 (src_len + zero_padding));
       if length src < min sg_in_len nbytes \<or> length dst < nbytes then None
       else do {
         let ((ret, out), w) = blk_encrypt_k K t (take nbytes (take sg_in_len src @ pad)) (world s);
         let s = s\<lparr>world := w\<rparr>;
         Some ((0, overlay dst 0 (take nbytes out), dst_len), s)
       }
     }
   }"

text \<open>
  One round of the loop over the file, which \<open>processencryption\<close> and \<open>process_enc_comp\<close> both
  contain: either an early \<open>return\<close> with a value, or the new read and write positions.
\<close>

definition enc_round ::
  "'w kernel \<Rightarrow> nat \<Rightarrow> nat \<Rightarrow> cbuf option \<Rightarrow> int \<Rightarrow> int \<times> int \<Rightarrow> 'w kst
   \<Rightarrow> ((int option + int \<times> int) \<times> 'w kst) option" where
  "enc_round K f_read f_write key temp_size pos s = do {
     let (curr_read_size, curr_write_size) = pos;
     (buff3, s) \<leftarrow> kmalloc K (nat PAGE_SIZE) s;
     (buff4, s) \<leftarrow> kmalloc K (nat PAGE_SIZE) s;
     let s = set_fpos f_read curr_read_size s;
     let oldfs1 = addr_limit s;
     let s = set_fs KERNEL_DS s;
     m3 \<leftarrow> buf_area buff3 s;
     ((ret1, m3, pos1), s) \<leftarrow> vfs_read_ptr K f_read buff3 m3 temp_size (fpos s f_read) s;
     let s = set_fpos f_read pos1 s;
     let bytes1 = i32 ret1;
     let s = set_fs oldfs1 s;
     k \<leftarrow> buf_bytes key s;
     key_len \<leftarrow> c_strlen k;
     let src_len = u64 bytes1;
     m4 \<leftarrow> buf_area buff4 s;
     ((err, m4, dst_len), s) \<leftarrow> clone_encryption K k key_len m4 m3 src_len s;
     if err < 0 then do {
       (_, s) \<leftarrow> kfree buff3 s;
       (_, s) \<leftarrow> kfree buff4 s;
       (_, s) \<leftarrow> kfree key s;
       Some (Inl (Some err), s)
     }
     else do {
       let s = set_fpos f_write curr_write_size s;
       let oldfs2 = addr_limit s;
       let s = set_fs KERNEL_DS s;
       ((ret2, pos2), s) \<leftarrow> vfs_write_ptr K f_write buff4 m4 (i32 dst_len) (fpos s f_write) s;
       let s = set_fpos f_write pos2 s;
       let bytes2 = i32 ret2;
       let s = set_fs oldfs2 s;
       (_, s) \<leftarrow> kfree buff3 s;
       (_, s) \<leftarrow> kfree buff4 s;
       Some (Inr (i32 (curr_read_size + bytes1), i32 (curr_write_size + bytes2)), s)
     }
   }"

function enc_loop ::
  "'w kernel \<Rightarrow> nat \<Rightarrow> nat \<Rightarrow> cbuf option \<Rightarrow> int \<Rightarrow> int \<times> int \<Rightarrow> 'w kst
   \<Rightarrow> (int option \<times> 'w kst) option" where
  "enc_loop K f_read f_write key fsize pos s =
     (if 0 < fsize then do {
        let temp_size = (if fsize > PAGE_SIZE - 16 then PAGE_SIZE - 16 else fsize);
        let fsize = (if fsize > PAGE_SIZE - 16 then fsize - temp_size else 0);
        (r, s) \<leftarrow> enc_round K f_read f_write key temp_size pos s;
        (case r of
           Inl err \<Rightarrow> Some (err, s)
         | Inr pos \<Rightarrow> enc_loop K f_read f_write key fsize pos s)
      }
      else Some (None, s))"
  by pat_completeness auto
termination
  by (relation "measure (\<lambda>(K, fr, fw, key, fsize, pos, s). nat fsize)") (auto simp: PAGE_SIZE_def)

declare enc_loop.simps [simp del]

interpretation enc: chunked_loop "enc_loop K fr fw key" "enc_round K fr fw key" "\<lambda>pos. None"
proof unfold_locales
  fix fsize :: int and pos :: "int \<times> int" and s :: "'a kst"
  show "enc_loop K fr fw key fsize pos s = Some (None, s)" if "fsize \<le> 0"
    using that by (subst enc_loop.simps) simp
  show "enc_loop K fr fw key fsize pos s =
      Option.bind (enc_round K fr fw key (min fsize (PAGE_SIZE - 16)) pos s) (\<lambda>(r, s).
        case r of Inl e \<Rightarrow> Some (e, s)
        | Inr pos \<Rightarrow> enc_loop K fr fw key (fsize - min fsize (PAGE_SIZE - 16)) pos s)" if "0 < fsize"
    unfolding enc_loop.simps [of K fr fw key fsize] Let_def chunk_size if_P [OF that] by (rule refl)
qed

definition processencryption ::
  "'w kernel \<Rightarrow> string option \<Rightarrow> cbuf option \<Rightarrow> 'w kst \<Rightarrow> (int \<times> 'w kst) option" where
  "processencryption K file_name key s = do {
     name \<leftarrow> file_name;
     (f_read, s) \<leftarrow> file_open K name O_RDONLY 0 s;
     if bad_ptr f_read then Some (- EPERM, s)
     else do {
       (replace, s) \<leftarrow> kmalloc K PATH_MAX s;
       if replace = None then Some (- ENOMEM, s)
       else do {
         (filename, s) \<leftarrow> kmalloc K PATH_MAX s;
         if filename = None then Some (- ENOMEM, s)
         else do {
           (path, s) \<leftarrow> kmalloc K PATH_MAX s;
           if path = None then Some (- ENOMEM, s)
           else do {
             fr \<leftarrow> deref f_read;
             ((trashbinfolder_filename, m), s) \<leftarrow> name_prefix K s;
             m \<leftarrow> name_finish K fr filename m [''.enc''] s;
             let fsize = i32 (i_size_k K (f_dentry_k K fr) (world s));
             (f_write, s) \<leftarrow> file_open K (c_str m) (O_WRONLY OR O_CREAT) 420 s;
             if bad_ptr f_write then Some (- ptr_err f_write, s)
             else do {
               fw \<leftarrow> deref f_write;
               k \<leftarrow> buf_bytes key s;
               key_len \<leftarrow> c_strlen k;
               (key_store, s) \<leftarrow> kmalloc K (8 * key_len) s;
               (key_err, s) \<leftarrow> vfs_setxattr K (f_dentry_k K fw) ''user.key_store'' (take key_len k) s;
               (early, s) \<leftarrow> enc_loop K fr fw key fsize (0, 0) s;
               (case early of
                  Some err \<Rightarrow> Some (err, s)
                | None \<Rightarrow> do {
                    (err, s) \<leftarrow> close_and_unlink K fr s;
                    (_, s) \<leftarrow> file_close K fw s;
                    (_, s) \<leftarrow> kfree trashbinfolder_filename s;
                    (_, s) \<leftarrow> kfree key s;
                    Some (err, s)
                  })
             }
           }
         }
       }
     }
   }"

subsection \<open>For every kernel\<close>

lemma safely_clone_encryption [frame_rules]:
  assumes "\<And>err m n w. length m = length dst \<Longrightarrow> Q ((err, m, n), s\<lparr>world := w\<rparr>)"
  shows "safely (clone_encryption K key kl dst src sl s) Q"
  using assms
  by (auto simp: clone_encryption_def exec_simps Let_def length_overlay split: prod.split)

text \<open>
  The loop gives back the buffers of each round; leaving it early, it has also freed the key. It
  only reads and writes.
\<close>

definition transfers :: "'w kst \<Rightarrow> 'w kst \<Rightarrow> bool" where
  "transfers s t \<longleftrightarrow> opened t = opened s \<and> enc_key t = enc_key s \<and> addr_limit t = addr_limit s \<and>
     next_id s \<le> next_id t \<and> (\<exists>evs. trace t = trace s @ evs \<and> (\<forall>e\<in>set evs. is_transfer e))"

definition enc_kept :: "cbuf option \<Rightarrow> 'w kst \<Rightarrow> 'w kst \<Rightarrow> bool" where
  "enc_kept key s t \<longleftrightarrow> transfers s t \<and> live t = live s \<and> (\<forall>i\<in>set (live s). i < next_id s)"

definition enc_left :: "cbuf option \<Rightarrow> 'w kst \<Rightarrow> int option \<Rightarrow> 'w kst \<Rightarrow> bool" where
  "enc_left key s early t \<longleftrightarrow> transfers s t \<and>
     (\<exists>e b. early = Some e \<and> e < 0 \<and> key = Some b \<and> bid b \<in> set (live s) \<and>
       live t = remove1 (bid b) (live s))"

lemma safely_kfree_opt [exec_simps]:
  "safely (kfree p s) Q \<longleftrightarrow>
     (p = None \<longrightarrow> Q ((), s)) \<and>
     (\<forall>b. p = Some b \<and> bid b \<in> set (live s) \<longrightarrow> Q ((), s\<lparr>live := remove1 (bid b) (live s)\<rparr>))"
  by (cases p) (simp_all add: kfree_def)

lemma transfers_read:
  assumes "\<And>r m' p t. transfers s t \<Longrightarrow> live t = live s \<Longrightarrow> next_id t = next_id s \<Longrightarrow> Q ((r, m', p), t)"
  shows "safely (vfs_read_ptr K f b m len pos s) Q" and "safely (vfs_read K f m len pos s) Q"
proof -
  show 2: "safely (vfs_read K f m len pos s) Q"
    by (auto simp: exec_simps transfers_def intro!: assms)
  show "safely (vfs_read_ptr K f b m len pos s) Q"
    using 2 by (cases b) (auto simp: exec_simps transfers_def intro!: assms)
qed

lemma transfers_write:
  assumes "\<And>r p t. transfers s t \<Longrightarrow> live t = live s \<Longrightarrow> next_id t = next_id s \<Longrightarrow> Q ((r, p), t)"
  shows "safely (vfs_write_ptr K f b m len pos s) Q" and "safely (vfs_write K f m len pos s) Q"
proof -
  show 2: "safely (vfs_write K f m len pos s) Q"
    by (auto simp: exec_simps transfers_def intro!: assms)
  show "safely (vfs_write_ptr K f b m len pos s) Q"
    using 2 by (cases b) (auto simp: exec_simps transfers_def intro!: assms)
qed

lemma transfers_area: "(\<And>m. Q m) \<Longrightarrow> safely (buf_area p s) Q"
  by (simp add: exec_simps)

lemma enc_round_kept:
  assumes "enc_kept key s0 s"
  shows "safely (enc_round K fr fw key n pos s) (\<lambda>(r, t).
    case r of Inl e \<Rightarrow> enc_left key s0 e t | Inr pos \<Rightarrow> enc_kept key s0 t)"
proof -
  obtain p w q w' where k: "kmalloc_k K (nat PAGE_SIZE) (world s) = (p, w)"
    "kmalloc_k K (nat PAGE_SIZE) w = (q, w')"
    by (metis prod.collapse)
  note go = safely_kfree_opt safely_buf_bytes safely_c_strlen safely_if enc_kept_def enc_left_def
  note frames = transfers_read transfers_write transfers_area safely_clone_encryption
  consider "p = None" "q = None" | h where "p = None" "q = Some h" | g where "p = Some g" "q = None"
    | g h where "p = Some g" "q = Some h" by (cases p; cases q) simp_all
  then show ?thesis
  proof cases
    case 1
    with k assms show ?thesis
      unfolding enc_round_def Let_def
      by (auto simp: kmalloc_def go intro!: frames split: prod.split) (auto simp: transfers_def)
  next
    case (2 h)
    with k assms show ?thesis
      unfolding enc_round_def Let_def
      by (auto simp: kmalloc_def go intro!: frames split: prod.split) (auto simp: transfers_def)
  next
    case (3 g)
    with k assms show ?thesis
      unfolding enc_round_def Let_def
      by (auto simp: kmalloc_def go intro!: frames split: prod.split) (auto simp: transfers_def)
  next
    case (4 g h)
    with k assms show ?thesis
      unfolding enc_round_def Let_def
      by (auto simp: kmalloc_def go intro!: frames split: prod.split) (auto simp: transfers_def)
  qed
qed

lemma enc_kept_refl: "\<forall>i\<in>set (live s). i < next_id s \<Longrightarrow> enc_kept key s s"
  by (simp add: enc_kept_def transfers_def)

lemma enc_loop_kept:
  assumes "\<forall>i\<in>set (live s). i < next_id s"
  shows "safely (enc_loop K fr fw key fsize pos s) (\<lambda>(early, t).
    enc_left key s early t \<or> early = None \<and> enc_kept key s t)"
  using enc.loop_invariant [OF enc_round_kept enc_kept_refl [OF assms]]
  by (rule safely_mono) auto

subsection \<open>What the cipher's documentation promises\<close>

text \<open>
  \<open>E k iv bs\<close> is the cipher text of \<open>bs\<close> (a multiple of the block size) under the key \<open>k\<close>, which
  is \<open>None\<close> in a transform on which no \<open>setkey\<close> succeeded, and the initialisation vector \<open>iv\<close>.
  Encrypting keeps the length and touches no file.
\<close>

type_synonym cipher = "byte list option \<Rightarrow> byte list \<Rightarrow> byte list \<Rightarrow> byte list"

definition cipher_contract :: "'w kernel \<Rightarrow> (nat \<Rightarrow> 'w \<Rightarrow> byte list) \<Rightarrow> cipher \<Rightarrow> bool" where
  "cipher_contract K c E \<longleftrightarrow>
     (\<forall>name w. \<exists>iv w'. alloc_blkcipher_k K name w = (Ptr \<lparr>t_key = None, t_iv = iv\<rparr>, w') \<and>
        (\<forall>d. c d w' = c d w)) \<and>
     (\<forall>t bs w. length bs mod 16 = 0 \<longrightarrow>
        (\<exists>w'. blk_encrypt_k K t bs w = ((0, E (t_key t) (t_iv t) bs), w') \<and> (\<forall>d. c d w' = c d w))) \<and>
     (\<forall>k iv bs. length bs mod 16 = 0 \<longrightarrow> length (E k iv bs) = length bs)"

definition pkcs_pad :: "byte list \<Rightarrow> byte list" where
  "pkcs_pad p = p @ replicate (16 - length p mod 16) (char_of (16 - length p mod 16))"

definition cipher_text :: "'w kernel \<Rightarrow> cipher \<Rightarrow> byte list \<Rightarrow> byte list \<Rightarrow> byte list" where
  "cipher_text K E key p =
     E (if blk_setkey_k K key = 0 then Some key else None)
       (take (blk_ivsize_k K) (ceph_aes_iv_k K)) (pkcs_pad p)"

lemma pkcs_pad_length: "length (pkcs_pad p) = 16 * (length p div 16 + 1)"
  by (simp add: pkcs_pad_def) presburger

lemma returns_clone_encryption:
  assumes C: "cipher_contract K c E" and sl: "sl = int n" and n: "n \<le> length src"
    and fits: "length (pkcs_pad (take n src)) \<le> length dst" and big: "length dst < 2147483648"
    and Q: "\<And>w. (\<And>d. c d w = c d (world s)) \<Longrightarrow>
      Q ((0, overlay dst 0 (cipher_text K E (take kl key) (take n src)),
          int (length (pkcs_pad (take n src)))), s\<lparr>world := w\<rparr>)"
  shows "returns (clone_encryption K key kl dst src sl s) Q"
proof -
  define key' where "key' = (if blk_setkey_k K (take kl key) = 0 then Some (take kl key) else None)"
  define iv where "iv = take (blk_ivsize_k K) (ceph_aes_iv_k K)"
  define z where "z = 16 - n mod 16"
  define dl where "dl = length (pkcs_pad (take n src))"
  have nd: "n < 2147483648"
    using fits big n by (simp add: pkcs_pad_def)
  have pad: "take n src @ replicate z (char_of z) = pkcs_pad (take n src)"
    using n by (simp add: pkcs_pad_def z_def min_def)
  have dl: "n + z = dl" using n by (simp add: dl_def z_def pkcs_pad_def min_def)
  have zi: "16 - int n mod 16 = int z" by (simp add: z_def zmod_int of_nat_diff)
  have m: "dl mod 16 = 0" by (simp add: dl_def pkcs_pad_length)
  have l: "length (E k v (pkcs_pad (take n src))) = dl" for k v
    using C m by (simp add: cipher_contract_def dl_def)
  have u: "u64 (int n + int z) = int dl"
    using fits big dl by (simp add: u64_id dl_def [symmetric] flip: of_nat_add)
  have u32: "u32 (int n + int z) = int dl" "u32 (int n) = int n"
    using fits big dl nd by (simp_all add: u32_id dl_def [symmetric] flip: of_nat_add)
  obtain v w1 where a: "alloc_blkcipher_k K ''cbc(aes)'' (world s) = (Ptr \<lparr>t_key = None, t_iv = v\<rparr>, w1)"
    and c1: "\<And>d. c d w1 = c d (world s)"
    using C unfolding cipher_contract_def by metis
  obtain w2 where e: "blk_encrypt_k K \<lparr>t_key = key', t_iv = iv\<rparr> (pkcs_pad (take n src)) w1 =
      ((0, E key' iv (pkcs_pad (take n src))), w2)" and c2: "\<And>d. c d w2 = c d w1"
    using C m unfolding cipher_contract_def dl_def by (metis blkcipher.select_convs)
  have k: "(if blk_setkey_k K (take kl key) = 0 then t\<lparr>t_key := Some (take kl key)\<rparr> else t)
      = \<lparr>t_key = key', t_iv = v\<rparr>" if "t = \<lparr>t_key = None, t_iv = v\<rparr>" for t
    using that by (simp add: key'_def)
  have ct: "cipher_text K E (take kl key) (take n src) = E key' iv (pkcs_pad (take n src))"
    by (simp add: cipher_text_def key'_def iv_def)
  show ?thesis
    unfolding clone_encryption_def sl zi u32 nat_int pad u a
    using Q [of w2] c1 c2 e n fits l [of key' iv]
    by (simp add: Let_def k ct u u32 pad dl_def [symmetric] iv_def [symmetric])
qed

subsection \<open>The loop under the contracts\<close>

definition enc_text :: "'w kernel \<Rightarrow> cipher \<Rightarrow> byte list \<Rightarrow> byte list \<Rightarrow> byte list" where
  "enc_text K E key src = concat (map (cipher_text K E key) (pieces piece_size src))"

lemma enc_text_step:
  "xs \<noteq> [] \<Longrightarrow> enc_text K E key xs =
     cipher_text K E key (take piece_size xs) @ enc_text K E key (drop piece_size xs)"
  by (simp add: enc_text_def pieces_step piece_size_def)

lemma enc_text_Nil [simp]: "enc_text K E key [] = []"
  by (simp add: enc_text_def)

lemma cipher_text_length:
  "cipher_contract K c E \<Longrightarrow> length (cipher_text K E key p) = 16 * (length p div 16 + 1)"
  by (simp add: cipher_contract_def cipher_text_def pkcs_pad_length)

lemma enc_text_length:
  assumes "cipher_contract K c E"
  shows "length (enc_text K E key src) \<le> length src + 16 * length (pieces piece_size src)"
proof (induction "length src" arbitrary: src rule: less_induct)
  case less
  show ?case
  proof (cases "src = []")
    case False
    define p r where "p = take piece_size src" and "r = drop piece_size src"
    have "length (enc_text K E key r) \<le> length r + 16 * length (pieces piece_size r)"
      using False by (intro less) (simp add: r_def piece_size_def)
    moreover have "length (cipher_text K E key p) \<le> length p + 16"
      unfolding cipher_text_length [OF assms]
      using div_times_less_eq_dividend [of "length p" 16] by simp
    moreover have "length src = length p + length r" by (simp add: p_def r_def)
    moreover have "length (pieces piece_size src) = 1 + length (pieces piece_size r)"
      using False by (simp add: pieces_step piece_size_def r_def)
    moreover have "length (enc_text K E key src) =
        length (cipher_text K E key p) + length (enc_text K E key r)"
      using False by (simp add: enc_text_step p_def r_def)
    ultimately show ?thesis by linarith
  qed simp
qed

text \<open>
  The state of the loop when the bytes \<open>xs\<close> at the end of the input \<open>src\<close> remain: the read
  position is where they start, the write position is the length of what has been written, and
  that is the cipher text of the bytes before.
\<close>

definition enc_progress ::
  "'w kernel \<Rightarrow> (nat \<Rightarrow> 'w \<Rightarrow> byte list) \<Rightarrow> cipher \<Rightarrow> nat \<Rightarrow> nat \<Rightarrow> cbuf \<Rightarrow> 'w kst
   \<Rightarrow> byte list \<Rightarrow> int \<times> int \<Rightarrow> 'w kst \<Rightarrow> bool" where
  "enc_progress K c E fr fw kb s0 xs pos s \<longleftrightarrow>
     (let src = c (f_dentry_k K fr) (world s0); old = c (f_dentry_k K fw) (world s0);
          key = c_str (mem kb) in
      \<exists>acc r. pos = (int r, int (length acc)) \<and> drop r src = xs \<and> r \<le> length src \<and>
        enc_text K E key src = acc @ enc_text K E key xs \<and>
        c (f_dentry_k K fw) (world s) = acc @ drop (length acc) old \<and>
        (\<forall>d. d \<noteq> f_dentry_k K fw \<longrightarrow> c d (world s) = c d (world s0)) \<and>
        live s = live s0 \<and> opened s = opened s0)"

lemma enc_round_progress:
  assumes K: "fs_contract K c" and A: "allocates K" and C: "cipher_contract K c E"
    and dif: "f_dentry_k K fr \<noteq> f_dentry_k K fw"
    and key: "length (c_str (mem kb)) < length (mem kb)" "bid kb \<in> set (live s0)"
    and o: "fr \<in> set (opened s0)" "fw \<in> set (opened s0)"
    and big: "length (c (f_dentry_k K fr) (world s0)) < 2147483648"
      "length (enc_text K E (c_str (mem kb)) (c (f_dentry_k K fr) (world s0))) < 2147483648"
    and P: "enc_progress K c E fr fw kb s0 xs pos s" and ne: "xs \<noteq> []"
  shows "returns (enc_round K fr fw (Some kb) (int (length (take piece_size xs))) pos s)
    (\<lambda>(r, t). \<exists>pos'. r = Inr pos' \<and> enc_progress K c E fr fw kb s0 (drop piece_size xs) pos' t)"
proof -
  define src where "src = c (f_dentry_k K fr) (world s0)"
  define old where "old = c (f_dentry_k K fw) (world s0)"
  define k where "k = c_str (mem kb)"
  define p where "p = take piece_size xs"
  define ct where "ct = cipher_text K E k p"
  obtain acc r where pos: "pos = (int r, int (length acc))" and xs: "drop r src = xs" and r: "r \<le> length src"
    and tx: "enc_text K E k src = acc @ enc_text K E k xs"
    and cw: "c (f_dentry_k K fw) (world s) = acc @ drop (length acc) old"
    and oth: "\<And>d. d \<noteq> f_dentry_k K fw \<Longrightarrow> c d (world s) = c d (world s0)"
    and lv: "live s = live s0" and opn: "opened s = opened s0"
    using P unfolding enc_progress_def Let_def src_def old_def k_def by blast
  have p: "length p \<le> 4080" "p = take (length p) (drop r src)" "length p + r \<le> length src"
    "length p \<le> length xs"
    using xs r by (auto simp: p_def piece_size_def min_def)
  have rest: "drop piece_size xs = drop (r + length p) src"
    using xs r by (auto simp: p_def min_def add.commute)
  have tx': "enc_text K E k src = (acc @ ct) @ enc_text K E k (drop piece_size xs)"
    using tx enc_text_step [OF ne] by (simp add: ct_def p_def)
  have pad: "length (pkcs_pad p) \<le> 4096" using p(1) by (simp add: pkcs_pad_length)
  have ct: "length ct = length (pkcs_pad p)"
    by (simp add: ct_def cipher_text_length [OF C] pkcs_pad_length)
  have w: "length acc + length (pkcs_pad p) < 2147483648"
    using big(2) unfolding src_def [symmetric] k_def [symmetric] tx' by (simp add: ct)
  have i: "i32 (int (length p)) = int (length p)" "i32 (int r + int (length p)) = int (r + length p)"
      "i32 (int (length (pkcs_pad p))) = int (length (pkcs_pad p))"
      "i32 (int (length acc) + int (length (pkcs_pad p))) = int (length acc + length (pkcs_pad p))"
      "u64 (int (length p)) = int (length p)"
    using p big(1) pad w by (simp_all add: i32_id u64_id src_def)
  have upd: "write_at (acc @ drop (length acc) old) (length acc) ct =
      (acc @ ct) @ drop (length (acc @ ct)) old" by (rule write_at_front)
  have rd: "returns (vfs_read K fr buf (int (length p)) (int r) u) Q"
    if "c (f_dentry_k K fr) (world u) = src" "fr \<in> set (opened u)" "addr_limit u = KERNEL_DS"
      "length buf = 4096"
      and "\<And>w. (\<And>d. c d w = c d (world u)) \<Longrightarrow> Q ((int (length p), overlay buf 0 p, int r + int (length p)),
        note_event (ReadAt fr (int r) (length p) (int (length p))) (u\<lparr>world := w\<rparr>))"
    for buf u Q
    by (rule returns_vfs_read [OF fs_contractD(1) [OF K] that(2,3)])
      (use that p in \<open>simp_all flip: p(2)\<close>)
  have en: "returns (clone_encryption K (mem kb) (length k) dst (overlay buf 0 p) (int (length p)) u) Q"
    if "length dst = 4096" "length buf = 4096"
      and "\<And>w. (\<And>d. c d w = c d (world u)) \<Longrightarrow>
        Q ((0, overlay dst 0 ct, int (length ct)), u\<lparr>world := w\<rparr>)"
    for dst buf u Q
    by (rule returns_clone_encryption [OF C refl])
      (use that p pad in \<open>simp_all add: length_overlay ct [unfolded ct_def k_def] ct_def k_def take_c_str\<close>)
  have cl: "length ct \<le> 4096" using ct pad by simp
  have wr: "returns (vfs_write K fw (overlay dst 0 ct) (int (length ct)) (int (length acc)) u) Q"
    if "fw \<in> set (opened u)" "addr_limit u = KERNEL_DS" "length dst = 4096"
      "c (f_dentry_k K fw) (world u) = acc @ drop (length acc) old"
      and "\<And>w. c (f_dentry_k K fw) w = (acc @ ct) @ drop (length (acc @ ct)) old \<Longrightarrow>
        (\<And>d. d \<noteq> f_dentry_k K fw \<Longrightarrow> c d w = c d (world u)) \<Longrightarrow>
        Q ((int (length ct), int (length acc) + int (length ct)),
          note_event (WroteAt fw (int (length acc)) ct (int (length ct))) (u\<lparr>world := w\<rparr>))"
    for dst u Q
    by (rule returns_vfs_write [OF fs_contractD(2) [OF K] that(1,2)])
      (use that cl upd in \<open>simp_all add: length_overlay\<close>)
  have src: "c (f_dentry_k K fr) (world s) = src" using oth [OF dif] by (simp add: src_def)
  have goal: "enc_progress K c E fr fw kb s0 (drop piece_size xs)
      (int r + int (length p), int (length acc) + int (length ct)) t"
    if "c (f_dentry_k K fw) (world t) = acc @ ct @ drop (length acc + length ct) old"
      "\<forall>d. d \<noteq> f_dentry_k K fw \<longrightarrow> c d (world t) = c d (world s)"
      "live t = live s0" "opened t = opened s0" for t
    unfolding enc_progress_def Let_def src_def [symmetric] old_def [symmetric] k_def [symmetric]
    using that oth rest tx' p(3)
    by (intro exI [of _ "acc @ ct"] exI [of _ "r + length p"]) simp
  show ?thesis
    unfolding enc_round_def pos p_def [symmetric]
    using key o cl
    by (auto simp: src i(1,5) i(3,4) [folded ct] i(2) lv opn PAGE_SIZE_def Let_def k_def [symmetric] cw
        intro!: goal returns_kmalloc [OF fs_contractD(3) [OF K] A] rd en wr returns_rules)
qed

lemma enc_loop_encrypts:
  assumes K: "fs_contract K c" and A: "allocates K" and C: "cipher_contract K c E"
    and dif: "f_dentry_k K fr \<noteq> f_dentry_k K fw"
    and key: "length (c_str (mem kb)) < length (mem kb)" "bid kb \<in> set (live s)"
    and o: "fr \<in> set (opened s)" "fw \<in> set (opened s)"
    and big: "length (c (f_dentry_k K fr) (world s)) < 2139000000"
  shows "returns (enc_loop K fr fw (Some kb) (int (length (c (f_dentry_k K fr) (world s)))) (0, 0) s)
    (\<lambda>(early, t). early = None \<and> live t = live s \<and> opened t = opened s \<and>
      c (f_dentry_k K fw) (world t) =
        enc_text K E (c_str (mem kb)) (c (f_dentry_k K fr) (world s)) @
        drop (length (enc_text K E (c_str (mem kb)) (c (f_dentry_k K fr) (world s))))
          (c (f_dentry_k K fw) (world s)) \<and>
      (\<forall>d. d \<noteq> f_dentry_k K fw \<longrightarrow> c d (world t) = c d (world s)))"
proof -
  define src where "src = c (f_dentry_k K fr) (world s)"
  have "length (pieces piece_size src) \<le> length src div piece_size + 1"
    using length_pieces [of piece_size src] div_add1_eq [of "length src" "piece_size - 1" piece_size]
    by (simp add: piece_size_def)
  then have "length (enc_text K E (c_str (mem kb)) src) < 2147483648"
    using enc_text_length [OF C, of "c_str (mem kb)" src] big
    unfolding src_def [symmetric] piece_size_def by linarith
  then have "returns (enc_loop K fr fw (Some kb) (int (length src)) (0, 0) s)
      (\<lambda>(r, t). \<exists>pos. r = None \<and> enc_progress K c E fr fw kb s [] pos t)"
    using big
    by (intro enc.loop_returns enc_round_progress [OF K A C dif key o])
      (auto simp: src_def enc_progress_def)
  then show ?thesis
    unfolding src_def [symmetric]
    by (rule returns_mono) (auto simp: enc_progress_def Let_def src_def)
qed

text \<open>\<open>processencryption\<close> reduced to its loop: what the loop has made of the trash file.\<close>

lemma processencryption_upto_loop:
  assumes S: "trash_setup K c name fr path lo ''.enc'' fw"
    and key: "length (c_str (mem kb)) < length (mem kb)" "bid kb \<in> set (live s)" "bid kb < next_id s"
    and loop: "\<And>u w. \<forall>d. c d (world u) = c d (world s) \<Longrightarrow> opened u = fw # fr # opened s \<Longrightarrow>
      bid kb \<in> set (live u) \<Longrightarrow> \<forall>d. c d w = c d (world s) \<Longrightarrow>
      returns (enc_loop K fr fw (Some kb) (i32 (i_size_k K (f_dentry_k K fr) w)) (0, 0) u)
        (\<lambda>(early, t). early = None \<and> live t = live u \<and> opened t = opened u \<and>
          P (c (f_dentry_k K fw) (world t)) \<and>
          (\<forall>d. d \<noteq> f_dentry_k K fw \<longrightarrow> c d (world t) = c d (world s)))"
  shows "returns (processencryption K (Some name) (Some kb) s) (\<lambda>(r, t).
    P (c (f_dentry_k K fw) (world t)) \<and>
    (\<forall>d. d \<noteq> f_dentry_k K fw \<and> d \<noteq> f_dentry_k K fr \<longrightarrow> c d (world t) = c d (world s)) \<and>
    opened t = opened s \<and>
    live t = [next_id s + 4, next_id s + 2, next_id s + 1, next_id s] @ remove1 (bid kb) (live s) \<and>
    (\<exists>evs dir. trace t = evs @ [Closed fr, DirLocked dir, Unlinked dir (f_dentry_k K fr) r,
        DirUnlocked dir, Closed fw]))"
proof -
  have KK: "keeps_files K c" and A: "allocates K" and o1: "opens_as K name O_RDONLY 0 fr"
    and ne: "fr \<noteq> fw" "f_dentry_k K fr \<noteq> f_dentry_k K fw"
    and S': "trash_setup K c name fr path lo (concat [''.enc'']) fw"
    using S by (auto simp: trash_setup_def)
  have loop': "returns (enc_loop K fr fw (Some kb) (i32 (i_size_k K (f_dentry_k K fr) w)) (0, 0) u) R"
    if u: "\<forall>d. c d (world u) = c d (world s)" "opened u = fw # fr # opened s" "bid kb \<in> set (live u)"
      "\<forall>d. c d w = c d (world s)"
      and post: "\<And>t. live t = live u \<Longrightarrow> opened t = opened u \<Longrightarrow> P (c (f_dentry_k K fw) (world t)) \<Longrightarrow>
        (\<forall>d. d \<noteq> f_dentry_k K fw \<longrightarrow> c d (world t) = c d (world s)) \<Longrightarrow> R (None, t)" for w u R
    by (rule returns_mono [OF loop [OF u]]) (auto intro!: post)
  show ?thesis
    unfolding processencryption_def
    using key ne
    by (auto simp: kernel_keeps [OF KK] intro!: returns_kmalloc [OF KK A] returns_file_open [OF KK o1]
        returns_file_open [OF KK, where f = fw] returns_name_prefix [OF S] returns_name_finish [OF S']
        returns_rules loop' returns_close_and_unlink)
qed

lemma processencryption_upto_unlink:
  assumes S: "trash_setup K c name fr path lo ''.enc'' fw" and K: "fs_contract K c"
    and C: "cipher_contract K c E"
    and key: "length (c_str (mem kb)) < length (mem kb)" "bid kb \<in> set (live s)"
    and big: "length (c (f_dentry_k K fr) (world s)) < 2139000000"
    and fresh: "\<forall>i\<in>set (live s). i < next_id s"
  shows "returns (processencryption K (Some name) (Some kb) s) (\<lambda>(r, t).
    c (f_dentry_k K fw) (world t) =
      enc_text K E (c_str (mem kb)) (c (f_dentry_k K fr) (world s)) @
      drop (length (enc_text K E (c_str (mem kb)) (c (f_dentry_k K fr) (world s))))
        (c (f_dentry_k K fw) (world s)) \<and>
    (\<forall>d. d \<noteq> f_dentry_k K fw \<and> d \<noteq> f_dentry_k K fr \<longrightarrow> c d (world t) = c d (world s)) \<and>
    opened t = opened s \<and>
    live t = [next_id s + 4, next_id s + 2, next_id s + 1, next_id s] @ remove1 (bid kb) (live s) \<and>
    (\<exists>evs dir. trace t = evs @ [Closed fr, DirLocked dir, Unlinked dir (f_dentry_k K fr) r,
        DirUnlocked dir, Closed fw]))"
proof (rule processencryption_upto_loop [OF S key bspec [OF fresh key(2)]], goal_cases)
  case (1 u w)
  have A: "allocates K" and dif: "f_dentry_k K fr \<noteq> f_dentry_k K fw"
    using S by (auto simp: trash_setup_def)
  have e: "i32 (i_size_k K (f_dentry_k K fr) w) = int (length (c (f_dentry_k K fr) (world u)))"
    using 1 big by (simp add: contract_size [OF K] i32_id)
  show ?case
    unfolding e using 1 big
    by (intro returns_mono [OF enc_loop_encrypts [OF K A C dif key(1) 1(3)]]) auto
qed

subsection \<open>Undoing the encryption\<close>

definition pkcs_unpad :: "byte list \<Rightarrow> byte list" where
  "pkcs_unpad bs = take (length bs - of_char (last bs)) bs"

definition dec_text ::
  "(byte list option \<Rightarrow> byte list \<Rightarrow> byte list \<Rightarrow> byte list) \<Rightarrow> byte list option \<Rightarrow> byte list
   \<Rightarrow> byte list \<Rightarrow> byte list" where
  "dec_text D k iv bs = concat (map (\<lambda>p. pkcs_unpad (D k iv p)) (pieces 4096 bs))"

definition set_key :: "'w kernel \<Rightarrow> byte list \<Rightarrow> byte list option" where
  "set_key K key = (if blk_setkey_k K key = 0 then Some key else None)"

definition start_iv :: "'w kernel \<Rightarrow> byte list" where
  "start_iv K = take (blk_ivsize_k K) (ceph_aes_iv_k K)"

lemma pkcs_unpad_pad: "pkcs_unpad (pkcs_pad p) = p"
proof -
  have z: "0 < 16 - length p mod 16" "16 - length p mod 16 < 256" by simp_all
  then have "last (pkcs_pad p) = char_of (16 - length p mod 16)"
    by (simp add: pkcs_pad_def del: replicate_Suc)
  with z show ?thesis by (simp add: pkcs_unpad_def pkcs_pad_def)
qed

lemma dec_enc_text:
  assumes C: "cipher_contract K c E"
    and D: "\<And>k iv bs. length bs mod 16 = 0 \<Longrightarrow> D k iv (E k iv bs) = bs"
  shows "dec_text D (set_key K key) (start_iv K) (enc_text K E key src) = src"
proof (induction "length src" arbitrary: src rule: less_induct)
  case less
  show ?case
  proof (cases "src = []")
    case True
    then show ?thesis by (simp add: dec_text_def)
  next
    case False
    define p r where "p = take piece_size src" and "r = drop piece_size src"
    have src: "src = p @ r" by (simp add: p_def r_def)
    have IH: "dec_text D (set_key K key) (start_iv K) (enc_text K E key r) = r"
      using False by (intro less) (simp add: r_def piece_size_def)
    have len: "length (cipher_text K E key p) = 16 * (length p div 16 + 1)"
      by (rule cipher_text_length [OF C])
    have un: "pkcs_unpad (D (set_key K key) (start_iv K) (cipher_text K E key p)) = p"
      by (simp add: cipher_text_def set_key_def [symmetric] start_iv_def [symmetric] D pkcs_pad_length
          pkcs_unpad_pad)
    have pc: "pieces 4096 (cipher_text K E key p @ enc_text K E key r) =
        cipher_text K E key p # pieces 4096 (enc_text K E key r)"
    proof (cases "r = []")
      case True
      have "length p \<le> 4080" by (simp add: p_def piece_size_def)
      then have "length (cipher_text K E key p) \<le> 4096" "cipher_text K E key p \<noteq> []"
        using len by auto
      with True show ?thesis by (simp add: pieces_step)
    next
      case False
      then have "length p = 4080" by (simp add: p_def r_def piece_size_def)
      then have "length (cipher_text K E key p) = 4096" using len by simp
      moreover from this have "cipher_text K E key p \<noteq> []" by auto
      ultimately show ?thesis by (simp add: pieces_step)
    qed
    have "enc_text K E key src = cipher_text K E key p @ enc_text K E key r"
      unfolding p_def r_def by (rule enc_text_step [OF False])
    with IH show ?thesis
      by (simp add: dec_text_def pc un src)
  qed
qed

lemma enc_text_invalid_key:
  "blk_setkey_k K key \<noteq> 0 \<Longrightarrow>
     enc_text K E key src = concat (map (\<lambda>p. E None (start_iv K) (pkcs_pad p)) (pieces piece_size src))"
  unfolding enc_text_def start_iv_def
  by (rule arg_cong [where f = concat], rule map_cong [OF refl]) (simp add: cipher_text_def)

end
