(* ===== verification/Encrypt_Props.thy ===== *)
theory Encrypt_Props
  imports Encrypt
begin

text \<open>
  The properties of \<open>processencryption\<close>: what it leaves in the trash folder, what it leaves of the
  key and of the memory, and how failing reads and writes lose the file.
\<close>

subsection \<open>For every kernel\<close>

lemma safely_enc_loop:
  assumes "\<forall>i\<in>set (live s). i < next_id s"
    and "\<And>t. transfers s t \<Longrightarrow> live t = live s \<Longrightarrow> Q (None, t)"
    and "\<And>e b t. transfers s t \<Longrightarrow> e < 0 \<Longrightarrow> key = Some b \<Longrightarrow> bid b \<in> set (live s) \<Longrightarrow>
      live t = remove1 (bid b) (live s) \<Longrightarrow> Q (Some e, t)"
  shows "safely (enc_loop K fr fw key fsize pos s) Q"
  by (rule safely_mono [OF enc_loop_kept [OF assms(1)]])
    (use assms(2,3) in \<open>auto simp: enc_kept_def enc_left_def\<close>)

lemma safely_name_finish [frame_rules]:
  "(\<And>m'. Q m') \<Longrightarrow> safely (name_finish K f b m xs s) Q"
  by (simp add: safely_iff)

lemma safely_c_strlen_weak: "(length (c_str m) < length m \<Longrightarrow> Q (length (c_str m))) \<Longrightarrow> safely (c_strlen m) Q"
  by (simp add: exec_simps)

subsection \<open>A freed key\<close>

text \<open>A kernel on which creating a file succeeds, whatever its name.\<close>

definition creates :: "'w kernel \<Rightarrow> bool" where
  "creates K \<longleftrightarrow> (\<forall>p w. \<not> bad_ptr (fst (filp_open_k K p (O_WRONLY OR O_CREAT) 420 w)))"

lemma createsD: "creates K \<Longrightarrow> filp_open_k K p (O_WRONLY OR O_CREAT) 420 w = (f, w') \<Longrightarrow> \<not> bad_ptr f"
  by (metis creates_def fst_conv)

lemma processencryption_dead_key:
  assumes A: "allocates K" and o1: "opens_as K name O_RDONLY 0 fr" and o2: "creates K"
    and key: "bid kb \<notin> set (live s)" "bid kb < next_id s"
  shows "processencryption K (Some name) (Some kb) s = None"
proof -
  have "safely (processencryption K (Some name) (Some kb) s) (\<lambda>x. False)"
    unfolding processencryption_def
    using key
    by (auto simp: exec_simps allocates_not_None [OF A] dest!: opens_as_eq [OF o1]
        dest: createsD [OF o2] intro!: frame_rules)
  then show ?thesis by (simp add: safely_False)
qed

lemma processencryption_keeps_enc_key:
  assumes "\<forall>i\<in>set (live s). i < next_id s"
  shows "safely (processencryption K name key s) (\<lambda>(r, t). enc_key t = enc_key s \<and> next_id s \<le> next_id t)"
proof -
  let ?n = "next_id s"
  have ids: "i < Suc (Suc (Suc (Suc ?n)))" "i < Suc (Suc (Suc (Suc (Suc ?n))))" if "i \<in> set (live s)" for i
    using assms that by fastforce+
  show ?thesis
    unfolding processencryption_def
    by (auto simp: exec_simps safely_iff [of name] not_bad_ptr transfers_def ids
      intro!: frame_rules safely_enc_loop)
qed

subsection \<open>Properties\<close>

definition enc_setup ::
  "'w kernel \<Rightarrow> (nat \<Rightarrow> 'w \<Rightarrow> byte list) \<Rightarrow> cipher \<Rightarrow> string \<Rightarrow> nat \<Rightarrow> string \<Rightarrow> string \<Rightarrow> nat \<Rightarrow> cbuf \<Rightarrow> 'w kst \<Rightarrow> bool" where
  "enc_setup K c E name fr path lo fw kb s \<longleftrightarrow>
     trash_setup K c name fr path lo ''.enc'' fw \<and> fs_contract K c \<and> cipher_contract K c E \<and>
     length (c_str (mem kb)) < length (mem kb) \<and> bid kb \<in> set (live s) \<and>
     distinct (live s) \<and> (\<forall>i\<in>set (live s). i < next_id s) \<and>
     length (c (f_dentry_k K fr) (world s)) < 2139000000"

text \<open>
  C2. When kernel and cipher keep their contracts, \<open>processencryption\<close> on a file of less than
  2139000000 bytes writes to the trash file the cipher texts of its pieces of 4080 bytes, each
  padded on its own and one behind the other (and then what a longer old trash file still held);
  it changes no other file, unlinks the input last and returns the result of that, closes both
  files, frees the key, and does not give back the buffers \<open>replace\<close>, \<open>filename\<close>, \<open>path\<close> and \<open>key_store\<close>.
\<close>

theorem processencryption_encrypts:
  assumes "enc_setup K c E name fr path lo fw kb s"
  shows "returns (processencryption K (Some name) (Some kb) s) (\<lambda>(r, t).
    c (f_dentry_k K fw) (world t) =
      enc_text K E (c_str (mem kb)) (c (f_dentry_k K fr) (world s)) @
      drop (length (enc_text K E (c_str (mem kb)) (c (f_dentry_k K fr) (world s))))
        (c (f_dentry_k K fw) (world s)) \<and>
    (\<forall>d. d \<noteq> f_dentry_k K fw \<and> d \<noteq> f_dentry_k K fr \<longrightarrow> c d (world t) = c d (world s)) \<and>
    opened t = opened s \<and>
    live t = [next_id s + 4, next_id s + 2, next_id s + 1, next_id s] @ remove1 (bid kb) (live s) \<and>
    (\<exists>evs dir. trace t = evs @ [Closed fr, DirLocked dir, Unlinked dir (f_dentry_k K fr) r,
        DirUnlocked dir, Closed fw]))"
  using assms unfolding enc_setup_def by (elim conjE) (rule processencryption_upto_unlink)

text \<open>
  C5. The trash file of an encryption can be decrypted: cut into pieces of 4096 bytes, each
  deciphered with the same key and initialisation vector and stripped of its padding, it gives
  back the input, when the trash file was empty before and \<open>D\<close> inverts the cipher.
\<close>

theorem processencryption_roundtrip:
  assumes "enc_setup K c E name fr path lo fw kb s" and "c (f_dentry_k K fw) (world s) = []"
    and "\<And>k iv bs. length bs mod 16 = 0 \<Longrightarrow> D k iv (E k iv bs) = bs"
  shows "returns (processencryption K (Some name) (Some kb) s) (\<lambda>(r, t).
    dec_text D (set_key K (c_str (mem kb))) (start_iv K) (c (f_dentry_k K fw) (world t)) =
      c (f_dentry_k K fr) (world s))"
proof -
  have "cipher_contract K c E" using assms(1) by (simp add: enc_setup_def)
  note dec = dec_enc_text [OF this, where D = D, OF assms(3)]
  show ?thesis
    using assms(1) unfolding enc_setup_def
    by (elim conjE, intro returns_mono [OF processencryption_upto_unlink]) (auto simp: assms(2) dec)
qed

text \<open>
  C34. The result of \<open>crypto_blkcipher_setkey\<close> is ignored: when the cipher rejects the key (AES takes
  16, 24 or 32 bytes; the README shows a key of four), the trash file does not depend on it.
\<close>

theorem processencryption_invalid_key:
  assumes "enc_setup K c E name fr path lo fw kb s" and "blk_setkey_k K (c_str (mem kb)) \<noteq> 0"
    and "c (f_dentry_k K fw) (world s) = []"
  shows "returns (processencryption K (Some name) (Some kb) s) (\<lambda>(r, t).
    c (f_dentry_k K fw) (world t) =
      concat (map (\<lambda>p. E None (start_iv K) (pkcs_pad p))
        (pieces piece_size (c (f_dentry_k K fr) (world s)))))"
  using assms(1) unfolding enc_setup_def
  by (elim conjE, intro returns_mono [OF processencryption_upto_unlink])
    (auto simp: assms(3) enc_text_invalid_key [OF assms(2)])

lemma returns_stale_key:
  assumes "enc_setup K c E name fr path lo fw kb s" and "enc_key s = Some kb"
    and "opens_as K name2 O_RDONLY 0 fr2" and "creates K"
  shows "returns (processencryption K (Some name) (enc_key s) s) (\<lambda>(r, t).
    enc_key t = Some kb \<and> processencryption K (Some name2) (enc_key t) t = None)"
proof -
  have A: "allocates K" and fresh: "\<forall>i\<in>set (live s). i < next_id s" and kb: "bid kb < next_id s"
    using assms(1) by (auto simp: enc_setup_def trash_setup_def)
  have "enc_key t = Some kb \<and> processencryption K (Some name2) (enc_key t) t = None"
    if run: "processencryption K (Some name) (Some kb) s = Some (r, t)"
      and lv: "live t = [next_id s + 4, next_id s + 2, next_id s + 1, next_id s] @ remove1 (bid kb) (live s)"
    for r t
  proof -
    have t: "enc_key t = Some kb" "next_id s \<le> next_id t"
      using safelyD [OF processencryption_keeps_enc_key [OF fresh] run] assms(2) by simp_all
    have "bid kb \<notin> set (live t)"
      using lv kb assms(1) by (auto simp: enc_setup_def set_remove1_eq)
    with t kb show ?thesis
      by (simp add: processencryption_dead_key [OF A assms(3,4)])
  qed
  then show ?thesis
    unfolding assms(2) using assms(1) unfolding enc_setup_def
    by (elim conjE, intro returns_mono [OF processencryption_upto_unlink]) auto
qed

text \<open>
  The routine frees the key the global \<open>enc_key\<close> points to and leaves the global as it is: a
  second encryption, of any file that opens, uses freed memory.
\<close>

theorem processencryption_stale_key:
  assumes "enc_setup K c E name fr path lo fw kb s" and "enc_key s = Some kb"
    and "opens_as K name2 O_RDONLY 0 fr2" and "creates K"
  shows "returns (processencryption K (Some name) (enc_key s) s) (\<lambda>(r, t).
    enc_key t = Some kb \<and> processencryption K (Some name2) (enc_key t) t = None)"
  by (rule returns_stale_key [OF assms])

text \<open>
  The size of the input goes into an \<open>int\<close>: a file of 2 GiB or more (and less than 4 GiB) has
  a negative size, the loop does nothing, and the input is unlinked with nothing written.
\<close>

theorem processencryption_large_file_lost:
  assumes "trash_setup K c name fr path lo ''.enc'' fw" and "fs_contract K c"
    and "length (c_str (mem kb)) < length (mem kb)" and "bid kb \<in> set (live s)" and "bid kb < next_id s"
    and "2147483648 \<le> length (c (f_dentry_k K fr) (world s))"
    and "length (c (f_dentry_k K fr) (world s)) < 4294967296"
  shows "returns (processencryption K (Some name) (Some kb) s) (\<lambda>(r, t).
    c (f_dentry_k K fw) (world t) = c (f_dentry_k K fw) (world s) \<and>
    (\<exists>evs dir. trace t = evs @ [Closed fr, DirLocked dir, Unlinked dir (f_dentry_k K fr) r,
        DirUnlocked dir, Closed fw]))"
proof (rule returns_mono, rule processencryption_upto_loop [OF assms(1,3-5),
      where P = "\<lambda>x. x = c (f_dentry_k K fw) (world s)"], goal_cases)
  case (1 u w)
  have "enc_loop K fr fw (Some kb) (i32 (i_size_k K (f_dentry_k K fr) w)) (0, 0) u = Some (None, u)"
    using 1(4) assms(6,7) by (intro enc.stop) (simp add: contract_size [OF assms(2)] i32_minus_twopow)
  then show ?case using 1(1) by simp
qed auto

subsection \<open>Input and output errors\<close>

text \<open>
  The cipher on a source length that was a small error code: no byte is touched, and the routine
  reports success with the length 0.
\<close>

lemma wrapped_length:
  assumes "- 16 \<le> e" and "e < 0"
  shows "u64 (u64 e + (16 - u64 e mod 16)) = 0" and "u32 (u64 e + (16 - u64 e mod 16)) = 0"
proof -
  have u: "u64 e = e + 18446744073709551616"
  proof -
    have "e mod 18446744073709551616 = (e + 18446744073709551616) mod 18446744073709551616" by simp
    also have "\<dots> = e + 18446744073709551616" using assms by (intro mod_pos_pos_trivial) simp_all
    finally show ?thesis by (simp add: u64_def take_bit_eq_mod)
  qed
  have "(e + 18446744073709551616) mod 16 = e + 16"
    using assms by presburger
  then show "u64 (u64 e + (16 - u64 e mod 16)) = 0" and "u32 (u64 e + (16 - u64 e mod 16)) = 0"
    unfolding u by (simp_all add: u64_def u32_def take_bit_eq_mod)
qed

lemma cipher_contract_encrypts:
  assumes "cipher_contract K c E" and "length bs mod 16 = 0"
  shows "\<exists>w'. blk_encrypt_k K t bs w = ((0, E (t_key t) (t_iv t) bs), w') \<and> (\<forall>d. c d w' = c d w)"
  using assms unfolding cipher_contract_def by (elim conjE) simp

lemma returns_clone_encryption_error:
  assumes C: "cipher_contract K c E" and e: "- 16 \<le> e" "e < 0"
    and Q: "\<And>w. (\<And>d. c d w = c d (world s)) \<Longrightarrow> Q ((0, dst, 0), s\<lparr>world := w\<rparr>)"
  shows "returns (clone_encryption K key kl dst src (u64 e) s) Q"
proof -
  obtain v w1 where a: "alloc_blkcipher_k K ''cbc(aes)'' (world s) = (Ptr \<lparr>t_key = None, t_iv = v\<rparr>, w1)"
    and c1: "\<And>d. c d w1 = c d (world s)"
    using C unfolding cipher_contract_def by metis
  have enc: "\<exists>w2. blk_encrypt_k K t [] w1 = ((0, E (t_key t) (t_iv t) []), w2) \<and> (\<forall>d. c d w2 = c d w1)" for t
  proof -
    have "length ([] :: byte list) mod 16 = 0" by simp
    then show ?thesis
      by (rule cipher_contract_encrypts [OF C])
  qed
  show ?thesis
    unfolding clone_encryption_def
    using enc [of "\<lparr>t_key = if blk_setkey_k K (take kl key) = 0 then Some (take kl key) else None,
        t_iv = take (blk_ivsize_k K) (ceph_aes_iv_k K)\<rparr>"] c1
    by (auto simp: Let_def a wrapped_length [OF e] overlay_def intro!: Q)
qed

text \<open>Every read at the start of the file fails with the error \<open>e\<close>, and leaves all files alone.\<close>

definition read_fails :: "'w kernel \<Rightarrow> (nat \<Rightarrow> 'w \<Rightarrow> byte list) \<Rightarrow> nat \<Rightarrow> int \<Rightarrow> bool" where
  "read_fails K c f e \<longleftrightarrow>
     (\<forall>n w. \<exists>pos w'. vfs_read_k K KERNEL_DS f n 0 w = ((e, [], pos), w') \<and> (\<forall>d. c d w' = c d w))"

lemma returns_vfs_read_fails:
  assumes "read_fails K c f e" and "f \<in> set (opened s)" and "addr_limit s = KERNEL_DS"
    and "\<And>pos w. (\<And>d. c d w = c d (world s)) \<Longrightarrow>
      Q ((e, buf, pos), note_event (ReadAt f 0 (nat (u64 len)) e) (s\<lparr>world := w\<rparr>))"
  shows "returns (vfs_read K f buf len 0 s) Q"
proof -
  obtain pos w where "vfs_read_k K KERNEL_DS f (nat (u64 len)) 0 (world s) = ((e, [], pos), w)"
    "\<And>d. c d w = c d (world s)"
    using assms(1) unfolding read_fails_def by metis
  then show ?thesis
    using assms(2-4) by (simp add: vfs_read_def overlay_def)
qed

lemma enc_round_read_fails:
  assumes K: "keeps_files K c" and A: "allocates K" and W: "writes_files K c"
    and C: "cipher_contract K c E" and R: "read_fails K c fr e" and e: "- 16 \<le> e" "e < 0"
    and key: "length (c_str (mem kb)) < length (mem kb)" "bid kb \<in> set (live s)"
    and o: "fr \<in> set (opened s)" "fw \<in> set (opened s)"
  shows "returns (enc_round K fr fw (Some kb) n (0, 0) s) (\<lambda>(r, t). r = Inr (e, 0) \<and>
    live t = live s \<and> opened t = opened s \<and> (\<forall>d. c d (world t) = c d (world s)))"
proof -
  have i: "i32 e = e" "i32 0 = 0" using e by (simp_all add: i32_id)
  have wr: "returns (vfs_write K fw buf 0 0 u) Q"
    if "fw \<in> set (opened u)" "addr_limit u = KERNEL_DS"
      and "\<And>w. (\<And>d. c d w = c d (world u)) \<Longrightarrow> Q ((0, 0), note_event (WroteAt fw 0 [] 0) (u\<lparr>world := w\<rparr>))"
    for buf u Q
    by (rule returns_vfs_write [OF W that(1,2)]) (use that(3) in \<open>simp_all add: write_at_def\<close>)
  show ?thesis
    unfolding enc_round_def
    using key o
    by (auto simp: PAGE_SIZE_def Let_def i intro!: returns_kmalloc [OF K A] returns_vfs_read_fails [OF R] wr
        returns_clone_encryption_error [OF C e] returns_rules)
qed

text \<open>
  C35. A failing read loses the file: when the first read of a file of one piece fails with an error
  between -16 and -1 (\<open>-EIO\<close>, \<open>-EAGAIN\<close>, \<open>-EFAULT\<close>), its negative result becomes the length of the
  text to encrypt, and the length wraps around to 0 with the padding; nothing is written to the
  trash file, the input is unlinked all the same, and the result of that is returned.
\<close>

theorem processencryption_read_error_loses_file:
  assumes "trash_setup K c name fr path lo ''.enc'' fw" and "writes_files K c"
    and "cipher_contract K c E" and "read_fails K c fr e" and "- 16 \<le> e" and "e < 0"
    and "\<And>d w. i_size_k K d w = int (length (c d w))"
    and "c (f_dentry_k K fr) (world s) \<noteq> []" and "length (c (f_dentry_k K fr) (world s)) \<le> piece_size"
    and "length (c_str (mem kb)) < length (mem kb)" and "bid kb \<in> set (live s)" and "bid kb < next_id s"
  shows "returns (processencryption K (Some name) (Some kb) s) (\<lambda>(r, t).
    c (f_dentry_k K fw) (world t) = c (f_dentry_k K fw) (world s) \<and>
    (\<exists>evs dir. trace t = evs @ [Closed fr, DirLocked dir, Unlinked dir (f_dentry_k K fr) r,
        DirUnlocked dir, Closed fw]))"
proof (rule returns_mono, rule processencryption_upto_loop [OF assms(1,10-12),
      where P = "\<lambda>x. x = c (f_dentry_k K fw) (world s)"], goal_cases)
  case (1 u w)
  have K: "keeps_files K c" and A: "allocates K" using assms(1) by (simp_all add: trash_setup_def)
  let ?n = "int (length (c (f_dentry_k K fr) (world s)))"
  have size: "i32 (i_size_k K (f_dentry_k K fr) w) = ?n"
    using 1(4) assms(9) by (simp add: assms(7) i32_id piece_size_def)
  have n: "0 < ?n" "min ?n (PAGE_SIZE - 16) = ?n"
    using assms(8,9) by (simp_all add: PAGE_SIZE_def piece_size_def)
  have "returns (enc_round K fr fw (Some kb) ?n (0, 0) u) (\<lambda>(r, t). r = Inr (e, 0) \<and>
      live t = live u \<and> opened t = opened u \<and> (\<forall>d. c d (world t) = c d (world u)))"
    by (rule enc_round_read_fails [OF K A assms(2-6,10) 1(3)]) (simp_all add: 1(2))
  then have "returns (enc_loop K fr fw (Some kb) ?n (0, 0) u) (\<lambda>(early, t). early = None \<and>
      live t = live u \<and> opened t = opened u \<and> (\<forall>d. c d (world t) = c d (world u)))"
    unfolding enc.go [OF n(1)] n(2) by (auto simp: enc.stop elim!: returns_mono)
  then show ?case
    unfolding size by (rule returns_mono) (use 1(1) in auto)
qed auto

text \<open>
  On a full disk nothing of the cipher text is stored either, and the input is unlinked: every round
  goes on, whatever its write answers.
\<close>

lemma enc_round_disk_full:
  assumes F: "reads_files K c" and K: "keeps_files K c" and A: "allocates K"
    and C: "cipher_contract K c E" and D: "disk_full K c"
    and key: "length (c_str (mem kb)) < length (mem kb)" "bid kb \<in> set (live s)"
    and o: "fr \<in> set (opened s)" "fw \<in> set (opened s)"
    and src: "c (f_dentry_k K fr) (world s) = src" "r \<le> length src" "length src < 2147483648"
    and ne: "drop r src \<noteq> []"
  shows "returns (enc_round K fr fw (Some kb) (int (length (take piece_size (drop r src)))) (int r, wp) s)
    (\<lambda>(x, t). \<exists>wp'. x = Inr (int (r + length (take piece_size (drop r src))), wp') \<and>
      live t = live s \<and> opened t = opened s \<and> (\<forall>d. c d (world t) = c d (world s)))"
proof -
  define p where "p = take piece_size (drop r src)"
  define ct where "ct = cipher_text K E (c_str (mem kb)) p"
  have p: "length p \<le> 4080" "p = take (length p) (drop r src)" "length p + r \<le> length src"
    using src(2) by (auto simp: p_def piece_size_def min_def)
  have pad: "length (pkcs_pad p) \<le> 4096" using p(1) by (simp add: pkcs_pad_length)
  have ct: "length ct = length (pkcs_pad p)" "length ct \<le> 4096" "ct \<noteq> []"
    using pad cipher_text_length [OF C, of "c_str (mem kb)" p]
    by (auto simp: ct_def pkcs_pad_length)
  have i: "i32 (int (length p)) = int (length p)" "i32 (int r + int (length p)) = int r + int (length p)"
      "u64 (int (length p)) = int (length p)" "i32 (int (length ct)) = int (length ct)"
      "nat (u64 (int (length ct))) = length ct"
    using p src(3) ct(2) by (simp_all add: i32_id u64_id)
  have rd: "returns (vfs_read K fr buf (int (length p)) (int r) u) Q"
    if "c (f_dentry_k K fr) (world u) = src" "fr \<in> set (opened u)" "addr_limit u = KERNEL_DS"
      "length buf = 4096"
      and "\<And>w. (\<And>d. c d w = c d (world u)) \<Longrightarrow> Q ((int (length p), overlay buf 0 p, int r + int (length p)),
        note_event (ReadAt fr (int r) (length p) (int (length p))) (u\<lparr>world := w\<rparr>))"
    for buf u Q
    by (rule returns_vfs_read [OF F that(2,3)])
      (use that p in \<open>simp_all flip: p(2)\<close>)
  have en: "returns (clone_encryption K (mem kb) (length (c_str (mem kb))) dst (overlay buf 0 p) (int (length p)) u) Q"
    if "length dst = 4096" "length buf = 4096"
      and "\<And>w. (\<And>d. c d w = c d (world u)) \<Longrightarrow>
        Q ((0, overlay dst 0 ct, int (length ct)), u\<lparr>world := w\<rparr>)"
    for dst buf u Q
    by (rule returns_clone_encryption [OF C refl])
      (use that p pad in \<open>simp_all add: length_overlay ct(1) [unfolded ct_def] ct_def take_c_str\<close>)
  have wr: "returns (vfs_write K fw (overlay dst 0 ct) (int (length ct)) wp u) Q"
    if "fw \<in> set (opened u)" "addr_limit u = KERNEL_DS" "length dst = 4096"
      and "\<And>e q w. (\<And>d. c d w = c d (world u)) \<Longrightarrow>
        Q ((e, q), note_event (WroteAt fw wp ct e) (u\<lparr>world := w\<rparr>))"
    for dst u Q
  proof -
    have "take (length ct) (overlay dst 0 ct) = ct" by (rule take_overlay_0)
    moreover obtain e q w where "vfs_write_k K KERNEL_DS fw ct wp (world u) = ((e, q), w)"
      "\<And>d. c d w = c d (world u)"
      using disk_fullD [OF D ct(3)] by metis
    ultimately show ?thesis
      using that ct(2) by (simp add: vfs_write_def i length_overlay)
  qed
  show ?thesis
    unfolding enc_round_def p_def [symmetric]
    using key o ct(2)
    by (auto simp: src(1) i PAGE_SIZE_def Let_def intro!: returns_kmalloc [OF K A] rd en wr returns_rules)
qed

text \<open>
  C36. On a full disk, where a write stores nothing and answers with an error, \<open>processencryption\<close>
  loses the file: the results of the writes only move the write position, the trash file receives
  nothing, and the input is unlinked and the result of that returned.
\<close>

theorem processencryption_full_disk_loses_file:
  assumes "trash_setup K c name fr path lo ''.enc'' fw" and "reads_files K c" and "disk_full K c"
    and "cipher_contract K c E" and "\<And>d w. i_size_k K d w = int (length (c d w))"
    and "c (f_dentry_k K fr) (world s) \<noteq> []" and "length (c (f_dentry_k K fr) (world s)) < 2147483648"
    and "length (c_str (mem kb)) < length (mem kb)" and "bid kb \<in> set (live s)" and "bid kb < next_id s"
  shows "returns (processencryption K (Some name) (Some kb) s) (\<lambda>(r, t).
    c (f_dentry_k K fw) (world t) = c (f_dentry_k K fw) (world s) \<and>
    (\<exists>evs dir. trace t = evs @ [Closed fr, DirLocked dir, Unlinked dir (f_dentry_k K fr) r,
        DirUnlocked dir, Closed fw]))"
proof (rule returns_mono, rule processencryption_upto_loop [OF assms(1,8-10),
      where P = "\<lambda>x. x = c (f_dentry_k K fw) (world s)"], goal_cases)
  case (1 u w)
  have K: "keeps_files K c" and A: "allocates K" using assms(1) by (simp_all add: trash_setup_def)
  define src where "src = c (f_dentry_k K fr) (world s)"
  have size: "i32 (i_size_k K (f_dentry_k K fr) w) = int (length src)"
    using 1(4) assms(7) by (simp add: assms(5) i32_id src_def)
  define J :: "byte list \<Rightarrow> int \<times> int \<Rightarrow> 'a kst \<Rightarrow> bool" where
    "J xs pos t \<longleftrightarrow> (\<exists>r wp. pos = (int r, wp) \<and> drop r src = xs \<and> r \<le> length src) \<and>
      live t = live u \<and> opened t = opened u \<and> (\<forall>d. c d (world t) = c d (world u))" for xs pos t
  have "returns (enc_loop K fr fw (Some kb) (int (length src)) (0, 0) u)
      (\<lambda>(early, t). \<exists>pos. early = None \<and> J [] pos t)"
  proof (rule enc.loop_returns [where J = J])
    fix xs pos t
    assume J: "J xs pos t" and ne: "xs \<noteq> []"
    then obtain r wp where r: "pos = (int r, wp)" "drop r src = xs" "r \<le> length src"
      unfolding J_def by blast
    have t: "bid kb \<in> set (live t)" "fr \<in> set (opened t)" "fw \<in> set (opened t)"
        "c (f_dentry_k K fr) (world t) = src"
      using J 1 by (simp_all add: src_def J_def)
    have "returns (enc_round K fr fw (Some kb) (int (length (take piece_size xs))) pos t)
      (\<lambda>(x, v). \<exists>wp'. x = Inr (int (r + length (take piece_size xs)), wp') \<and>
        live v = live t \<and> opened v = opened t \<and> (\<forall>d. c d (world v) = c d (world t)))"
      unfolding r(1) r(2) [symmetric]
      by (rule enc_round_disk_full [OF assms(2) K A assms(4,3,8) t(1-4) r(3)])
        (use assms(7) ne r(2) in \<open>simp_all add: src_def\<close>)
    moreover have "drop (r + length (take piece_size xs)) src = drop piece_size xs"
        "r + length (take piece_size xs) \<le> length src"
      using r(2,3) by (auto simp: min_def add.commute)
    ultimately show "returns (enc_round K fr fw (Some kb) (int (length (take piece_size xs))) pos t)
        (\<lambda>(x, v). \<exists>pos'. x = Inr pos' \<and> J (drop piece_size xs) pos' v)"
      using J unfolding J_def by (elim returns_mono) (auto simp del: length_take of_nat_add)
  qed (simp add: J_def)
  then show ?case
    unfolding size by (rule returns_mono) (use 1(1) in \<open>auto simp: J_def\<close>)
qed auto

text \<open>
  The key is stored in the clear: on every kernel, when \<open>processencryption\<close> has unlinked its
  input, it has before set the extended attribute \<open>user.key_store\<close> to the key itself.
\<close>

theorem processencryption_exposes_key:
  assumes "\<forall>i\<in>set (live s). i < next_id s"
  shows "safely (processencryption K name (Some kb) s) (\<lambda>(r, t). \<exists>evs. trace t = trace s @ evs \<and>
    ((\<forall>d v q. Unlinked d v q \<notin> set evs) \<or>
     (\<exists>e q xs ys. evs = xs @ XattrSet e ''user.key_store'' (c_str (mem kb)) q # ys \<and>
        (\<forall>d v q. Unlinked d v q \<notin> set xs))))"
proof -
  let ?n = "next_id s"
  have ids: "i < Suc (Suc (Suc (Suc ?n)))" "i < Suc (Suc (Suc (Suc (Suc ?n))))" if "i \<in> set (live s)" for i
    using assms that by fastforce+
  have tr: "Unlinked d v q \<notin> set evs" if "\<forall>e\<in>set evs. is_transfer e" for evs d v q
    using that by auto
  have ex: "\<exists>e q xs. (\<exists>ys. Opened a b c # Opened a' b' c' #
      XattrSet d ''user.key_store'' (take (length (c_str (mem kb))) (mem kb)) r # zs =
      xs @ XattrSet e ''user.key_store'' (c_str (mem kb)) q # ys) \<and> (\<forall>d v q. Unlinked d v q \<notin> set xs)"
    for a b c a' b' c' d r zs
    by (intro exI [of _ d] exI [of _ r] exI [of _ "[Opened a b c, Opened a' b' c']"])
      (simp add: take_c_str)
  show ?thesis
    unfolding processencryption_def
    by (auto simp: exec_simps safely_iff [of name] not_bad_ptr transfers_def ids tr
      intro!: frame_rules safely_enc_loop ex)
qed

text \<open>
  What an encryption leaves behind when it returns \<open>r\<close> in the state \<open>t\<close>, one line for each way out:
  the input did not open; a name buffer could not be allocated; the trash file did not open; the
  cipher could not be allocated; the end was reached.
\<close>

definition enc_leaves :: "cbuf \<Rightarrow> 'w kst \<Rightarrow> int \<Rightarrow> 'w kst \<Rightarrow> bool" where
  "enc_leaves kb s r t \<longleftrightarrow> (let n = next_id s; rest = remove1 (bid kb) (live s) in
     (r = - EPERM \<and> opened t = opened s \<and> live t = live s) \<or>
     (\<exists>fr. r = - ENOMEM \<and> opened t = fr # opened s \<and> live t \<in> {live s, n # live s, (n + 1) # n # live s}) \<or>
     (\<exists>fr. opened t = fr # opened s \<and> live t = [n + 3, n + 2, n + 1, n] @ live s) \<or>
     (\<exists>fr fw. r < 0 \<and> opened t = fw # fr # opened s \<and>
        live t \<in> {[n + 3, n + 2, n + 1, n] @ rest, [n + 4, n + 3, n + 2, n + 1, n] @ rest}) \<or>
     (opened t = opened s \<and> live t \<in> {[n + 2, n + 1, n] @ rest, [n + 4, n + 2, n + 1, n] @ rest}))"

text \<open>
  C24. The whole of \<open>processencryption\<close> on every kernel: the ways it can return, with what it leaves
  open and allocated. Only a failing open of the input is clean; every error behind it leaves the
  input open, a failing open of the trash file or of the cipher keeps four or five buffers, and
  success itself keeps the buffers \<open>replace\<close>, \<open>filename\<close>, \<open>path\<close> and \<open>key_store\<close>. The global \<open>enc_key\<close>
  is never cleared, although the key it points to has been freed.
\<close>

theorem processencryption_outcomes:
  assumes "\<forall>i\<in>set (live s). i < next_id s" and "bid kb < next_id s"
  shows "safely (processencryption K name (Some kb) s) (\<lambda>(r, t).
    enc_key t = enc_key s \<and> enc_leaves kb s r t)"
proof -
  let ?n = "next_id s"
  have kb: "bid kb \<noteq> ?n" "bid kb \<noteq> Suc ?n" "bid kb \<noteq> Suc (Suc ?n)" "bid kb \<noteq> Suc (Suc (Suc ?n))"
    "bid kb \<noteq> Suc (Suc (Suc (Suc ?n)))"
    using assms(2) by simp_all
  have ids: "i < Suc (Suc (Suc (Suc ?n)))" "i < Suc (Suc (Suc (Suc (Suc ?n))))" if "i \<in> set (live s)" for i
    using assms(1) that by fastforce+
  have out: "Suc (Suc (Suc ?n)) \<notin> set (live s)" using assms(1) by fastforce
  show ?thesis
    unfolding processencryption_def
    using kb kb [symmetric] out
    by (auto simp: exec_simps safely_iff [of name] not_bad_ptr transfers_def ids
      intro!: frame_rules safely_enc_loop) (auto simp: enc_leaves_def Let_def)
qed

subsection \<open>Witnesses\<close>

definition demo_key :: cbuf where
  "demo_key = \<lparr>bid = 0, mem = ''0123456789abcdef'' @ [NUL]\<rparr>"

definition demo_short_key :: cbuf where
  "demo_short_key = \<lparr>bid = 0, mem = ''1789'' @ [NUL]\<rparr>"

definition demo_keyed :: "cbuf \<Rightarrow> mem_fs \<Rightarrow> mem_fs kst" where
  "demo_keyed kb w = (demo_state w)\<lparr>live := [bid kb], next_id := Suc (bid kb), enc_key := Some kb\<rparr>"

definition demo_cipher :: cipher where
  "demo_cipher k iv bs = (if k = None then bs else rev bs)"

lemma demo_keyed_sel [simp]:
  "world (demo_keyed kb w) = w" "live (demo_keyed kb w) = [bid kb]" "next_id (demo_keyed kb w) = Suc (bid kb)"
  "enc_key (demo_keyed kb w) = Some kb" "opened (demo_keyed kb w) = []" "trace (demo_keyed kb w) = []"
  by (simp_all add: demo_keyed_def)

lemma demo_trash_setup: "NUL \<notin> set suffix \<Longrightarrow> length suffix < 4000 \<Longrightarrow>
  trash_setup demo_kernel (\<lambda>d w. w d) ''/a'' 1 ''/a'' [] suffix 2"
proof -
  assume "NUL \<notin> set suffix" "length suffix < 4000"
  moreover have "demo_file (''/usr'' @ [] @ st @ flat_path ''/a'' @ suffix) = 2" for st
    by (simp add: demo_file_def)
  moreover have "leftover [] = []"
    by (simp add: leftover_def resize_def PATH_MAX_def)
  ultimately show ?thesis
    using demo_fs_contract demo_allocates demo_clock
    by (simp add: trash_setup_def fs_contract_def opens_as_def demo_kernel_def demo_file_def PATH_MAX_def)
qed

lemma demo_cipher_contract: "cipher_contract demo_kernel (\<lambda>d w. w d) demo_cipher"
  by (auto simp: cipher_contract_def demo_kernel_def demo_cipher_def)

lemma demo_enc_setup:
  assumes "length (c_str (mem kb)) < length (mem kb)" and "length (w 1) < 2139000000"
  shows "enc_setup demo_kernel (\<lambda>d w. w d) demo_cipher ''/a'' 1 ''/a'' [] 2 kb (demo_keyed kb w)"
proof -
  have "trash_setup demo_kernel (\<lambda>d w. w d) ''/a'' 1 ''/a'' [] ''.enc'' 2"
    by (rule demo_trash_setup) simp_all
  then show ?thesis
    using assms demo_fs_contract demo_cipher_contract
    by (simp add: enc_setup_def) (simp add: demo_kernel_def)
qed

lemma demo_key_terminated: "length (c_str (mem demo_key)) < length (mem demo_key)"
  and demo_short_key_terminated: "length (c_str (mem demo_short_key)) < length (mem demo_short_key)"
  by (simp_all add: demo_key_def demo_short_key_def c_str_def)

lemma demo_creates: "creates demo_kernel"
  by (simp add: creates_def demo_kernel_def)

theorem processencryption_encrypts_witness:
  "returns (processencryption demo_kernel (Some ''/a'') (Some demo_key)
     (demo_keyed demo_key ((\<lambda>d. [])(1 := ''secret'')))) (\<lambda>(r, t).
     world t 2 = enc_text demo_kernel demo_cipher (c_str (mem demo_key)) ''secret'')"
  by (rule returns_mono, rule processencryption_encrypts, rule demo_enc_setup, rule demo_key_terminated)
    (auto simp: demo_kernel_def)

theorem processencryption_roundtrip_witness:
  "returns (processencryption demo_kernel (Some ''/a'') (Some demo_key)
     (demo_keyed demo_key ((\<lambda>d. [])(1 := ''secret'')))) (\<lambda>(r, t).
     dec_text demo_cipher (set_key demo_kernel (c_str (mem demo_key))) (start_iv demo_kernel) (world t 2) =
       ''secret'')"
  by (rule returns_mono, rule processencryption_roundtrip, rule demo_enc_setup, rule demo_key_terminated)
    (auto simp: demo_kernel_def demo_cipher_def)

theorem processencryption_invalid_key_witness:
  "returns (processencryption demo_kernel (Some ''/a'') (Some demo_short_key)
     (demo_keyed demo_short_key ((\<lambda>d. [])(1 := ''secret'')))) (\<lambda>(r, t).
     world t 2 = ''secret'' @ replicate 10 (char_of (10 :: nat)))"
proof -
  have "blk_setkey_k demo_kernel (c_str (mem demo_short_key)) \<noteq> 0"
    by (simp add: demo_kernel_def demo_short_key_def c_str_def)
  from processencryption_invalid_key [OF demo_enc_setup [OF demo_short_key_terminated] this,
      of "(\<lambda>d. [])(1 := ''secret'')"]
  show ?thesis
    by (simp add: demo_kernel_def demo_cipher_def pieces_step piece_size_def pkcs_pad_def)
qed

theorem processencryption_stale_key_witness:
  "returns (processencryption demo_kernel (Some ''/a'') (Some demo_key)
     (demo_keyed demo_key ((\<lambda>d. [])(1 := ''secret'')))) (\<lambda>(r, t).
     processencryption demo_kernel (Some ''/b'') (enc_key t) t = None)"
proof -
  have "opens_as demo_kernel ''/b'' O_RDONLY 0 2"
    by (simp add: opens_as_def demo_kernel_def demo_file_def)
  from processencryption_stale_key [OF demo_enc_setup [OF demo_key_terminated] _ this demo_creates,
      of "(\<lambda>d. [])(1 := ''secret'')"]
  show ?thesis by (auto elim: returns_mono)
qed

theorem processencryption_large_file_lost_witness:
  "returns (processencryption demo_kernel (Some ''/a'') (Some demo_key)
     (demo_keyed demo_key ((\<lambda>d. [])(1 := replicate 3000000000 NUL)))) (\<lambda>(r, t). world t 2 = [])"
proof -
  have d: "f_dentry_k demo_kernel f = f" for f by (simp add: demo_kernel_def)
  have n: "NUL \<notin> set ''.enc''" "length ''.enc'' < 4000" by simp_all
  show ?thesis
    by (rule returns_mono, rule processencryption_large_file_lost
          [OF demo_trash_setup [OF n] demo_fs_contract demo_key_terminated])
      (auto simp: d)
qed

definition demo_failing_read :: "mem_fs kernel" where
  "demo_failing_read = demo_kernel\<lparr>vfs_read_k := (\<lambda>seg f n pos w.
     if pos = 0 then ((- 5, [], pos), w) else demo_read seg f n pos w)\<rparr>"

definition demo_full_disk :: "mem_fs kernel" where
  "demo_full_disk = demo_kernel\<lparr>vfs_write_k := (\<lambda>seg f bs pos w.
     ((if bs = [] then 0 else if pos < 0 then - 22 else - 28, pos), w))\<rparr>"

lemma demo_broken_disk:
  "trash_setup demo_failing_read (\<lambda>d w. w d) ''/a'' 1 ''/a'' [] ''.enc'' 2"
  "trash_setup demo_full_disk (\<lambda>d w. w d) ''/a'' 1 ''/a'' [] ''.enc'' 2"
  "writes_files demo_failing_read (\<lambda>d w. w d)" "reads_files demo_full_disk (\<lambda>d w. w d)"
  "cipher_contract demo_failing_read (\<lambda>d w. w d) demo_cipher"
  "cipher_contract demo_full_disk (\<lambda>d w. w d) demo_cipher"
  using demo_trash_setup [of "''.enc''"] demo_fs_contract demo_cipher_contract
  by (simp_all add: demo_failing_read_def demo_full_disk_def trash_setup_def fs_contract_def
      keeps_files_def allocates_def clock_contract_def opens_as_def writes_files_def reads_files_def
      cipher_contract_def)

theorem processencryption_read_error_loses_file_witness:
  "returns (processencryption demo_failing_read (Some ''/a'') (Some demo_key)
     (demo_keyed demo_key ((\<lambda>d. [])(1 := ''secret'')))) (\<lambda>(r, t). world t 2 = [])"
proof -
  have "read_fails demo_failing_read (\<lambda>d w. w d) 1 (- 5)"
    by (simp add: read_fails_def demo_failing_read_def)
  from processencryption_read_error_loses_file [OF demo_broken_disk(1,3,5) this _ _ _ _ _ demo_key_terminated]
  show ?thesis
    by (rule returns_mono) (auto simp: demo_failing_read_def demo_kernel_def piece_size_def)
qed

theorem processencryption_full_disk_loses_file_witness:
  "returns (processencryption demo_full_disk (Some ''/a'') (Some demo_key)
     (demo_keyed demo_key ((\<lambda>d. [])(1 := ''secret'')))) (\<lambda>(r, t). world t 2 = [])"
proof -
  have "disk_full demo_full_disk (\<lambda>d w. w d)"
    by (simp add: disk_full_def demo_full_disk_def)
  from processencryption_full_disk_loses_file [OF demo_broken_disk(2,4) this demo_broken_disk(6) _ _ _ demo_key_terminated]
  show ?thesis
    by (rule returns_mono) (auto simp: demo_full_disk_def demo_kernel_def)
qed

theorem processencryption_exposes_key_witness:
  "safely (processencryption demo_kernel (Some ''/a'') (Some demo_key)
     (demo_keyed demo_key ((\<lambda>d. [])(1 := ''secret'')))) (\<lambda>(r, t). \<exists>evs. trace t = evs \<and>
    ((\<forall>d v q. Unlinked d v q \<notin> set evs) \<or>
     (\<exists>e q xs ys. evs = xs @ XattrSet e ''user.key_store'' (c_str (mem demo_key)) q # ys)))"
  by (rule safely_mono, rule processencryption_exposes_key) auto

theorem processencryption_outcomes_witness:
  "safely (processencryption demo_kernel (Some ''/a'') (Some demo_key)
     (demo_keyed demo_key ((\<lambda>d. [])(1 := ''secret''))))
     (\<lambda>(r, t). enc_key t = Some demo_key)"
  by (rule safely_mono, rule processencryption_outcomes) auto

end
