(* ===== verification/Compress.thy ===== *)
theory Compress
  imports Encrypt
begin

text \<open>
  \<open>compress_buffer\<close>, \<open>compress_file\<close> and \<open>processcompress\<close> of \<open>sys_xclone2.c\<close>: the input is read in
  pieces of \<open>PAGE_SIZE - 16\<close> bytes, each is compressed, and a header and the compressed bytes are
  meant to be written behind the ones before. The header is \<open>snprintf\<close> into four bytes, the bytes
  written are \<open>sizeof\<close> a pointer, the capacity passed is a pointer cut to an \<open>int\<close>, and the write
  position advances by the second write only.
\<close>

subsection \<open>Code\<close>

definition compress_buffer ::
  "'w kernel \<Rightarrow> byte list \<Rightarrow> int \<Rightarrow> byte list \<Rightarrow> int \<Rightarrow> 'w kst \<Rightarrow> ((int \<times> byte list) \<times> 'w kst) option" where
  "compress_buffer K in_buf in_len out_buf out_len s = do {
     let (tfm, w) = alloc_comp_k K ''deflate'' (world s);
     let s = s\<lparr>world := w\<rparr>;
     t \<leftarrow> deref tfm;
     if length in_buf < nat (u32 in_len) then None
     else do {
       let ((err, out, out_len), w) =
         comp_compress_k K t (take (nat (u32 in_len)) in_buf) (u32 out_len) (world s);
       let s = s\<lparr>world := w\<rparr>;
       if length out_buf < length out then None
       else if err < 0 then Some ((- 1, overlay out_buf 0 out), s)
       else Some ((i32 out_len, overlay out_buf 0 out), s)
     }
   }"

text \<open>\<open>snprintf\<close> of a number into a buffer: the digits that fit, then a NUL.\<close>

definition c_snprintf_d :: "byte list \<Rightarrow> int \<Rightarrow> byte list" where
  "c_snprintf_d buf x = overlay buf 0 (take (length buf - 1) (fmt_d x) @ [NUL])"

definition sizeof_ptr :: int where "sizeof_ptr = 8"

type_synonym zip_pos = "int \<times> int \<times> int \<times> byte list"

definition zip_round ::
  "'w kernel \<Rightarrow> nat \<Rightarrow> nat \<Rightarrow> int \<Rightarrow> int \<Rightarrow> zip_pos \<Rightarrow> 'w kst \<Rightarrow> ((int + zip_pos) \<times> 'w kst) option" where
  "zip_round K f_read f_write out_len temp_size pos s = do {
     let (curr_read_size, curr_write_size, err, tei) = pos;
     (buff3, s) \<leftarrow> kmalloc K (nat PAGE_SIZE) s;
     (buff4, s) \<leftarrow> kmalloc K (nat PAGE_SIZE) s;
     let s = set_fpos f_read curr_read_size s;
     let oldfs1 = addr_limit s;
     let s = set_fs KERNEL_DS s;
     m3 \<leftarrow> buf_area buff3 s;
     ((ret1, m3, pos1), s) \<leftarrow> vfs_read_ptr K f_read buff3 m3 temp_size (fpos s f_read) s;
     let s = set_fpos f_read pos1 s;
     let bytes1 = i32 ret1;
     let s = set_fs oldfs1 s;
     m4 \<leftarrow> buf_area buff4 s;
     ((err, m4), s) \<leftarrow> compress_buffer K m3 bytes1 m4 out_len s;
     if err < 0 then do {
       (_, s) \<leftarrow> kfree buff3 s;
       (_, s) \<leftarrow> kfree buff4 s;
       Some (Inl err, s)
     }
     else do {
       let s = set_fpos f_write curr_write_size s;
       let oldfs2 = addr_limit s;
       let s = set_fs KERNEL_DS s;
       let tei = c_snprintf_d tei err;
       ((ret2, pos2), s) \<leftarrow> vfs_write K f_write tei 4 (fpos s f_write) s;
       let s = set_fpos f_write pos2 s;
       ((ret2, pos2), s) \<leftarrow> vfs_write_ptr K f_write buff4 m4 sizeof_ptr (fpos s f_write) s;
       let s = set_fpos f_write pos2 s;
       let bytes2 = i32 ret2;
       let s = set_fs oldfs2 s;
       (_, s) \<leftarrow> kfree buff3 s;
       (_, s) \<leftarrow> kfree buff4 s;
       Some (Inr (i32 (curr_read_size + bytes1), i32 (curr_write_size + bytes2), err, tei), s)
     }
   }"

function zip_loop ::
  "'w kernel \<Rightarrow> nat \<Rightarrow> nat \<Rightarrow> int \<Rightarrow> int \<Rightarrow> zip_pos \<Rightarrow> 'w kst \<Rightarrow> (int \<times> 'w kst) option" where
  "zip_loop K f_read f_write out_len fsize pos s =
     (if 0 < fsize then do {
        let temp_size = (if fsize > PAGE_SIZE - 16 then PAGE_SIZE - 16 else fsize);
        let fsize = (if fsize > PAGE_SIZE - 16 then fsize - temp_size else 0);
        (r, s) \<leftarrow> zip_round K f_read f_write out_len temp_size pos s;
        (case r of
           Inl err \<Rightarrow> Some (err, s)
         | Inr pos \<Rightarrow> zip_loop K f_read f_write out_len fsize pos s)
      }
      else Some (fst (snd (snd pos)), s))"
  by pat_completeness auto
termination
  by (relation "measure (\<lambda>(K, fr, fw, out_len, fsize, pos, s). nat fsize)") (auto simp: PAGE_SIZE_def)

declare zip_loop.simps [simp del]

interpretation zip: chunked_loop "zip_loop K fr fw out_len" "zip_round K fr fw out_len"
  "\<lambda>pos. fst (snd (snd pos))"
proof unfold_locales
  fix fsize :: int and pos :: zip_pos and s :: "'a kst"
  show "zip_loop K fr fw out_len fsize pos s = Some (fst (snd (snd pos)), s)" if "fsize \<le> 0"
    using that by (subst zip_loop.simps) simp
  show "zip_loop K fr fw out_len fsize pos s =
      Option.bind (zip_round K fr fw out_len (min fsize (PAGE_SIZE - 16)) pos s) (\<lambda>(r, s).
        case r of Inl e \<Rightarrow> Some (e, s)
        | Inr pos \<Rightarrow> zip_loop K fr fw out_len (fsize - min fsize (PAGE_SIZE - 16)) pos s)" if "0 < fsize"
    unfolding zip_loop.simps [of K fr fw out_len fsize] Let_def chunk_size if_P [OF that] by (rule refl)
qed

text \<open>The pointer \<open>kmalloc\<close> returns is stored in an \<open>int\<close> and later passed as a capacity.\<close>

definition ptr_as_int :: "'w kernel \<Rightarrow> cbuf option \<Rightarrow> int" where
  "ptr_as_int K p = (case p of None \<Rightarrow> 0 | Some b \<Rightarrow> i32 (ptr_bits_k K (bid b)))"

definition compress_file :: "'w kernel \<Rightarrow> nat \<Rightarrow> nat \<Rightarrow> 'w kst \<Rightarrow> (int \<times> 'w kst) option" where
  "compress_file K f_read f_write s = do {
     let tei = resize 4 (stack_garbage_k K 4);
     (p, s) \<leftarrow> kmalloc K 4 s;
     let out_len = ptr_as_int K p;
     let fsize = i32 (i_size_k K (f_dentry_k K f_read) (world s));
     zip_loop K f_read f_write out_len fsize (0, 0, 0, tei) s
   }"

definition processcompress :: "'w kernel \<Rightarrow> string option \<Rightarrow> 'w kst \<Rightarrow> (int \<times> 'w kst) option" where
  "processcompress K file_name s = do {
     (replace, s) \<leftarrow> kmalloc K PATH_MAX s;
     if replace = None then Some (- ENOMEM, s)
     else do {
       (filename, s) \<leftarrow> kmalloc K PATH_MAX s;
       if filename = None then Some (- ENOMEM, s)
       else do {
         (path, s) \<leftarrow> kmalloc K PATH_MAX s;
         if path = None then Some (- ENOMEM, s)
         else do {
           ((trashbinfolder_filename, m), s) \<leftarrow> name_prefix K s;
           name \<leftarrow> file_name;
           (f_read, s) \<leftarrow> file_open K name O_RDONLY 0 s;
           if bad_ptr f_read then Some (- EPERM, s)
           else do {
             fr \<leftarrow> deref f_read;
             m \<leftarrow> name_finish K fr filename m [''.cmp''] s;
             (f_write, s) \<leftarrow> file_open K (c_str m) (O_WRONLY OR O_CREAT) 420 s;
             if bad_ptr f_write then Some (- ptr_err f_write, s)
             else do {
               fw \<leftarrow> deref f_write;
               (zip_err, s) \<leftarrow> compress_file K fr fw s;
               (err, s) \<leftarrow> close_and_unlink K fr s;
               (_, s) \<leftarrow> file_close K fw s;
               (_, s) \<leftarrow> kfree trashbinfolder_filename s;
               Some (0, s)
             }
           }
         }
       }
     }
   }"

subsection \<open>For every kernel\<close>

lemma safely_compress_buffer [frame_rules]:
  assumes "\<And>r m w. length m = length out_buf \<Longrightarrow> Q ((r, m), s\<lparr>world := w\<rparr>)"
  shows "safely (compress_buffer K in_buf in_len out_buf out_len s) Q"
  using assms
  by (auto simp: compress_buffer_def exec_simps Let_def length_overlay split: prod.split)

definition zip_kept :: "'w kst \<Rightarrow> 'w kst \<Rightarrow> bool" where
  "zip_kept s t \<longleftrightarrow> transfers s t \<and> live t = live s"

lemma zip_round_kept:
  assumes "zip_kept s0 s"
  shows "safely (zip_round K fr fw out_len n pos s) (\<lambda>(r, t).
    case r of Inl e \<Rightarrow> e < 0 \<and> zip_kept s0 t | Inr pos \<Rightarrow> zip_kept s0 t)"
  unfolding zip_round_def Let_def
  using assms
  by (auto simp: safely_kmalloc safely_kfree_opt safely_buf_bytes safely_if zip_kept_def
      intro!: transfers_read transfers_write transfers_area safely_compress_buffer split: prod.split)
    (auto simp: transfers_def)

lemma safely_zip_loop:
  assumes "\<And>r t. transfers s t \<Longrightarrow> live t = live s \<Longrightarrow> Q (r, t)"
  shows "safely (zip_loop K fr fw out_len fsize pos s) Q"
proof -
  have "safely (zip_loop K fr fw out_len fsize pos s)
      (\<lambda>(r, t). (r < 0 \<and> zip_kept s t) \<or> (\<exists>a. r = fst (snd (snd a)) \<and> zip_kept s t))"
    using zip.loop_invariant [where E = "\<lambda>e t. e < 0 \<and> zip_kept s t" and I = "\<lambda>a. zip_kept s",
        OF zip_round_kept]
    by (simp add: zip_kept_def transfers_def)
  then show ?thesis
    by (rule safely_mono) (use assms in \<open>auto simp: zip_kept_def\<close>)
qed

lemma safely_compress_file [frame_rules]:
  assumes "\<And>r t. transfers s t \<Longrightarrow> live t = live s \<Longrightarrow> Q (r, t)"
    and "\<And>r t. transfers s t \<Longrightarrow> live t = next_id s # live s \<Longrightarrow> Suc (next_id s) \<le> next_id t \<Longrightarrow> Q (r, t)"
  shows "safely (compress_file K fr fw s) Q"
  unfolding compress_file_def Let_def
  using assms
  by (auto simp: exec_simps transfers_def intro!: safely_zip_loop)

subsection \<open>What the compressor's documentation promises\<close>

text \<open>
  \<open>Z bs\<close> is the compressed form of \<open>bs\<close>, for a piece not longer than a page. The compressor gives
  it when it fits the capacity it is told, and otherwise fails (\<open>-EINVAL\<close>) having written no more
  than the capacity. Compressing touches no file.
\<close>

definition comp_contract :: "'w kernel \<Rightarrow> (nat \<Rightarrow> 'w \<Rightarrow> byte list) \<Rightarrow> (byte list \<Rightarrow> byte list) \<Rightarrow> bool" where
  "comp_contract K c Z \<longleftrightarrow>
     (\<forall>name w. \<exists>t w'. alloc_comp_k K name w = (Ptr t, w') \<and> (\<forall>d. c d w' = c d w)) \<and>
     (\<forall>t bs cap w. length bs \<le> piece_size \<longrightarrow> int (length (Z bs)) \<le> cap \<longrightarrow>
        (\<exists>w'. comp_compress_k K t bs cap w = ((0, Z bs, int (length (Z bs))), w') \<and>
          (\<forall>d. c d w' = c d w))) \<and>
     (\<forall>t bs cap w. length bs \<le> piece_size \<longrightarrow> cap < int (length (Z bs)) \<longrightarrow>
        (\<exists>e out n w'. comp_compress_k K t bs cap w = ((e, out, n), w') \<and> e < 0 \<and>
          length out \<le> nat cap \<and> (\<forall>d. c d w' = c d w))) \<and>
     (\<forall>bs. length bs \<le> piece_size \<longrightarrow> length (Z bs) \<le> 4096)"

text \<open>
  The capacity the code passes is the low half of the pointer its four bytes were allocated at: the
  pointer of the allocation \<open>i\<close>, cut to an \<open>int\<close> and read as \<open>unsigned int\<close>.
\<close>

definition out_capacity :: "'w kernel \<Rightarrow> nat \<Rightarrow> int" where
  "out_capacity K i = u32 (i32 (ptr_bits_k K i))"

lemma returns_compress_buffer:
  assumes C: "comp_contract K c Z" and sl: "sl = int n" and n: "n \<le> length src" "n \<le> piece_size"
    and fits: "length dst = 4096" and cap: "int (length (Z (take n src))) \<le> u32 cap"
    and Q: "\<And>w. (\<And>d. c d w = c d (world s)) \<Longrightarrow>
      Q ((int (length (Z (take n src))), overlay dst 0 (Z (take n src))), s\<lparr>world := w\<rparr>)"
  shows "returns (compress_buffer K src sl dst cap s) Q"
proof -
  have u: "u32 (int n) = int n" using n(2) by (simp add: u32_id piece_size_def)
  have l: "length (take n src) \<le> piece_size" "length (Z (take n src)) \<le> 4096"
    using n(2) C by (simp_all add: comp_contract_def)
  then have i: "i32 (int (length (Z (take n src)))) = int (length (Z (take n src)))"
    by (intro i32_id) simp_all
  obtain t w1 where a: "alloc_comp_k K ''deflate'' (world s) = (Ptr t, w1)" and c1: "\<And>d. c d w1 = c d (world s)"
    using C unfolding comp_contract_def by metis
  obtain w2 where e: "comp_compress_k K t (take n src) (u32 cap) w1 =
      ((0, Z (take n src), int (length (Z (take n src)))), w2)" and c2: "\<And>d. c d w2 = c d w1"
    using C l(1) cap unfolding comp_contract_def by metis
  show ?thesis
    unfolding compress_buffer_def sl
    using Q [of w2] a c1 c2 e n l fits by (simp add: Let_def u i)
qed

subsection \<open>The loop under the contracts\<close>

text \<open>
  What the loop leaves in the trash file, piece by piece: the header, and the first four of the
  eight bytes written behind it, since the next round starts over the last four. Only the last
  piece keeps all eight.
\<close>

fun zip_text :: "(byte list \<Rightarrow> byte list) \<Rightarrow> byte list \<Rightarrow> byte list \<Rightarrow> byte list list \<Rightarrow> byte list" where
  "zip_text Z tei rest [] = rest"
| "zip_text Z tei rest (p # ps) =
     (let hdr = c_snprintf_d tei (int (length (Z p))) in
      hdr @ take 4 (Z p) @ zip_text Z hdr (take 4 (drop 4 (Z p))) ps)"

lemma length_c_snprintf_d: "0 < length buf \<Longrightarrow> length (c_snprintf_d buf x) = length buf"
  unfolding c_snprintf_d_def by (cases buf; subst length_overlay) auto

text \<open>
  The inputs on which that works out, for a capacity \<open>cap\<close>: less than 2 GiB, and every piece
  compresses to at least the eight bytes the code writes and at most the capacity.
\<close>

definition zip_input ::
  "'w kernel \<Rightarrow> (nat \<Rightarrow> 'w \<Rightarrow> byte list) \<Rightarrow> (byte list \<Rightarrow> byte list) \<Rightarrow> nat \<Rightarrow> int \<Rightarrow> 'w kst \<Rightarrow> bool" where
  "zip_input K c Z fr cap s \<longleftrightarrow> (let src = c (f_dentry_k K fr) (world s) in
     length src < 2147483648 \<and>
     (\<forall>p\<in>set (pieces piece_size src). 8 \<le> length (Z p) \<and> int (length (Z p)) \<le> cap))"

definition zip_result :: "'w kernel \<Rightarrow> (nat \<Rightarrow> 'w \<Rightarrow> byte list) \<Rightarrow> (byte list \<Rightarrow> byte list) \<Rightarrow> nat \<Rightarrow> 'w kst \<Rightarrow> byte list" where
  "zip_result K c Z fr s =
     zip_text Z (resize 4 (stack_garbage_k K 4)) [] (pieces piece_size (c (f_dentry_k K fr) (world s)))"

definition zip_progress ::
  "'w kernel \<Rightarrow> (nat \<Rightarrow> 'w \<Rightarrow> byte list) \<Rightarrow> (byte list \<Rightarrow> byte list) \<Rightarrow> nat \<Rightarrow> nat \<Rightarrow> int \<Rightarrow> 'w kst
   \<Rightarrow> byte list \<Rightarrow> zip_pos \<Rightarrow> 'w kst \<Rightarrow> bool" where
  "zip_progress K c Z fr fw cap s0 xs pos s \<longleftrightarrow>
     (let src = c (f_dentry_k K fr) (world s0); old = c (f_dentry_k K fw) (world s0) in
      \<exists>acc rest r e tei. pos = (int r, int (length acc), e, tei) \<and> drop r src = xs \<and> r \<le> length src \<and>
        zip_result K c Z fr s0 = acc @ zip_text Z tei rest (pieces piece_size xs) \<and>
        c (f_dentry_k K fw) (world s) = acc @ rest @ drop (length acc + length rest) old \<and>
        (\<forall>p\<in>set (pieces piece_size xs). 8 \<le> length (Z p) \<and> int (length (Z p)) \<le> u32 cap) \<and>
        (xs \<noteq> [] \<longrightarrow> 510 * length acc \<le> r) \<and> length rest \<le> 4 \<and> length tei = 4 \<and>
        (\<forall>d. d \<noteq> f_dentry_k K fw \<longrightarrow> c d (world s) = c d (world s0)) \<and>
        live s = live s0 \<and> opened s = opened s0)"

lemma zip_round_progress:
  assumes K: "fs_contract K c" and A: "allocates K" and C: "comp_contract K c Z"
    and dif: "f_dentry_k K fr \<noteq> f_dentry_k K fw"
    and o: "fr \<in> set (opened s0)" "fw \<in> set (opened s0)"
    and big: "length (c (f_dentry_k K fr) (world s0)) < 2147483648"
    and P: "zip_progress K c Z fr fw cap s0 xs pos s" and ne: "xs \<noteq> []"
  shows "returns (zip_round K fr fw cap (int (length (take piece_size xs))) pos s)
    (\<lambda>(r, t). \<exists>pos'. r = Inr pos' \<and> zip_progress K c Z fr fw cap s0 (drop piece_size xs) pos' t)"
proof -
  define src where "src = c (f_dentry_k K fr) (world s0)"
  define old where "old = c (f_dentry_k K fw) (world s0)"
  define p where "p = take piece_size xs"
  obtain acc rest r e tei where pos: "pos = (int r, int (length acc), e, tei)" and xs: "drop r src = xs"
    and r: "r \<le> length src"
    and tx: "zip_result K c Z fr s0 = acc @ zip_text Z tei rest (pieces piece_size xs)"
    and cw: "c (f_dentry_k K fw) (world s) = acc @ rest @ drop (length acc + length rest) old"
    and z8: "\<forall>p\<in>set (pieces piece_size xs). 8 \<le> length (Z p) \<and> int (length (Z p)) \<le> u32 cap"
    and acc: "510 * length acc \<le> r" and rest: "length rest \<le> 4" and tei: "length tei = 4"
    and oth: "\<And>d. d \<noteq> f_dentry_k K fw \<Longrightarrow> c d (world s) = c d (world s0)"
    and lv: "live s = live s0" and opn: "opened s = opened s0"
    using P ne unfolding zip_progress_def Let_def src_def old_def by blast
  define hdr where "hdr = c_snprintf_d tei (int (length (Z p)))"
  define dat where "dat = take 8 (Z p)"
  have p: "length p \<le> 4080" "p = take (length p) (drop r src)" "length p + r \<le> length src" "p \<noteq> []"
    using xs r ne by (auto simp: p_def piece_size_def min_def)
  have rst: "drop piece_size xs = drop (r + length p) src"
    using xs r by (auto simp: p_def min_def add.commute)
  have pcs: "pieces piece_size xs = p # pieces piece_size (drop piece_size xs)"
    using ne by (simp add: pieces_step piece_size_def p_def)
  have zp: "8 \<le> length (Z p)" "length (Z p) \<le> 4096" "int (length (Z p)) \<le> u32 cap"
    using z8 pcs C p(1) by (auto simp: comp_contract_def piece_size_def)
  have hdr: "length hdr = 4" using tei by (simp add: hdr_def length_c_snprintf_d)
  have dat: "length dat = 8" using zp by (simp add: dat_def)
  have tx': "zip_result K c Z fr s0 =
      (acc @ hdr @ take 4 dat) @ zip_text Z hdr (drop 4 dat) (pieces piece_size (drop piece_size xs))"
    using tx pcs by (simp add: hdr_def dat_def Let_def drop_take)
  have i: "i32 (int (length p)) = int (length p)" "i32 (int r + int (length p)) = int (r + length p)"
      "i32 (int (length acc) + 8) = int (length acc + 8)" "i32 8 = 8"
    using p big r acc by (simp_all add: i32_id src_def)
  have rd: "returns (vfs_read K fr buf (int (length p)) (int r) u) Q"
    if "c (f_dentry_k K fr) (world u) = src" "fr \<in> set (opened u)" "addr_limit u = KERNEL_DS"
      "length buf = 4096"
      and "\<And>w. (\<And>d. c d w = c d (world u)) \<Longrightarrow> Q ((int (length p), overlay buf 0 p, int r + int (length p)),
        note_event (ReadAt fr (int r) (length p) (int (length p))) (u\<lparr>world := w\<rparr>))"
    for buf u Q
    by (rule returns_vfs_read [OF fs_contractD(1) [OF K] that(2,3)])
      (use that p in \<open>simp_all flip: p(2)\<close>)
  have en: "returns (compress_buffer K (overlay buf 0 p) (int (length p)) dst cap u) Q"
    if "length dst = 4096" "length buf = 4096"
      and "\<And>w. (\<And>d. c d w = c d (world u)) \<Longrightarrow>
        Q ((int (length (Z p)), overlay dst 0 (Z p)), u\<lparr>world := w\<rparr>)"
    for dst buf u Q
    by (rule returns_compress_buffer [OF C refl])
      (use that p zp(3) in \<open>simp_all add: length_overlay piece_size_def\<close>)
  have w1: "returns (vfs_write K fw hdr 4 (int (length acc)) u) Q"
    if "fw \<in> set (opened u)" "addr_limit u = KERNEL_DS"
      "c (f_dentry_k K fw) (world u) = acc @ rest @ drop (length acc + length rest) old"
      and "\<And>w. c (f_dentry_k K fw) w = (acc @ hdr) @ drop (length (acc @ hdr)) old \<Longrightarrow>
        (\<And>d. d \<noteq> f_dentry_k K fw \<Longrightarrow> c d w = c d (world u)) \<Longrightarrow>
        Q ((4, int (length acc) + 4), note_event (WroteAt fw (int (length acc)) hdr 4) (u\<lparr>world := w\<rparr>))"
    for u Q
  proof (rule returns_vfs_write [OF fs_contractD(2) [OF K] that(1,2)], goal_cases)
    case (5 w)
    have "write_at (acc @ rest @ drop (length acc + length rest) old) (length acc) hdr =
        (acc @ hdr) @ drop (length (acc @ hdr)) old"
      using rest hdr by (intro write_at_over) simp
    with 5 that(3,4) hdr show ?case by simp
  qed (simp_all add: hdr)
  have w2: "returns (vfs_write K fw (overlay dst 0 (Z p)) 8 (int (length acc) + 4) u) Q"
    if "fw \<in> set (opened u)" "addr_limit u = KERNEL_DS" "length dst = 4096"
      "c (f_dentry_k K fw) (world u) = (acc @ hdr) @ drop (length (acc @ hdr)) old"
      and "\<And>w. c (f_dentry_k K fw) w = (acc @ hdr @ dat) @ drop (length (acc @ hdr @ dat)) old \<Longrightarrow>
        (\<And>d. d \<noteq> f_dentry_k K fw \<Longrightarrow> c d w = c d (world u)) \<Longrightarrow>
        Q ((8, 12 + int (length acc)), note_event (WroteAt fw (int (length acc) + 4) dat 8) (u\<lparr>world := w\<rparr>))"
    for dst u Q
  proof (rule returns_vfs_write [OF fs_contractD(2) [OF K] that(1,2)], goal_cases)
    case (5 w)
    have "take 8 (overlay dst 0 (Z p)) = dat" using zp by (simp add: overlay_def dat_def)
    moreover have "nat (int (length acc) + 4) = length (acc @ hdr)" using hdr by simp
    moreover have "write_at ((acc @ hdr) @ drop (length (acc @ hdr)) old) (length (acc @ hdr)) dat =
        (acc @ hdr @ dat) @ drop (length (acc @ hdr @ dat)) old"
      using write_at_front [of "acc @ hdr" old dat] by simp
    ultimately show ?case using 5 that(4,5) by simp
  qed (use zp that(3) in \<open>simp_all add: length_overlay\<close>)
  have goal: "zip_progress K c Z fr fw cap s0 (drop piece_size xs)
      (int r + int (length p), int (length acc) + 8, int (length (Z p)), hdr) t"
    if "c (f_dentry_k K fw) (world t) = acc @ hdr @ dat @ drop (length acc + (length hdr + length dat)) old"
      "\<forall>d. d \<noteq> f_dentry_k K fw \<longrightarrow> c d (world t) = c d (world s)"
      "live t = live s0" "opened t = opened s0" for t
  proof -
    have full: "length p = 4080" if "drop piece_size xs \<noteq> []"
      using that by (simp add: p_def piece_size_def)
    define d1 d2 where "d1 = take 4 dat" and "d2 = drop 4 dat"
    note tx2 = tx' [folded d1_def d2_def]
    have d: "dat = d1 @ d2" "length d1 = 4" "length d2 = 4" using dat by (simp_all add: d1_def d2_def)
    have cwt: "c (f_dentry_k K fw) (world t) =
        (acc @ hdr @ d1) @ d2 @ drop (length (acc @ hdr @ d1) + length d2) old"
      using that(1) d hdr by (simp add: add.commute)
    show ?thesis
      unfolding zip_progress_def Let_def src_def [symmetric] old_def [symmetric]
    proof (rule exI [of _ "acc @ hdr @ d1"], rule exI [of _ d2], rule exI [of _ "r + length p"],
        rule exI [of _ "int (length (Z p))"], rule exI [of _ hdr], intro conjI)
      show "zip_result K c Z fr s0 =
          (acc @ hdr @ d1) @ zip_text Z hdr d2 (pieces piece_size (drop piece_size xs))" by (rule tx2)
      show "drop piece_size xs \<noteq> [] \<longrightarrow> 510 * length (acc @ hdr @ d1) \<le> r + length p"
        using full hdr d acc by auto
      show "\<forall>p\<in>set (pieces piece_size (drop piece_size xs)).
          8 \<le> length (Z p) \<and> int (length (Z p)) \<le> u32 cap"
        using z8 unfolding pcs by simp
      show "\<forall>d. d \<noteq> f_dentry_k K fw \<longrightarrow> c d (world t) = c d (world s0)" using that(2) oth by simp
    qed (use p(3) hdr d that(3,4) in \<open>simp_all add: cwt rst\<close>)
  qed
  have src: "c (f_dentry_k K fr) (world s) = src" using oth [OF dif] by (simp add: src_def)
  show ?thesis
    unfolding zip_round_def pos p_def [symmetric] sizeof_ptr_def
    using o zp
    by (auto simp: src i lv opn PAGE_SIZE_def Let_def cw hdr_def [symmetric]
        intro!: goal returns_kmalloc [OF fs_contractD(3) [OF K] A] rd en w1 w2 returns_rules)
qed

lemma zip_loop_writes:
  assumes K: "fs_contract K c" and A: "allocates K" and C: "comp_contract K c Z"
    and dif: "f_dentry_k K fr \<noteq> f_dentry_k K fw" and I: "zip_input K c Z fr (u32 cap) s"
    and o: "fr \<in> set (opened s)" "fw \<in> set (opened s)"
  shows "returns (zip_loop K fr fw cap (int (length (c (f_dentry_k K fr) (world s))))
      (0, 0, 0, resize 4 (stack_garbage_k K 4)) s)
    (\<lambda>(r, t). live t = live s \<and> opened t = opened s \<and>
      c (f_dentry_k K fw) (world t) =
        zip_result K c Z fr s @ drop (length (zip_result K c Z fr s)) (c (f_dentry_k K fw) (world s)) \<and>
      (\<forall>d. d \<noteq> f_dentry_k K fw \<longrightarrow> c d (world t) = c d (world s)))"
proof -
  define src where "src = c (f_dentry_k K fr) (world s)"
  have big: "length src < 2147483648" using I by (simp add: zip_input_def Let_def src_def)
  have "returns (zip_loop K fr fw cap (int (length src)) (0, 0, 0, resize 4 (stack_garbage_k K 4)) s)
      (\<lambda>(r, t). \<exists>pos. r = fst (snd (snd pos)) \<and> zip_progress K c Z fr fw cap s [] pos t)"
    using I unfolding src_def
    by (intro zip.loop_returns zip_round_progress [OF K A C dif o big [unfolded src_def]])
      (auto simp: zip_progress_def zip_input_def Let_def zip_result_def)
  then show ?thesis
    unfolding src_def [symmetric]
    by (rule returns_mono) (auto simp: zip_progress_def Let_def)
qed

lemma returns_compress_file:
  assumes K: "fs_contract K c" and A: "allocates K" and C: "comp_contract K c Z"
    and dif: "f_dentry_k K fr \<noteq> f_dentry_k K fw" and I: "zip_input K c Z fr (out_capacity K (next_id s)) s"
    and o: "fr \<in> set (opened s)" "fw \<in> set (opened s)"
    and Q: "\<And>r t. live t = next_id s # live s \<Longrightarrow> opened t = opened s \<Longrightarrow>
      c (f_dentry_k K fw) (world t) =
        zip_result K c Z fr s @ drop (length (zip_result K c Z fr s)) (c (f_dentry_k K fw) (world s)) \<Longrightarrow>
      (\<And>d. d \<noteq> f_dentry_k K fw \<Longrightarrow> c d (world t) = c d (world s)) \<Longrightarrow> Q (r, t)"
  shows "returns (compress_file K fr fw s) Q"
  unfolding compress_file_def Let_def
proof (simp only: returns_bind case_prod_conv, rule returns_kmalloc [OF fs_contractD(3) [OF K] A], goal_cases)
  case (1 g w)
  let ?s = "s\<lparr>world := w, next_id := Suc (next_id s), live := next_id s # live s\<rparr>"
  let ?cap = "ptr_as_int K (Some \<lparr>bid = next_id s, mem = resize 4 g\<rparr>)"
  have I': "zip_input K c Z fr (u32 ?cap) ?s" and R: "zip_result K c Z fr ?s = zip_result K c Z fr s"
    using I 1 by (simp_all add: zip_input_def zip_result_def out_capacity_def ptr_as_int_def)
  have e: "i32 (i_size_k K (f_dentry_k K fr) w) = int (length (c (f_dentry_k K fr) (world ?s)))"
    using I 1 by (simp add: contract_size [OF K] i32_id zip_input_def Let_def)
  have "returns (zip_loop K fr fw ?cap (i32 (i_size_k K (f_dentry_k K fr) w)) (0, 0, 0, resize 4 (stack_garbage_k K 4)) ?s) Q"
    unfolding e
    by (rule returns_mono [OF zip_loop_writes [OF K A C dif I']]) (use o Q R 1 in auto)
  then show ?case by simp
qed

end
