(* ===== verification/Compress_Props.thy ===== *)
theory Compress_Props
  imports Compress Encrypt_Props
begin

text \<open>
  The properties of \<open>compress_file\<close> and \<open>processcompress\<close>: what is left of a file after its
  compression, what is lost, and what is leaked.
\<close>

lemma zip_text_length:
  "ps \<noteq> [] \<Longrightarrow> length tei = 4 \<Longrightarrow> \<forall>p\<in>set ps. 8 \<le> length (Z p) \<Longrightarrow>
     length (zip_text Z tei rest ps) = 8 * length ps + 4"
proof (induction ps arbitrary: tei rest)
  case (Cons p ps)
  have h: "length (c_snprintf_d tei x) = 4" for x
    using Cons.prems by (simp add: length_c_snprintf_d)
  show ?case
    using Cons h by (cases "ps = []") (simp_all add: Let_def)
qed simp

lemma take_8_split:
  assumes "take 8 xs = take 8 ys"
  shows "take 4 xs = take 4 ys" and "take 4 (drop 4 xs) = take 4 (drop 4 ys)"
proof -
  have "take 4 (take 8 xs) = take 4 (take 8 ys)" "drop 4 (take 8 xs) = drop 4 (take 8 ys)"
    by (simp_all only: assms)
  then show "take 4 xs = take 4 ys" and "take 4 (drop 4 xs) = take 4 (drop 4 ys)"
    by (simp_all add: drop_take)
qed

lemma zip_text_cong:
  "list_all2 (\<lambda>p q. length (Z p) = length (Z q) \<and> take 8 (Z p) = take 8 (Z q)) ps qs \<Longrightarrow>
     zip_text Z tei rest ps = zip_text Z tei rest qs"
proof (induction ps qs arbitrary: tei rest rule: list_all2_induct)
  case (Cons p ps q qs)
  then show ?case
    using take_8_split [of "Z p" "Z q"] by (simp add: Let_def)
qed simp

definition zip_setup ::
  "'w kernel \<Rightarrow> (nat \<Rightarrow> 'w \<Rightarrow> byte list) \<Rightarrow> (byte list \<Rightarrow> byte list) \<Rightarrow> string \<Rightarrow> nat \<Rightarrow> string \<Rightarrow> string \<Rightarrow> nat \<Rightarrow> bool" where
  "zip_setup K c Z name fr path lo fw \<longleftrightarrow>
     trash_setup K c name fr path lo ''.cmp'' fw \<and> fs_contract K c \<and> comp_contract K c Z"

text \<open>\<open>processcompress\<close> reduced to \<open>compress_file\<close>.\<close>

lemma processcompress_upto_compress:
  assumes S: "trash_setup K c name fr path lo ''.cmp'' fw"
    and Z: "\<And>u R. live u = [next_id s + 3, next_id s + 2, next_id s + 1, next_id s] @ live s \<Longrightarrow>
      next_id u = next_id s + 4 \<Longrightarrow> opened u = fw # fr # opened s \<Longrightarrow>
      \<forall>d. c d (world u) = c d (world s) \<Longrightarrow>
      (\<And>r t. live t = [next_id s + 4, next_id s + 3, next_id s + 2, next_id s + 1, next_id s] @ live s \<Longrightarrow>
        opened t = opened u \<Longrightarrow> P (c (f_dentry_k K fw) (world t)) \<Longrightarrow>
        \<forall>d. d \<noteq> f_dentry_k K fw \<longrightarrow> c d (world t) = c d (world s) \<Longrightarrow> R (r, t)) \<Longrightarrow>
      returns (compress_file K fr fw u) R"
  shows "returns (processcompress K (Some name) s) (\<lambda>(r, t). r = 0 \<and>
    P (c (f_dentry_k K fw) (world t)) \<and>
    (\<forall>d. d \<noteq> f_dentry_k K fw \<and> d \<noteq> f_dentry_k K fr \<longrightarrow> c d (world t) = c d (world s)) \<and>
    opened t = opened s \<and>
    live t = [next_id s + 4, next_id s + 2, next_id s + 1, next_id s] @ live s \<and>
    (\<exists>evs dir q. trace t = evs @ [Closed fr, DirLocked dir, Unlinked dir (f_dentry_k K fr) q,
        DirUnlocked dir, Closed fw]))"
proof -
  have KK: "keeps_files K c" and A: "allocates K" and o1: "opens_as K name O_RDONLY 0 fr"
    and ne: "fr \<noteq> fw" "f_dentry_k K fr \<noteq> f_dentry_k K fw"
    and S': "trash_setup K c name fr path lo (concat [''.cmp'']) fw"
    using S by (auto simp: trash_setup_def)
  show ?thesis
    unfolding processcompress_def
    using ne
    by (auto simp: kernel_keeps [OF KK] intro!: returns_kmalloc [OF KK A] returns_file_open [OF KK o1]
        returns_file_open [OF KK, where f = fw] returns_name_prefix [OF S] returns_name_finish [OF S']
        returns_rules Z returns_close_and_unlink)
qed

lemma returns_compress_result:
  assumes "zip_setup K c Z name fr path lo fw" and "zip_input K c Z fr (out_capacity K (next_id s + 4)) s"
  shows "returns (processcompress K (Some name) s) (\<lambda>(r, t). r = 0 \<and>
    c (f_dentry_k K fw) (world t) =
      zip_result K c Z fr s @ drop (length (zip_result K c Z fr s)) (c (f_dentry_k K fw) (world s)) \<and>
    (\<forall>d. d \<noteq> f_dentry_k K fw \<and> d \<noteq> f_dentry_k K fr \<longrightarrow> c d (world t) = c d (world s)) \<and>
    opened t = opened s \<and>
    live t = [next_id s + 4, next_id s + 2, next_id s + 1, next_id s] @ live s \<and>
    (\<exists>evs dir q. trace t = evs @ [Closed fr, DirLocked dir, Unlinked dir (f_dentry_k K fr) q,
        DirUnlocked dir, Closed fw]))"
proof -
  have S: "trash_setup K c name fr path lo ''.cmp'' fw" and K: "fs_contract K c" and C: "comp_contract K c Z"
    using assms(1) by (simp_all add: zip_setup_def)
  have A: "allocates K" and dif: "f_dentry_k K fr \<noteq> f_dentry_k K fw"
    using S by (simp_all add: trash_setup_def)
  have input: "zip_input K c Z fr (out_capacity K (next_id s + 4)) u" "zip_result K c Z fr u = zip_result K c Z fr s"
    if "\<forall>d. c d (world u) = c d (world s)" for u
    using that assms(2) by (simp_all add: zip_input_def zip_result_def)
  let ?P = "\<lambda>x. x = zip_result K c Z fr s @ drop (length (zip_result K c Z fr s)) (c (f_dentry_k K fw) (world s))"
  show ?thesis
  proof (rule processcompress_upto_compress [OF S, where P = ?P], goal_cases)
    case (1 u R)
    show ?case
      by (rule returns_compress_file [OF K A C dif input(1) [OF 1(4), folded 1(2)]])
        (use 1 input(2) [OF 1(4)] in auto)
  qed
qed

text \<open>
  C14. When kernel and compressor keep their contracts and each piece of the input, a file of less
  than 2 GiB, compresses to at least eight bytes (fewer, and bytes the compressor never wrote would
  be stored) and at most the capacity the code passes (the low half of the pointer \<open>out_len\<close> was
  allocated at; with less, compression fails), \<open>processcompress\<close> returns 0 and leaves in the trash
  file, for each piece of 4080 bytes, the first three digits of its compressed length, a NUL and the first four bytes of the compressed form (all eight bytes
  of the pointer's size for the last piece); it changes no other file and unlinks the input last,
  and does not give back the buffers \<open>replace\<close>, \<open>filename\<close>, \<open>path\<close> and the four bytes of \<open>out_len\<close>.
\<close>

theorem processcompress_result:
  assumes "zip_setup K c Z name fr path lo fw" and "zip_input K c Z fr (out_capacity K (next_id s + 4)) s"
  shows "returns (processcompress K (Some name) s) (\<lambda>(r, t). r = 0 \<and>
    c (f_dentry_k K fw) (world t) =
      zip_result K c Z fr s @ drop (length (zip_result K c Z fr s)) (c (f_dentry_k K fw) (world s)) \<and>
    (\<forall>d. d \<noteq> f_dentry_k K fw \<and> d \<noteq> f_dentry_k K fr \<longrightarrow> c d (world t) = c d (world s)) \<and>
    opened t = opened s \<and>
    live t = [next_id s + 4, next_id s + 2, next_id s + 1, next_id s] @ live s \<and>
    (\<exists>evs dir q. trace t = evs @ [Closed fr, DirLocked dir, Unlinked dir (f_dentry_k K fr) q,
        DirUnlocked dir, Closed fw]))"
  by (rule returns_compress_result [OF assms])

text \<open>
  Compression keeps at most twelve bytes of a piece and four of those are its length: a trash
  file of a nonempty input of \<open>n\<close> pieces has \<open>8 * n + 4\<close> bytes, whatever the input.
\<close>

theorem processcompress_size:
  assumes "zip_setup K c Z name fr path lo fw" and "zip_input K c Z fr (out_capacity K (next_id s + 4)) s"
    and "c (f_dentry_k K fr) (world s) \<noteq> []" and "c (f_dentry_k K fw) (world s) = []"
  shows "returns (processcompress K (Some name) s) (\<lambda>(r, t).
    length (c (f_dentry_k K fw) (world t)) =
      8 * ((length (c (f_dentry_k K fr) (world s)) + 4079) div 4080) + 4)"
proof -
  let ?ps = "pieces piece_size (c (f_dentry_k K fr) (world s))"
  have "length (zip_result K c Z fr s) = 8 * length ?ps + 4"
    using assms(2,3) unfolding zip_result_def
    by (intro zip_text_length) (simp_all add: zip_input_def Let_def pieces_step piece_size_def)
  then have "length (zip_result K c Z fr s) = 8 * ((length (c (f_dentry_k K fr) (world s)) + 4079) div 4080) + 4"
    by (simp add: length_pieces piece_size_def)
  then show ?thesis
    using returns_compress_result [OF assms(1,2)] assms(4) by (auto elim!: returns_mono)
qed

text \<open>
  C32. Compression is not reversible: under the conditions of the previous result (each piece
  compresses to at least eight bytes and at most the capacity passed), two inputs whose pieces
  compress to forms of the same length with the same first eight bytes leave the same trash file, so nothing can tell them apart again.
\<close>

theorem processcompress_loses_data:
  assumes "zip_setup K c Z name fr path lo fw" and "zip_input K c Z fr (out_capacity K (next_id s + 4)) s"
    and "zip_input K c Z fr (out_capacity K (next_id s' + 4)) s'"
    and "list_all2 (\<lambda>p q. length (Z p) = length (Z q) \<and> take 8 (Z p) = take 8 (Z q))
      (pieces piece_size (c (f_dentry_k K fr) (world s))) (pieces piece_size (c (f_dentry_k K fr) (world s')))"
    and "c (f_dentry_k K fw) (world s) = []" and "c (f_dentry_k K fw) (world s') = []"
  shows "returns (processcompress K (Some name) s) (\<lambda>(r, t).
    returns (processcompress K (Some name) s') (\<lambda>(r', t').
      c (f_dentry_k K fw) (world t) = c (f_dentry_k K fw) (world t')))"
proof -
  have "zip_result K c Z fr s = zip_result K c Z fr s'"
    unfolding zip_result_def by (rule zip_text_cong [OF assms(4)])
  then show ?thesis
    using returns_compress_result [OF assms(1,2)] returns_compress_result [OF assms(1,3)] assms(5,6)
    by (auto elim!: returns_mono)
qed

subsection \<open>A pointer as a capacity\<close>

lemma returns_zip_round_fails:
  assumes K: "fs_contract K c" and A: "allocates K" and C: "comp_contract K c Z"
    and o: "fr \<in> set (opened s)" and p: "p = take piece_size (c (f_dentry_k K fr) (world s))"
    and cap: "u32 cap < int (length (Z p))"
  shows "returns (zip_round K fr fw cap (int (length p)) (0, 0, 0, tei) s)
    (\<lambda>(r, t). r = Inl (- 1) \<and> live t = live s \<and> opened t = opened s \<and> (\<forall>d. c d (world t) = c d (world s)))"
proof -
  have len: "length p \<le> 4080" "i32 (int (length p)) = int (length p)" "u32 (int (length p)) = int (length p)"
    by (simp_all add: p piece_size_def i32_id u32_id)
  have le: "length p \<le> 4096" "length p < 18446744073709551616" using len(1) by simp_all
  have zl: "length (Z p) \<le> 4096"
    using C len(1) by (simp add: comp_contract_def piece_size_def)
  have rd: "take (length p) (c (f_dentry_k K fr) (world s)) = p"
    by (simp add: p min_def)
  have buf: "returns (compress_buffer K (overlay m 0 p) (int (length p)) dst cap u) Q"
    if "length m = 4096" "length dst = 4096"
      and "\<And>dst w. (\<And>d. c d w = c d (world u)) \<Longrightarrow> Q ((- 1, dst), u\<lparr>world := w\<rparr>)" for m dst u Q
  proof -
    obtain t w1 where a: "alloc_comp_k K ''deflate'' (world u) = (Ptr t, w1)" "\<And>d. c d w1 = c d (world u)"
      using C unfolding comp_contract_def by metis
    obtain e out n w2 where e: "comp_compress_k K t p (u32 cap) w1 = ((e, out, n), w2)" "e < 0"
      "length out \<le> nat (u32 cap)" "\<And>d. c d w2 = c d w1"
      using C cap len(1) unfolding comp_contract_def piece_size_def by metis
    have "length out \<le> 4096" using e(3) cap zl by linarith
    moreover have "take (length p) (overlay m 0 p) = p" by (rule take_overlay_0)
    ultimately show ?thesis
      unfolding compress_buffer_def len(3) nat_int using a e that len(1)
      by (simp add: Let_def length_overlay)
  qed
  show ?thesis
    unfolding zip_round_def
    using o
    by (auto simp: PAGE_SIZE_def Let_def len(2,3) le rd
        intro!: returns_kmalloc [OF fs_contractD(3) [OF K] A] returns_vfs_read [OF fs_contractD(1) [OF K]]
          buf returns_rules)
qed

text \<open>
  The compressor is told the low half of a pointer as the size of its output buffer. When that is
  less than the compressed form of the first piece, it fails; \<open>processcompress\<close> ignores the result
  of \<open>compress_file\<close>, returns 0 and unlinks a file of which nothing has been written to the trash.
\<close>

theorem processcompress_error_loses_file:
  assumes "zip_setup K c Z name fr path lo fw" and "c (f_dentry_k K fr) (world s) \<noteq> []"
    and "length (c (f_dentry_k K fr) (world s)) < 2147483648"
    and "out_capacity K (next_id s + 4) < int (length (Z (take piece_size (c (f_dentry_k K fr) (world s)))))"
  shows "returns (processcompress K (Some name) s) (\<lambda>(r, t). r = 0 \<and>
    c (f_dentry_k K fw) (world t) = c (f_dentry_k K fw) (world s) \<and>
    (\<exists>evs dir q. trace t = evs @ [Closed fr, DirLocked dir, Unlinked dir (f_dentry_k K fr) q,
        DirUnlocked dir, Closed fw]))"
proof -
  have S: "trash_setup K c name fr path lo ''.cmp'' fw" and K: "fs_contract K c" and C: "comp_contract K c Z"
    using assms(1) by (simp_all add: zip_setup_def)
  have KK: "keeps_files K c" and A: "allocates K" using S by (simp_all add: trash_setup_def)
  let ?src = "c (f_dentry_k K fr) (world s)"
  have n: "min (int (length ?src)) (PAGE_SIZE - 16) = int (length (take piece_size ?src))"
    by (simp add: PAGE_SIZE_def piece_size_def min_def)
  have loop: "returns (zip_loop K fr fw (ptr_as_int K (Some \<lparr>bid = next_id s + 4, mem = m\<rparr>))
        (i32 (i_size_k K (f_dentry_k K fr) w)) (0, 0, 0, tei) v)
      (\<lambda>(r, t). live t = live v \<and> opened t = opened v \<and> (\<forall>d. c d (world t) = c d (world v)))"
    if "\<forall>d. c d w = c d (world s)" "fr \<in> set (opened v)" "\<forall>d. c d (world v) = c d (world s)" for w v m tei
  proof -
    have e: "i32 (i_size_k K (f_dentry_k K fr) w) = int (length ?src)"
      using that(1) assms(3) by (simp add: contract_size [OF K] i32_id)
    have cap: "u32 (ptr_as_int K (Some \<lparr>bid = next_id s + 4, mem = m\<rparr>)) = out_capacity K (next_id s + 4)"
      by (simp add: ptr_as_int_def out_capacity_def)
    have p: "take piece_size ?src = take piece_size (c (f_dentry_k K fr) (world v))" using that(3) by simp
    have "0 < int (length ?src)" using assms(2) by simp
    then show ?thesis
      unfolding e zip.go [OF \<open>0 < int (length ?src)\<close>] n returns_bind
      by (rule_tac returns_mono [OF returns_zip_round_fails [OF K A C that(2) p assms(4) [folded cap]]]) auto
  qed
  show ?thesis
  proof (rule returns_mono, rule processcompress_upto_compress [OF S,
        where P = "\<lambda>x. x = c (f_dentry_k K fw) (world s)"], goal_cases)
    case (1 u R)
    have id: "next_id u = next_id s + 4" by (rule 1(2))
    show ?case
      unfolding compress_file_def Let_def
      using 1
      by (auto simp: id intro!: returns_kmalloc [OF KK A] returns_mono [OF loop])
  qed auto
qed

text \<open>
  What a compression leaves behind when it returns \<open>r\<close> in the state \<open>t\<close>, one line for each way out:
  a buffer could not be allocated; the input did not open; the trash file did not open; the end was
  reached.
\<close>

definition zip_leaves :: "'w kst \<Rightarrow> int \<Rightarrow> 'w kst \<Rightarrow> bool" where
  "zip_leaves s r t \<longleftrightarrow> (let n = next_id s in
     (r = - ENOMEM \<and> opened t = opened s \<and> live t \<in> {live s, n # live s, (n + 1) # n # live s}) \<or>
     (r = - EPERM \<and> opened t = opened s \<and> live t = [n + 3, n + 2, n + 1, n] @ live s) \<or>
     (\<exists>fr. opened t = fr # opened s \<and> live t = [n + 3, n + 2, n + 1, n] @ live s) \<or>
     (r = 0 \<and> opened t = opened s \<and>
        live t \<in> {[n + 2, n + 1, n] @ live s, [n + 4, n + 2, n + 1, n] @ live s}))"

text \<open>
  C25. The whole of \<open>processcompress\<close> on every kernel: the ways it can return, with what it leaves
  open and allocated. Every path keeps buffers, a failing open of the trash file also the input.
\<close>

theorem processcompress_outcomes:
  "safely (processcompress K name s) (\<lambda>(r, t). enc_key t = enc_key s \<and> zip_leaves s r t)"
  unfolding processcompress_def
  by (auto simp: exec_simps safely_iff [of name] not_bad_ptr transfers_def intro!: frame_rules)
    (auto simp: zip_leaves_def Let_def)

subsection \<open>Witnesses\<close>

lemma demo_dentry [simp]: "f_dentry_k demo_kernel f = f"
  by (simp add: demo_kernel_def)

lemma demo_comp_contract: "comp_contract demo_kernel (\<lambda>d w. w d) (\<lambda>bs. bs)"
  by (simp add: comp_contract_def demo_kernel_def piece_size_def)

lemma demo_zip_setup: "zip_setup demo_kernel (\<lambda>d w. w d) (\<lambda>bs. bs) ''/a'' 1 ''/a'' [] 2"
  using demo_trash_setup [of "''.cmp''"] demo_fs_contract demo_comp_contract by (simp add: zip_setup_def)

lemma demo_capacity [simp]: "out_capacity demo_kernel i = 4096"
  by (simp add: out_capacity_def demo_kernel_def i32_id u32_id)

lemma demo_zip_input:
  "8 \<le> length (w 1) \<Longrightarrow> length (w 1) \<le> 4080 \<Longrightarrow>
     zip_input demo_kernel (\<lambda>d w. w d) (\<lambda>bs. bs) 1 (out_capacity demo_kernel i) (demo_state w)"
  by (cases "w 1 = []") (auto simp: zip_input_def Let_def pieces_step piece_size_def)

lemma demo_garbage: "resize 4 (stack_garbage_k demo_kernel 4) = [NUL, NUL, NUL, NUL]"
  by (simp add: demo_kernel_def resize_def numeral_eq_Suc)

theorem processcompress_result_witness:
  "returns (processcompress demo_kernel (Some ''/a'') (demo_state ((\<lambda>d. [])(1 := ''0123456789''))))
     (\<lambda>(r, t). r = 0 \<and> world t 2 = ''10'' @ [NUL, NUL] @ ''01234567'')"
proof -
  have "zip_result demo_kernel (\<lambda>d w. w d) (\<lambda>bs. bs) 1 (demo_state ((\<lambda>d. [])(1 := ''0123456789''))) =
      ''10'' @ [NUL, NUL] @ ''01234567''"
    by (simp add: zip_result_def demo_garbage pieces_step piece_size_def Let_def c_snprintf_d_def
        fmt_d_def dec_nat.simps digit_def overlay_def) code_simp
  then show ?thesis
    by (intro returns_mono [OF processcompress_result [OF demo_zip_setup demo_zip_input]]) auto
qed

theorem processcompress_size_witness:
  "returns (processcompress demo_kernel (Some ''/a'') (demo_state ((\<lambda>d. [])(1 := ''0123456789''))))
     (\<lambda>(r, t). length (world t 2) = 12)"
  by (rule returns_mono [OF processcompress_size [OF demo_zip_setup demo_zip_input]]) auto

theorem processcompress_loses_data_witness:
  "returns (processcompress demo_kernel (Some ''/a'') (demo_state ((\<lambda>d. [])(1 := ''0123456789'')))) (\<lambda>(r, t).
   returns (processcompress demo_kernel (Some ''/a'') (demo_state ((\<lambda>d. [])(1 := ''01234567AB'')))) (\<lambda>(r', t').
     world t 2 = world t' 2))"
  by (rule returns_mono [OF processcompress_loses_data [OF demo_zip_setup demo_zip_input demo_zip_input]])
    (auto simp: pieces_step piece_size_def elim: returns_mono)

text \<open>The demo kernel with its allocations at multiples of \<open>2 ^ 32\<close>: every capacity is 0.\<close>

definition demo_no_comp :: "mem_fs kernel" where
  "demo_no_comp = demo_kernel\<lparr>ptr_bits_k := (\<lambda>i. 4294967296 * int i)\<rparr>"

theorem processcompress_error_loses_file_witness:
  "returns (processcompress demo_no_comp (Some ''/a'') (demo_state ((\<lambda>d. [])(1 := ''secret''))))
     (\<lambda>(r, t). r = 0 \<and> world t 2 = [])"
proof -
  have "trash_setup demo_no_comp (\<lambda>d w. w d) ''/a'' 1 ''/a'' [] ''.cmp'' 2"
    using demo_trash_setup [of "''.cmp''"]
    by (simp add: demo_no_comp_def trash_setup_def keeps_files_def allocates_def clock_contract_def
        opens_as_def)
  moreover have "fs_contract demo_no_comp (\<lambda>d w. w d)"
    using demo_fs_contract
    by (simp add: demo_no_comp_def fs_contract_def reads_files_def writes_files_def keeps_files_def)
  moreover have "comp_contract demo_no_comp (\<lambda>d w. w d) (\<lambda>bs. bs)"
    using demo_comp_contract by (simp add: comp_contract_def demo_no_comp_def)
  moreover have "out_capacity demo_no_comp i = 0" for i
    by (simp add: out_capacity_def demo_no_comp_def i32_def u32_def take_bit_signed_take_bit)
      (simp add: take_bit_eq_mod)
  ultimately show ?thesis
    by (rule_tac returns_mono [OF processcompress_error_loses_file [where Z = "\<lambda>bs. bs" and c = "\<lambda>d w. w d"]])
      (auto simp: demo_no_comp_def zip_setup_def piece_size_def)
qed

end
