(* ===== verification/Enc_Comp.thy ===== *)
theory Enc_Comp
  imports Compress_Props
begin

text \<open>
  \<open>process_enc_comp\<close> of \<open>sys_xclone2.c\<close>: compress the input into the file \<open>temp.txt\<close> of the current
  directory, unlink the input, then encrypt \<open>temp.txt\<close> into the trash file and unlink \<open>temp.txt\<close>. The
  second half is a definition of its own, \<open>encrypt_temp\<close>.
\<close>

subsection \<open>Code\<close>

definition encrypt_temp ::
  "'w kernel \<Rightarrow> cbuf option \<Rightarrow> byte list \<Rightarrow> cbuf option \<Rightarrow> 'w kst \<Rightarrow> (int \<times> 'w kst) option" where
  "encrypt_temp K trashbinfolder_filename m key s = do {
     (f_read, s) \<leftarrow> file_open K ''temp.txt'' O_RDONLY 0 s;
     if bad_ptr f_read then Some (- EPERM, s)
     else do {
       (f_write, s) \<leftarrow> file_open K (c_str m) (O_WRONLY OR O_CREAT) 420 s;
       fr \<leftarrow> deref f_read;
       let fsize = i32 (i_size_k K (f_dentry_k K fr) (world s));
       k \<leftarrow> buf_bytes key s;
       key_len \<leftarrow> c_strlen k;
       (key_store, s) \<leftarrow> kmalloc K (8 * key_len) s;
       fw \<leftarrow> deref f_write;
       (key_err, s) \<leftarrow> vfs_setxattr K (f_dentry_k K fw) ''user.key_store'' (take key_len k) s;
       (early, s) \<leftarrow> enc_loop K fr fw key fsize (0, 0) s;
       (case early of
          Some err \<Rightarrow> Some (err, s)
        | None \<Rightarrow> do {
            (err, s) \<leftarrow> close_and_unlink K fr s;
            (_, s) \<leftarrow> file_close K fw s;
            (_, s) \<leftarrow> kfree trashbinfolder_filename s;
            (_, s) \<leftarrow> kfree key s;
            Some (err, s)
          })
     }
   }"

text \<open>
  The check behind the opening of the trash file tests \<open>f_temp\<close> once more, which is known to be
  good there, so it has no branch here.
\<close>

definition process_enc_comp ::
  "'w kernel \<Rightarrow> string option \<Rightarrow> cbuf option \<Rightarrow> 'w kst \<Rightarrow> (int \<times> 'w kst) option" where
  "process_enc_comp K file_name key s = do {
     (replace, s) \<leftarrow> kmalloc K PATH_MAX s;
     if replace = None then Some (- ENOMEM, s)
     else do {
       (filename, s) \<leftarrow> kmalloc K PATH_MAX s;
       if filename = None then Some (- ENOMEM, s)
       else do {
         (path, s) \<leftarrow> kmalloc K PATH_MAX s;
         if path = None then Some (- ENOMEM, s)
         else do {
           ((trashbinfolder_filename, m), s) \<leftarrow> name_prefix K s;
           name \<leftarrow> file_name;
           (f_read, s) \<leftarrow> file_open K name O_RDONLY 0 s;
           if bad_ptr f_read then Some (- EPERM, s)
           else do {
             fr \<leftarrow> deref f_read;
             m \<leftarrow> name_finish K fr filename m [''.enc'', ''.cmp''] s;
             (f_temp, s) \<leftarrow> file_open K ''temp.txt'' (O_WRONLY OR O_CREAT) 420 s;
             if bad_ptr f_temp then Some (- ptr_err f_temp, s)
             else do {
               ft \<leftarrow> deref f_temp;
               (zip_err, s) \<leftarrow> compress_file K fr ft s;
               (err, s) \<leftarrow> close_and_unlink K fr s;
               (_, s) \<leftarrow> file_close K ft s;
               encrypt_temp K trashbinfolder_filename m key s
             }
           }
         }
       }
     }
   }"

subsection \<open>Under the contracts\<close>

definition both_setup ::
  "'w kernel \<Rightarrow> (nat \<Rightarrow> 'w \<Rightarrow> byte list) \<Rightarrow> (byte list \<Rightarrow> byte list) \<Rightarrow> cipher \<Rightarrow> string \<Rightarrow> nat \<Rightarrow> string
   \<Rightarrow> string \<Rightarrow> nat \<Rightarrow> nat \<Rightarrow> nat \<Rightarrow> bool" where
  "both_setup K c Z E name fr path lo ft fr2 fw \<longleftrightarrow>
     trash_setup K c name fr path lo ''.enc.cmp'' fw \<and> fs_contract K c \<and> comp_contract K c Z \<and>
     cipher_contract K c E \<and>
     opens_as K ''temp.txt'' (O_WRONLY OR O_CREAT) 420 ft \<and> opens_as K ''temp.txt'' O_RDONLY 0 fr2 \<and>
     f_dentry_k K ft = f_dentry_k K fr2 \<and> fr \<noteq> ft \<and> fr2 \<noteq> fw \<and>
     f_dentry_k K fr \<noteq> f_dentry_k K ft \<and> f_dentry_k K fw \<noteq> f_dentry_k K ft"

definition temp_text :: "'w kernel \<Rightarrow> (nat \<Rightarrow> 'w \<Rightarrow> byte list) \<Rightarrow> (byte list \<Rightarrow> byte list) \<Rightarrow> nat \<Rightarrow> nat \<Rightarrow> 'w kst \<Rightarrow> byte list" where
  "temp_text K c Z fr ft s =
     zip_result K c Z fr s @ drop (length (zip_result K c Z fr s)) (c (f_dentry_k K ft) (world s))"

lemma returns_encrypt_temp:
  assumes S: "both_setup K c Z E name fr path lo ft fr2 fw" and m: "opens_as K (c_str m) (O_WRONLY OR O_CREAT) 420 fw"
    and key: "length (c_str (mem kb)) < length (mem kb)" "bid kb \<in> set (live s)"
    and nb: "bid nb \<in> set (live s)" "bid nb \<noteq> bid kb" "bid nb \<noteq> next_id s" "bid kb \<noteq> next_id s"
    and fresh: "\<forall>i\<in>set (live s). i < next_id s"
    and big: "length (c (f_dentry_k K fr2) (world s)) < 2139000000"
    and Q: "\<And>r t. c (f_dentry_k K fw) (world t) =
        enc_text K E (c_str (mem kb)) (c (f_dentry_k K fr2) (world s)) @
        drop (length (enc_text K E (c_str (mem kb)) (c (f_dentry_k K fr2) (world s))))
          (c (f_dentry_k K fw) (world s)) \<Longrightarrow>
      (\<And>d. d \<noteq> f_dentry_k K fw \<Longrightarrow> d \<noteq> f_dentry_k K fr2 \<Longrightarrow> c d (world t) = c d (world s)) \<Longrightarrow>
      opened t = opened s \<Longrightarrow>
      live t = next_id s # remove1 (bid kb) (remove1 (bid nb) (live s)) \<Longrightarrow>
      \<exists>evs dir. trace t = trace s @ evs @ [Closed fr2, DirLocked dir, Unlinked dir (f_dentry_k K fr2) r,
        DirUnlocked dir, Closed fw] \<Longrightarrow> Q (r, t)"
  shows "returns (encrypt_temp K (Some nb) m (Some kb) s) Q"
proof -
  have KK: "keeps_files K c" and A: "allocates K" and o1: "opens_as K ''temp.txt'' O_RDONLY 0 fr2"
    and ne: "fr2 \<noteq> fw" "f_dentry_k K fr2 \<noteq> f_dentry_k K fw"
    and K: "fs_contract K c" and C: "cipher_contract K c E"
    using S unfolding both_setup_def trash_setup_def by auto
  let ?src = "c (f_dentry_k K fr2) (world s)" and ?old = "c (f_dentry_k K fw) (world s)"
  let ?ct = "enc_text K E (c_str (mem kb)) ?src"
  have loop: "returns (enc_loop K fr2 fw (Some kb) (i32 (i_size_k K (f_dentry_k K fr2) w)) (0, 0) u) R"
    if u: "\<forall>d. c d (world u) = c d (world s)" "opened u = fw # fr2 # opened s" "bid kb \<in> set (live u)"
      "\<forall>d. c d w = c d (world s)" "\<forall>i\<in>set (live u). i < next_id u" "\<exists>evs. trace u = trace s @ evs"
      and post: "\<And>t evs. live t = live u \<Longrightarrow> opened t = opened u \<Longrightarrow>
        c (f_dentry_k K fw) (world t) = ?ct @ drop (length ?ct) ?old \<Longrightarrow>
        (\<forall>d. d \<noteq> f_dentry_k K fw \<longrightarrow> c d (world t) = c d (world s)) \<Longrightarrow>
        trace t = trace s @ evs \<Longrightarrow> R (None, t)" for w u R
  proof -
    have ext: "safely (enc_loop K fr2 fw (Some kb) (int (length (c (f_dentry_k K fr2) (world u)))) (0, 0) u)
        (\<lambda>(early, t). \<exists>evs. trace t = trace u @ evs)"
      by (rule safely_mono [OF enc_loop_kept [OF u(5)]]) (auto simp: enc_left_def enc_kept_def transfers_def)
    have e: "i32 (i_size_k K (f_dentry_k K fr2) w) = int (length (c (f_dentry_k K fr2) (world u)))"
      using u big by (simp add: contract_size [OF K] i32_id)
    show ?thesis
      unfolding e using u(1,2,6) big
      by (intro returns_mono [OF returns_conj [OF enc_loop_encrypts [OF K A C ne(2) key(1) u(3)] ext]])
        (auto intro!: post)
  qed
  show ?thesis
    unfolding encrypt_temp_def
    using key nb ne less_SucI [OF bspec [OF fresh]]
    by (auto simp: kernel_keeps [OF KK] intro!: Q returns_kmalloc [OF KK A] returns_file_open [OF KK o1]
        returns_file_open [OF KK m] returns_rules loop returns_close_and_unlink)
qed

lemma zip_input_same:
  "\<forall>d. c d (world u) = c d (world s) \<Longrightarrow> zip_input K c Z fr cap s \<Longrightarrow> zip_input K c Z fr cap u"
  by (simp add: zip_input_def)

lemma zip_result_same:
  "\<forall>d. c d (world u) = c d (world s) \<Longrightarrow> zip_result K c Z fr u = zip_result K c Z fr s"
  by (simp add: zip_result_def)

lemma temp_text_length:
  assumes "zip_input K c Z fr cap s" and "length (c (f_dentry_k K ft) (world s)) < 2139000000"
  shows "length (temp_text K c Z fr ft s) < 2139000000"
proof -
  let ?src = "c (f_dentry_k K fr) (world s)"
  have "length (zip_result K c Z fr s) \<le> 8 * length (pieces piece_size ?src) + 4"
  proof (cases "pieces piece_size ?src = []")
    case False
    then have "length (zip_result K c Z fr s) = 8 * length (pieces piece_size ?src) + 4"
      using assms(1) unfolding zip_result_def by (intro zip_text_length) (simp_all add: zip_input_def Let_def)
    then show ?thesis by simp
  qed (simp add: zip_result_def)
  also have "length (pieces piece_size ?src) = (length ?src + 4079) div 4080"
    by (simp add: length_pieces piece_size_def)
  also have "8 * ((length ?src + 4079) div 4080) + 4 < 2139000000"
  proof -
    have "length ?src < 2147483648" using assms(1) by (simp add: zip_input_def Let_def)
    then show ?thesis by linarith
  qed
  finally show ?thesis using assms(2) by (simp add: temp_text_def)
qed

text \<open>\<open>process_enc_comp\<close> reduced to its second half: what holds when \<open>temp.txt\<close> has been written.\<close>

definition temp_written ::
  "'w kernel \<Rightarrow> (nat \<Rightarrow> 'w \<Rightarrow> byte list) \<Rightarrow> (byte list \<Rightarrow> byte list) \<Rightarrow> nat \<Rightarrow> nat \<Rightarrow> 'w kst \<Rightarrow> 'w kst \<Rightarrow> bool" where
  "temp_written K c Z fr ft s u \<longleftrightarrow>
     c (f_dentry_k K ft) (world u) = temp_text K c Z fr ft s \<and>
     (\<forall>d. d \<noteq> f_dentry_k K ft \<longrightarrow> d \<noteq> f_dentry_k K fr \<longrightarrow> c d (world u) = c d (world s)) \<and>
     opened u = opened s \<and> next_id s + 5 \<le> next_id u \<and>
     live u = [next_id s + 4, next_id s + 3, next_id s + 2, next_id s + 1, next_id s] @ live s \<and>
     (\<exists>evs dir q. trace u = evs @ [Closed fr, DirLocked dir, Unlinked dir (f_dentry_k K fr) q,
        DirUnlocked dir, Closed ft])"

lemma process_enc_comp_upto_temp:
  assumes S: "trash_setup K c name fr path lo ''.enc.cmp'' fw" and K: "fs_contract K c" and C: "comp_contract K c Z"
    and o2: "opens_as K ''temp.txt'' (O_WRONLY OR O_CREAT) 420 ft"
    and ne: "fr \<noteq> ft" "f_dentry_k K fr \<noteq> f_dentry_k K ft"
    and I: "zip_input K c Z fr (out_capacity K (next_id s + 4)) s"
    and rest: "\<And>nb m u. opens_as K (c_str m) (O_WRONLY OR O_CREAT) 420 fw \<Longrightarrow> bid nb = next_id s + 3 \<Longrightarrow>
      temp_written K c Z fr ft s u \<Longrightarrow> returns (encrypt_temp K (Some nb) m key u) Q"
  shows "returns (process_enc_comp K (Some name) key s) Q"
proof -
  have KK: "keeps_files K c" and A: "allocates K" and o1: "opens_as K name O_RDONLY 0 fr"
    and S': "trash_setup K c name fr path lo (concat [''.enc'', ''.cmp'']) fw"
    using S unfolding trash_setup_def by auto
  have zip: "returns (compress_file K fr ft u) R"
    if u: "\<forall>d. c d (world u) = c d (world s)" "fr \<in> set (opened u)" "ft \<in> set (opened u)" "next_id u = next_id s + 4"
      and post: "\<And>r t. live t = next_id u # live u \<Longrightarrow> opened t = opened u \<Longrightarrow>
        Suc (next_id u) \<le> next_id t \<Longrightarrow>
        c (f_dentry_k K ft) (world t) = temp_text K c Z fr ft s \<Longrightarrow>
        \<forall>d. d \<noteq> f_dentry_k K ft \<longrightarrow> c d (world t) = c d (world s) \<Longrightarrow> R (r, t)" for u R
  proof -
    have "safely (compress_file K fr ft u) (\<lambda>(r, t). live t = next_id u # live u \<longrightarrow> Suc (next_id u) \<le> next_id t)"
      by (rule safely_compress_file) simp_all
    moreover have "returns (compress_file K fr ft u) (\<lambda>(r, t). live t = next_id u # live u \<and>
        opened t = opened u \<and> c (f_dentry_k K ft) (world t) = temp_text K c Z fr ft s \<and>
        (\<forall>d. d \<noteq> f_dentry_k K ft \<longrightarrow> c d (world t) = c d (world s)))"
      by (rule returns_compress_file [OF K A C ne(2) zip_input_same [OF u(1) I, folded u(4)] u(2,3)])
        (use u(1) zip_result_same [OF u(1), of K Z fr] in \<open>auto simp: temp_text_def\<close>)
    ultimately show ?thesis
      by (auto intro!: post elim!: returns_mono [OF returns_conj])
  qed
  show ?thesis
    unfolding process_enc_comp_def
    using ne
    by (auto simp: kernel_keeps [OF KK] temp_written_def intro!: returns_kmalloc [OF KK A]
        returns_file_open [OF KK o1] returns_file_open [OF KK o2] returns_name_prefix [OF S]
        returns_name_finish [OF S'] returns_rules zip returns_close_and_unlink rest)
qed

subsection \<open>Properties\<close>

definition both_ready ::
  "'w kernel \<Rightarrow> (nat \<Rightarrow> 'w \<Rightarrow> byte list) \<Rightarrow> (byte list \<Rightarrow> byte list) \<Rightarrow> nat \<Rightarrow> nat \<Rightarrow> cbuf \<Rightarrow> 'w kst \<Rightarrow> bool" where
  "both_ready K c Z fr ft kb s \<longleftrightarrow>
     zip_input K c Z fr (out_capacity K (next_id s + 4)) s \<and>
     length (c (f_dentry_k K ft) (world s)) < 2139000000 \<and>
     length (c_str (mem kb)) < length (mem kb) \<and> bid kb \<in> set (live s) \<and>
     (\<forall>i\<in>set (live s). i < next_id s)"

lemma returns_process_enc_comp:
  assumes "both_setup K c Z E name fr path lo ft fr2 fw" and "both_ready K c Z fr ft kb s"
  shows "returns (process_enc_comp K (Some name) (Some kb) s) (\<lambda>(r, t).
    c (f_dentry_k K fw) (world t) =
      enc_text K E (c_str (mem kb)) (temp_text K c Z fr ft s) @
      drop (length (enc_text K E (c_str (mem kb)) (temp_text K c Z fr ft s))) (c (f_dentry_k K fw) (world s)) \<and>
    (\<forall>d. d \<noteq> f_dentry_k K fw \<and> d \<noteq> f_dentry_k K fr \<and> d \<noteq> f_dentry_k K ft \<longrightarrow>
      c d (world t) = c d (world s)) \<and>
    opened t = opened s \<and>
    (\<exists>k. live t = [k, next_id s + 4, next_id s + 2, next_id s + 1, next_id s] @ remove1 (bid kb) (live s)) \<and>
    (\<exists>evs1 d1 q evs2 d2. trace t = evs1 @
      [Closed fr, DirLocked d1, Unlinked d1 (f_dentry_k K fr) q, DirUnlocked d1, Closed ft] @ evs2 @
      [Closed fr2, DirLocked d2, Unlinked d2 (f_dentry_k K fr2) r, DirUnlocked d2, Closed fw]))"
proof -
  have S1: "trash_setup K c name fr path lo ''.enc.cmp'' fw" and K: "fs_contract K c" and C: "comp_contract K c Z"
    and o2: "opens_as K ''temp.txt'' (O_WRONLY OR O_CREAT) 420 ft" and ne1: "fr \<noteq> ft"
    and ne: "f_dentry_k K fr \<noteq> f_dentry_k K ft" "f_dentry_k K fw \<noteq> f_dentry_k K ft"
      "f_dentry_k K ft = f_dentry_k K fr2" "f_dentry_k K fr \<noteq> f_dentry_k K fw"
    using assms(1) unfolding both_setup_def trash_setup_def by auto
  have I: "zip_input K c Z fr (out_capacity K (next_id s + 4)) s" and big: "length (c (f_dentry_k K ft) (world s)) < 2139000000"
    and key: "length (c_str (mem kb)) < length (mem kb)" "bid kb \<in> set (live s)" "bid kb < next_id s"
    and fresh: "\<And>i. i \<in> set (live s) \<Longrightarrow> i < next_id s"
    using assms(2) by (auto simp: both_ready_def)
  show ?thesis
  proof (rule process_enc_comp_upto_temp [OF S1 K C o2 ne1 ne(1) I], goal_cases)
    case (1 nb m u)
    note u = 1(3) [unfolded temp_written_def]
    have src: "c (f_dentry_k K fr2) (world u) = temp_text K c Z fr ft s"
      and old: "c (f_dentry_k K fw) (world u) = c (f_dentry_k K fw) (world s)"
      using u ne by auto
    have f: "\<forall>i\<in>set (live u). i < next_id u"
      using u fresh by (fastforce dest: less_le_trans)
    obtain evs1 d1 q where tr: "trace u = evs1 @
        [Closed fr, DirLocked d1, Unlinked d1 (f_dentry_k K fr) q, DirUnlocked d1, Closed ft]"
      using u by blast
    show ?case
      by (rule returns_encrypt_temp [OF assms(1) 1(1) key(1) _ _ _ _ _ f])
        (use u 1(2) key ne temp_text_length [OF I big] src old in \<open>auto simp: tr\<close>, blast)
  qed
qed

text \<open>
  C15. When kernel, compressor and cipher keep their contracts, the files are below 2 GiB, and each
  piece of the input compresses to at least eight bytes and at most the capacity the code passes
  (the low half of a pointer), \<open>process_enc_comp\<close> leaves in the trash file the encryption of what
  the compression left in \<open>temp.txt\<close> (with the end of an older \<open>temp.txt\<close>, which is not truncated);
  it closes and unlinks first the input, whose result it drops, then \<open>temp.txt\<close>, and returns the
  result of the second unlink; all files are closed, the key is freed, and five buffers are kept.
\<close>

theorem process_enc_comp_result:
  assumes "both_setup K c Z E name fr path lo ft fr2 fw" and "both_ready K c Z fr ft kb s"
  shows "returns (process_enc_comp K (Some name) (Some kb) s) (\<lambda>(r, t).
    c (f_dentry_k K fw) (world t) =
      enc_text K E (c_str (mem kb)) (temp_text K c Z fr ft s) @
      drop (length (enc_text K E (c_str (mem kb)) (temp_text K c Z fr ft s))) (c (f_dentry_k K fw) (world s)) \<and>
    (\<forall>d. d \<noteq> f_dentry_k K fw \<and> d \<noteq> f_dentry_k K fr \<and> d \<noteq> f_dentry_k K ft \<longrightarrow>
      c d (world t) = c d (world s)) \<and>
    opened t = opened s \<and>
    (\<exists>k. live t = [k, next_id s + 4, next_id s + 2, next_id s + 1, next_id s] @ remove1 (bid kb) (live s)) \<and>
    (\<exists>evs1 d1 q evs2 d2. trace t = evs1 @
      [Closed fr, DirLocked d1, Unlinked d1 (f_dentry_k K fr) q, DirUnlocked d1, Closed ft] @ evs2 @
      [Closed fr2, DirLocked d2, Unlinked d2 (f_dentry_k K fr2) r, DirUnlocked d2, Closed fw]))"
  by (rule returns_process_enc_comp [OF assms])

text \<open>
  The second opening in \<open>process_enc_comp\<close> tests the wrong variable (\<open>f_temp\<close> for \<open>f_write\<close>): when
  the trash file does not open, the error pointer is dereferenced. The input has been unlinked by then.
\<close>

theorem encrypt_temp_unchecked_open:
  assumes "opens_as K ''temp.txt'' O_RDONLY 0 fr2"
    and "\<And>w. bad_ptr (fst (filp_open_k K (c_str m) (O_WRONLY OR O_CREAT) 420 w))"
  shows "encrypt_temp K nb m key s = None"
proof -
  have bad: "bad_ptr p" if "filp_open_k K (c_str m) (O_WRONLY OR O_CREAT) 420 w = (p, w')" for p w w'
    using assms(2) [of w] that by simp
  have "safely (encrypt_temp K nb m key s) (\<lambda>x. False)"
    unfolding encrypt_temp_def
    by (auto simp: exec_simps dest!: opens_as_eq [OF assms(1)] bad)
  then show ?thesis by (simp add: safely_False)
qed

text \<open>
  When \<open>temp.txt\<close> does not open again, \<open>process_enc_comp\<close> returns \<open>-EPERM\<close> with the input already
  unlinked and the trash file not even created.
\<close>

theorem process_enc_comp_temp_lost:
  assumes "trash_setup K c name fr path lo ''.enc.cmp'' fw" and "fs_contract K c" and "comp_contract K c Z"
    and "opens_as K ''temp.txt'' (O_WRONLY OR O_CREAT) 420 ft"
    and "\<And>w. bad_ptr (fst (filp_open_k K ''temp.txt'' O_RDONLY 0 w))"
    and "fr \<noteq> ft" and "f_dentry_k K fr \<noteq> f_dentry_k K ft" and "f_dentry_k K fw \<noteq> f_dentry_k K ft"
    and "zip_input K c Z fr (out_capacity K (next_id s + 4)) s"
  shows "returns (process_enc_comp K (Some name) key s) (\<lambda>(r, t). r = - EPERM \<and>
    c (f_dentry_k K fw) (world t) = c (f_dentry_k K fw) (world s) \<and>
    (\<exists>dir q. Unlinked dir (f_dentry_k K fr) q \<in> set (trace t)))"
proof (rule process_enc_comp_upto_temp [OF assms(1-4,6,7,9)], goal_cases)
  case (1 nb m u)
  obtain p w where p: "filp_open_k K ''temp.txt'' O_RDONLY 0 (world u) = (p, w)" "bad_ptr p"
    using assms(5) [of "world u"] by (cases "filp_open_k K ''temp.txt'' O_RDONLY 0 (world u)") simp
  have "c (f_dentry_k K fw) w = c (f_dentry_k K fw) (world u)"
    using assms(2) p(1) unfolding fs_contract_def keeps_files_def by (metis snd_conv)
  moreover have "f_dentry_k K fr \<noteq> f_dentry_k K fw" using assms(1) by (simp add: trash_setup_def)
  ultimately show ?case
    using 1(3) p assms(8)
    by (auto simp: encrypt_temp_def file_open_def filp_open_def set_fs_def temp_written_def Let_def) blast
qed

subsection \<open>Witnesses\<close>

lemma demo_both_setup:
  "both_setup demo_kernel (\<lambda>d w. w d) (\<lambda>bs. bs) demo_cipher ''/a'' 1 ''/a'' [] 3 3 2"
  using demo_trash_setup [of "''.enc.cmp''"] demo_fs_contract demo_comp_contract demo_cipher_contract
  by (simp add: both_setup_def opens_as_def) (simp add: demo_kernel_def demo_file_def)

lemma demo_both_ready:
  "both_ready demo_kernel (\<lambda>d w. w d) (\<lambda>bs. bs) 1 3 demo_key (demo_keyed demo_key ((\<lambda>d. [])(1 := ''0123456789'')))"
  using demo_key_terminated
  by (simp add: both_ready_def zip_input_def Let_def pieces_step piece_size_def)

theorem process_enc_comp_result_witness:
  "returns (process_enc_comp demo_kernel (Some ''/a'') (Some demo_key)
     (demo_keyed demo_key ((\<lambda>d. [])(1 := ''0123456789'')))) (\<lambda>(r, t). length (world t 2) = 16)"
proof -
  have "length (temp_text demo_kernel (\<lambda>d w. w d) (\<lambda>bs. bs) 1 3
      (demo_keyed demo_key ((\<lambda>d. [])(1 := ''0123456789'')))) = 12"
    by (simp add: temp_text_def zip_result_def demo_garbage pieces_step piece_size_def Let_def
        c_snprintf_d_def fmt_d_def dec_nat.simps overlay_def)
  then have "length (enc_text demo_kernel demo_cipher key (temp_text demo_kernel (\<lambda>d w. w d) (\<lambda>bs. bs) 1 3
      (demo_keyed demo_key ((\<lambda>d. [])(1 := ''0123456789''))))) = 16" for key
    by (subst enc_text_step)
      (auto simp: cipher_text_length [OF demo_cipher_contract] piece_size_def)
  then show ?thesis
    by (intro returns_mono [OF process_enc_comp_result [OF demo_both_setup demo_both_ready]]) auto
qed

definition demo_no_trash :: "mem_fs kernel" where
  "demo_no_trash = demo_kernel\<lparr>filp_open_k := (\<lambda>p fl m w.
     (if p = ''temp.txt'' \<or> p = ''/a'' then Ptr (demo_file p) else ErrPtr (- 2), w))\<rparr>"

theorem encrypt_temp_unchecked_open_witness:
  "encrypt_temp demo_no_trash None ''/usr/trashbin/x'' (Some demo_key) (demo_keyed demo_key (\<lambda>d. [])) = None"
  by (rule encrypt_temp_unchecked_open [where ?fr2.0 = 3])
    (simp_all add: opens_as_def demo_no_trash_def demo_file_def c_str_def)

definition demo_no_temp :: "mem_fs kernel" where
  "demo_no_temp = demo_kernel\<lparr>filp_open_k := (\<lambda>p fl m w.
     (if p = ''temp.txt'' \<and> fl = O_RDONLY then ErrPtr (- 2) else Ptr (demo_file p), w))\<rparr>"

theorem process_enc_comp_temp_lost_witness:
  "returns (process_enc_comp demo_no_temp (Some ''/a'') (Some demo_key)
     (demo_keyed demo_key ((\<lambda>d. [])(1 := ''0123456789'')))) (\<lambda>(r, t). r = - EPERM \<and> world t 2 = [])"
proof -
  have d: "f_dentry_k demo_no_temp f = f" for f by (simp add: demo_no_temp_def)
  have w: "O_WRONLY OR O_CREAT \<noteq> O_RDONLY" by (simp add: header_defs)
  have "trash_setup demo_no_temp (\<lambda>d w. w d) ''/a'' 1 ''/a'' [] ''.enc.cmp'' 2"
    using demo_trash_setup [of "''.enc.cmp''"] w
    by (simp add: demo_no_temp_def trash_setup_def keeps_files_def allocates_def clock_contract_def
        opens_as_def) (simp add: demo_kernel_def)
  moreover have "fs_contract demo_no_temp (\<lambda>d w. w d)"
    using demo_fs_contract
    by (simp add: demo_no_temp_def fs_contract_def reads_files_def writes_files_def keeps_files_def)
  moreover have "comp_contract demo_no_temp (\<lambda>d w. w d) (\<lambda>bs. bs)"
    using demo_comp_contract by (simp add: demo_no_temp_def comp_contract_def)
  moreover have "opens_as demo_no_temp ''temp.txt'' (O_WRONLY OR O_CREAT) 420 3"
    using w by (simp add: demo_no_temp_def opens_as_def demo_file_def)
  moreover have "zip_input demo_no_temp (\<lambda>d w. w d) (\<lambda>bs. bs) 1
      (out_capacity demo_no_temp i) (demo_keyed demo_key ((\<lambda>d. [])(1 := ''0123456789'')))" for i
    using demo_capacity [unfolded out_capacity_def]
    by (simp add: zip_input_def Let_def pieces_step piece_size_def d out_capacity_def)
      (simp add: demo_no_temp_def)
  ultimately show ?thesis
    by (rule_tac returns_mono [OF process_enc_comp_temp_lost]) (auto simp: d, auto simp: demo_no_temp_def)
qed

end
