(* ===== verification/Syscall.thy ===== *)
theory Syscall
  imports Enc_Comp
begin

text \<open>
  The synchronous system call: \<open>xclone2\<close>, the creation of the trash folder and the module's entry and
  exit, all of \<open>sys_xclone2.c\<close>. The flags come from the calling task (\<open>xclone_flag\<close>, set by the
  modified \<open>clone\<close>), so they are an argument here. The pointer \<open>sysptr\<close> through which the kernel reaches
  the system call belongs to the kernel and is threaded through entry and exit.
\<close>

subsection \<open>Code\<close>

definition xclone2 :: "'w kernel \<Rightarrow> 64 word \<Rightarrow> Param option \<Rightarrow> 'w kst \<Rightarrow> (int \<times> 'w kst) option" where
  "xclone2 K xclone_flag arg s =
     (if xclone_flag = 4081 then do {
        param \<leftarrow> arg;
        processunlink K arg s
      }
      else do {
        s \<leftarrow> (if xclone_flag = 4083 then do {
                param \<leftarrow> arg;
                (err_zip, s) \<leftarrow> processcompress K (fname param) s;
                Some s
              }
              else if xclone_flag = 4085 then do {
                param \<leftarrow> arg;
                (err_enc, s) \<leftarrow> processencryption K (fname param) (enc_key s) s;
                Some s
              }
              else if xclone_flag = 4087 then do {
                param \<leftarrow> arg;
                (enc_err_zip, s) \<leftarrow> process_enc_comp K (fname param) (enc_key s) s;
                Some s
              }
              else Some s);
        (case arg of
           None \<Rightarrow> Some (- EINVAL, s)
         | Some param \<Rightarrow> if fname param = None then Some (- EINVAL, s) else Some (0, s))
      })"

text \<open>The path of the trash folder, in a buffer of 13 bytes.\<close>

definition trashbin_path :: "cbuf option \<Rightarrow> 'w kst \<Rightarrow> byte list option" where
  "trashbin_path trashbin_folder_path s = do {
     m \<leftarrow> buf_bytes trashbin_folder_path s;
     m \<leftarrow> c_memset m NUL (length ''/usr'' + 9);
     m \<leftarrow> c_memcpy m ''/usr'';
     c_strcat m ''/trashbin''
   }"

definition make_trashbin ::
  "'w kernel \<Rightarrow> cbuf option \<Rightarrow> string \<Rightarrow> 'w kst \<Rightarrow> (int \<times> 'w kst) option" where
  "make_trashbin K trashbin_folder_path path s = do {
     let ((tbdentry, dir), w) = kern_path_create_k K path (world s);
     let s = s\<lparr>world := w\<rparr>;
     if bad_ptr tbdentry then Some (- ptr_err tbdentry, s)
     else do {
       d \<leftarrow> deref tbdentry;
       let s = s\<lparr>world := done_path_create_k K (world s)\<rparr>;
       (_, s) \<leftarrow> lock_dir dir s;
       let (err, w) = vfs_mkdir_k K dir d (world s);
       let s = s\<lparr>world := w\<rparr>;
       (_, s) \<leftarrow> unlock_dir dir s;
       if err < 0 then do {
         (_, s) \<leftarrow> kfree trashbin_folder_path s;
         Some (err, s)
       }
       else Some (err, s)
     }
   }"

definition create_trashbin :: "'w kernel \<Rightarrow> 'w kst \<Rightarrow> (int \<times> 'w kst) option" where
  "create_trashbin K s = do {
     (trashbin_folder_path, s) \<leftarrow> kmalloc K (length ''/usr'' + 9) s;
     if trashbin_folder_path = None then Some (0, s)
     else do {
       m \<leftarrow> trashbin_path trashbin_folder_path s;
       make_trashbin K trashbin_folder_path (c_str m) s
     }
   }"

datatype syscall_code = Sync_xclone2 | Async_xclone2async | Myorg_xclone2

definition init_sys_xclone2 ::
  "'w kernel \<Rightarrow> syscall_code option \<Rightarrow> 'w kst \<Rightarrow> ((int \<times> syscall_code option) \<times> 'w kst) option" where
  "init_sys_xclone2 K sysptr s = do {
     (err, s) \<leftarrow> create_trashbin K s;
     let sysptr = (if sysptr = None then Some Sync_xclone2 else sysptr);
     Some ((0, sysptr), s)
   }"

definition exit_sys_xclone2 :: "syscall_code option \<Rightarrow> syscall_code option" where
  "exit_sys_xclone2 sysptr = (if sysptr \<noteq> None then None else sysptr)"

subsection \<open>The module protocol\<close>

text \<open>
  What the three modules have in common: loading one returns 0, and changes the pointer only if the
  system call is free and then to its own; unloading one always frees it. Two of the modules
  always take a free system call.
\<close>

locale syscall_module =
  fixes init :: "syscall_code option \<Rightarrow> 's \<Rightarrow> ((int \<times> syscall_code option) \<times> 's) option"
    and exit_mod :: "syscall_code option \<Rightarrow> 's \<Rightarrow> (syscall_code option \<times> 's) option"
    and entry :: syscall_code
  assumes init_result: "init ptr s = Some ((r, ptr'), s') \<Longrightarrow>
      r = 0 \<and> (ptr' = ptr \<or> ptr = None \<and> ptr' = Some entry)"
    and exit_result: "exit_mod ptr s = Some (ptr', s') \<Longrightarrow> ptr' = None"
begin

lemma load_keeps_other: "init (Some other) s = Some ((r, ptr'), s') \<Longrightarrow> r = 0 \<and> ptr' = Some other"
  using init_result by fastforce

lemma conflict:
  "init (Some other) s = Some ((r, ptr), s1) \<Longrightarrow> exit_mod ptr s2 = Some (ptr', s3) \<Longrightarrow>
   r = 0 \<and> ptr = Some other \<and> ptr' = None"
  using load_keeps_other exit_result by blast

end

locale owning_module = syscall_module +
  assumes init_takes: "init None s = Some ((r, ptr'), s') \<Longrightarrow> ptr' = Some entry"
begin

lemma load_unload:
  "init None s = Some ((r, ptr), s1) \<Longrightarrow> exit_mod ptr s2 = Some (ptr', s3) \<Longrightarrow>
   r = 0 \<and> ptr = Some entry \<and> ptr' = None"
  using init_result init_takes exit_result by blast

end

interpretation sync: owning_module "init_sys_xclone2 K" "\<lambda>ptr s. Some (exit_sys_xclone2 ptr, s)" Sync_xclone2
  by unfold_locales
    (auto simp: init_sys_xclone2_def exit_sys_xclone2_def Option.bind_eq_Some_conv Let_def split: if_splits)

subsection \<open>Properties\<close>

text \<open>
  C38. The path \<open>/usr/trashbin\<close> and its NUL are one byte longer than the buffer \<open>create_trashbin\<close> makes
  for them: whenever the allocation succeeds, \<open>strcat\<close> writes past its end.
\<close>

theorem create_trashbin_overflow:
  assumes "allocates K"
  shows "create_trashbin K s = None"
proof -
  have path: "trashbin_path (Some \<lparr>bid = i, mem = resize 13 g\<rparr>) u = None" for i g u
  proof -
    have "overlay (replicate 13 NUL) 0 ''/usr'' = ''/usr'' @ replicate 9 NUL"
      by (simp add: overlay_def numeral_eq_Suc)
    moreover have "c_strcat (''/usr'' @ replicate 9 NUL) ''/trashbin'' = None"
      by (rule c_strcat_overflow) (simp add: c_str_def)
    ultimately show ?thesis
      by (auto simp: trashbin_path_def buf_bytes_def c_memset_def c_memcpy_def overlay_def)
  qed
  have "safely (create_trashbin K s) (\<lambda>x. False)"
    unfolding create_trashbin_def
    by (auto simp: exec_simps allocates_not_None [OF assms] path)
  then show ?thesis by (simp add: safely_False)
qed

text \<open>
  Apart from a plain move, the system call never reports what happened to the file: on every
  kernel, with any other flags, it returns 0 for every named file, whatever its routine returned.
\<close>

theorem xclone2_hides_errors:
  assumes "flag \<noteq> 4081" and "fname a \<noteq> None"
  shows "safely (xclone2 K flag (Some a) s) (\<lambda>(r, t). r = 0)"
  using assms by (auto simp: xclone2_def safely_iff [of "processcompress _ _ _"]
      safely_iff [of "processencryption _ _ _ _"] safely_iff [of "process_enc_comp _ _ _ _"])

text \<open>
  Flags without \<open>CLONE_PROT_MV\<close> do nothing: to ask for compression or encryption alone, or both,
  leaves everything as it is and returns 0.
\<close>

theorem xclone2_other_flags:
  assumes "flag \<in> {ucast CLONE_PROT_ZIP, ucast CLONE_PROT_ENC, ucast (CLONE_PROT_ZIP OR CLONE_PROT_ENC)}"
    and "fname a \<noteq> None"
  shows "xclone2 K flag (Some a) s = Some (0, s)"
  using assms by (auto simp: xclone2_def flag_defs)

text \<open>
  The argument is dereferenced before it is compared with \<open>NULL\<close>: a \<open>NULL\<close> argument faults with
  every combination of flags the routine acts on, and is answered with \<open>-EINVAL\<close> with every other.
\<close>

theorem xclone2_null_argument:
  "xclone2 K flag None s =
     (if flag \<in> {ucast CLONE_PROT_MV, ucast (CLONE_PROT_MV OR CLONE_PROT_ZIP),
         ucast (CLONE_PROT_MV OR CLONE_PROT_ENC), ucast (CLONE_PROT_MV OR CLONE_PROT_ZIP OR CLONE_PROT_ENC)}
      then None else Some (- EINVAL, s))"
  by (auto simp: xclone2_def flag_defs)

subsection \<open>Refinement of an abstract trash folder\<close>

text \<open>
  The abstract specification: a trash operation is a function from the content of the file to the
  content of its trash file, chosen by the flags, and it changes nothing but the two. It is stated
  for the three combinations of flags that transform the file; a plain move never gets to its copy
  when \<open>d_path\<close> behaves as documented (\<open>processunlink_null_path\<close>).
\<close>

definition trash_text ::
  "'w kernel \<Rightarrow> cipher \<Rightarrow> (byte list \<Rightarrow> byte list) \<Rightarrow> 64 word \<Rightarrow> byte list \<Rightarrow> byte list \<Rightarrow> byte list" where
  "trash_text K E Z flag key src =
     (let zip = zip_text Z (resize 4 (stack_garbage_k K 4)) [] (pieces piece_size src) in
      if flag = ucast (CLONE_PROT_MV OR CLONE_PROT_ENC) then enc_text K E key src
      else if flag = ucast (CLONE_PROT_MV OR CLONE_PROT_ZIP) then zip
      else enc_text K E key zip)"

definition spec_trash :: "nat \<Rightarrow> nat \<Rightarrow> (byte list \<Rightarrow> byte list) \<Rightarrow> (nat \<Rightarrow> byte list) \<Rightarrow> nat \<Rightarrow> byte list" where
  "spec_trash input trash f cs = cs(trash := f (cs input) @ drop (length (f (cs input))) (cs trash))"

definition call_ready ::
  "'w kernel \<Rightarrow> (nat \<Rightarrow> 'w \<Rightarrow> byte list) \<Rightarrow> cipher \<Rightarrow> (byte list \<Rightarrow> byte list) \<Rightarrow> 64 word \<Rightarrow> string \<Rightarrow> nat
   \<Rightarrow> string \<Rightarrow> string \<Rightarrow> nat \<Rightarrow> nat \<Rightarrow> nat \<Rightarrow> cbuf \<Rightarrow> 'w kst \<Rightarrow> bool" where
  "call_ready K c E Z flag name fin path lo tf tmp tmp2 kb s \<longleftrightarrow>
     (flag = ucast (CLONE_PROT_MV OR CLONE_PROT_ZIP) \<and> zip_setup K c Z name fin path lo tf \<and>
        zip_input K c Z fin (out_capacity K (next_id s + 4)) s) \<or>
     (flag = ucast (CLONE_PROT_MV OR CLONE_PROT_ENC) \<and> enc_setup K c E name fin path lo tf kb s \<and>
        enc_key s = Some kb) \<or>
     (flag = ucast (CLONE_PROT_MV OR CLONE_PROT_ZIP OR CLONE_PROT_ENC) \<and>
        both_setup K c Z E name fin path lo tmp tmp2 tf \<and> both_ready K c Z fin tmp kb s \<and>
        c (f_dentry_k K tmp) (world s) = [] \<and> enc_key s = Some kb)"

text \<open>The files the call may use up: its input and, with both flags, the scratch file \<open>temp.txt\<close>.\<close>

definition used_up :: "'w kernel \<Rightarrow> 64 word \<Rightarrow> nat \<Rightarrow> nat \<Rightarrow> nat set" where
  "used_up K flag fin tmp =
     (if flag = ucast (CLONE_PROT_MV OR CLONE_PROT_ZIP OR CLONE_PROT_ENC)
      then {f_dentry_k K fin, f_dentry_k K tmp} else {f_dentry_k K fin})"

text \<open>
  C1. The system call refines the abstract trash operation, for each of the three combinations of
  flags that encrypt or compress: read through the contents of the files, its effect on every file
  but the unlinked input (and the scratch file, when it uses one) is \<open>spec_trash\<close> of the function
  the flags stand for. The conditions are those of the three routines: kernel, cipher and compressor
  keep their contracts, names fit, files are below 2 GiB, a key is set, each piece to be compressed
  gives at least eight bytes and at most the capacity passed, and \<open>temp.txt\<close> is empty at first.
\<close>

theorem xclone2_refines_trash:
  assumes "call_ready K c E Z flag name fin path lo tf tmp tmp2 kb s" and "fname a = Some name"
  shows "returns (xclone2 K flag (Some a) s) (\<lambda>(r, t). \<forall>d. d \<notin> used_up K flag fin tmp \<longrightarrow>
    c d (world t) =
      spec_trash (f_dentry_k K fin) (f_dentry_k K tf) (trash_text K E Z flag (c_str (mem kb)))
        (\<lambda>d. c d (world s)) d)"
  using assms(1) unfolding call_ready_def
proof (elim disjE conjE, goal_cases)
  case 1
  show ?case
    using returns_compress_result [OF 1(2,3)] 1(1) assms(2)
    by (auto simp: xclone2_def flag_defs trash_text_def spec_trash_def zip_result_def used_up_def
        elim!: returns_mono)
next
  case 2
  have "returns (processencryption K (Some name) (Some kb) s) (\<lambda>(r, t). \<forall>d. d \<notin> used_up K flag fin tmp \<longrightarrow>
    c d (world t) =
      spec_trash (f_dentry_k K fin) (f_dentry_k K tf) (trash_text K E Z flag (c_str (mem kb)))
        (\<lambda>d. c d (world s)) d)"
    using 2(2) unfolding enc_setup_def 2(1)
    by (elim conjE, intro returns_mono [OF processencryption_upto_unlink])
      (auto simp: trash_text_def spec_trash_def used_up_def)
  then show ?case
    using 2(1,3) assms(2) by (auto simp: xclone2_def flag_defs elim!: returns_mono)
next
  case 3
  have "temp_text K c Z fin tmp s = zip_result K c Z fin s" using 3(4) by (simp add: temp_text_def)
  then show ?case
    using returns_process_enc_comp [OF 3(2,3)] 3(1,5) assms(2)
    by (auto simp: xclone2_def flag_defs trash_text_def spec_trash_def zip_result_def used_up_def
        elim!: returns_mono)
qed

text \<open>
  Two system calls that encrypt, with no new key written between them, crash the kernel: the
  second passes the freed key on.
\<close>

theorem xclone2_second_encryption:
  assumes "enc_setup K c E name fr path lo fw kb s" and "enc_key s = Some kb"
    and "opens_as K name2 O_RDONLY 0 fr2" and "creates K"
    and "fname a = Some name" and "fname a2 = Some name2"
  shows "returns (xclone2 K (ucast (CLONE_PROT_MV OR CLONE_PROT_ENC)) (Some a) s) (\<lambda>(r, t).
    xclone2 K (ucast (CLONE_PROT_MV OR CLONE_PROT_ENC)) (Some a2) t = None)"
  using returns_stale_key [OF assms(1-4)] assms(5,6)
  by (auto simp: xclone2_def flag_defs elim!: returns_mono)

subsection \<open>Witnesses\<close>

theorem create_trashbin_overflow_witness: "create_trashbin demo_kernel (demo_state (\<lambda>d. [])) = None"
  by (rule create_trashbin_overflow [OF demo_allocates])

theorem xclone2_hides_errors_witness:
  "safely (xclone2 demo_no_comp 4083 (Some \<lparr>fname = Some ''/a'', b1 = 0\<rparr>) (demo_state ((\<lambda>d. [])(1 := ''secret''))))
     (\<lambda>(r, t). r = 0)"
  by (rule xclone2_hides_errors) simp_all

theorem xclone2_other_flags_witness:
  "xclone2 demo_kernel 0xff2 (Some \<lparr>fname = Some ''/a'', b1 = 0\<rparr>) (demo_state (\<lambda>d. [])) =
     Some (0, demo_state (\<lambda>d. []))"
  by (rule xclone2_other_flags) (simp_all add: flag_defs)

lemma demo_call_ready:
  "call_ready demo_kernel (\<lambda>d w. w d) demo_cipher (\<lambda>bs. bs) (ucast (CLONE_PROT_MV OR CLONE_PROT_ZIP OR CLONE_PROT_ENC))
     ''/a'' 1 ''/a'' [] 2 3 3 demo_key (demo_keyed demo_key ((\<lambda>d. [])(1 := ''0123456789'')))"
proof -
  have "f_dentry_k demo_kernel 3 = 3" by (simp add: demo_kernel_def)
  then show ?thesis
    using demo_both_setup demo_both_ready by (simp add: call_ready_def)
qed

theorem xclone2_refines_trash_witness:
  "returns (xclone2 demo_kernel (ucast (CLONE_PROT_MV OR CLONE_PROT_ZIP OR CLONE_PROT_ENC))
      (Some \<lparr>fname = Some ''/a'', b1 = 0\<rparr>) (demo_keyed demo_key ((\<lambda>d. [])(1 := ''0123456789''))))
     (\<lambda>(r, t). world t 2 = enc_text demo_kernel demo_cipher (c_str (mem demo_key))
        (zip_text (\<lambda>bs. bs) (resize 4 (stack_garbage_k demo_kernel 4)) [] (pieces piece_size ''0123456789'')))"
proof -
  have d: "f_dentry_k demo_kernel f = f" for f by (simp add: demo_kernel_def)
  show ?thesis
    by (rule returns_mono [OF xclone2_refines_trash [OF demo_call_ready]])
      (auto simp: spec_trash_def trash_text_def used_up_def flag_defs Let_def d)
qed

theorem xclone2_second_encryption_witness:
  "returns (xclone2 demo_kernel (ucast (CLONE_PROT_MV OR CLONE_PROT_ENC)) (Some \<lparr>fname = Some ''/a'', b1 = 0\<rparr>)
      (demo_keyed demo_key ((\<lambda>d. [])(1 := ''secret'')))) (\<lambda>(r, t).
    xclone2 demo_kernel (ucast (CLONE_PROT_MV OR CLONE_PROT_ENC)) (Some \<lparr>fname = Some ''/b'', b1 = 0\<rparr>) t = None)"
proof -
  have "opens_as demo_kernel ''/b'' O_RDONLY 0 2"
    by (simp add: opens_as_def demo_kernel_def demo_file_def)
  from xclone2_second_encryption [OF demo_enc_setup [OF demo_key_terminated] _ this demo_creates,
      of "(\<lambda>d. [])(1 := ''secret'')" "\<lparr>fname = Some ''/a'', b1 = 0\<rparr>" "\<lparr>fname = Some ''/b'', b1 = 0\<rparr>"]
  show ?thesis by simp
qed

end
