(* ===== verification/Numbers.thy ===== *)
theory Numbers
  imports C_Strings
begin

text \<open>
  Reading a decimal number from a string the way the kernel's \<open>kstrtoint\<close> does: an optional sign,
  digits, at most one newline, nothing else. The modules use it for the size headers of compressed
  files and for the files under \<open>/proc\<close>.
\<close>

definition ERANGE :: int where "ERANGE = 34"

definition is_digit :: "char \<Rightarrow> bool" where
  "is_digit c = (48 \<le> (of_char c :: nat) \<and> (of_char c :: nat) \<le> 57)"

definition digit_value :: "char \<Rightarrow> nat" where
  "digit_value c = of_char c - 48"

definition dec_value :: "string \<Rightarrow> nat" where
  "dec_value ds = foldl (\<lambda>v c. 10 * v + digit_value c) 0 ds"

definition parse_unsigned :: "string \<Rightarrow> int + nat" where
  "parse_unsigned str =
     (let ds = takeWhile is_digit str; rest = dropWhile is_digit str in
      if 2 ^ 64 \<le> dec_value ds then Inl (- ERANGE)
      else if ds = [] then Inl (- EINVAL)
      else if rest = [] \<or> rest = [CHR 0x0A] then Inr (dec_value ds)
      else Inl (- EINVAL))"

definition parse_signed :: "string \<Rightarrow> int + int" where
  "parse_signed str =
     (if str \<noteq> [] \<and> hd str = CHR ''-''
      then (case parse_unsigned (tl str) of
              Inl e \<Rightarrow> Inl e
            | Inr n \<Rightarrow> if 2 ^ 63 < n then Inl (- ERANGE) else Inr (- int n))
      else (case parse_unsigned (if str \<noteq> [] \<and> hd str = CHR ''+'' then tl str else str) of
              Inl e \<Rightarrow> Inl e
            | Inr n \<Rightarrow> if 2 ^ 63 \<le> n then Inl (- ERANGE) else Inr (int n)))"

text \<open>An error leaves the result variable as it was, so the value comes as a sum.\<close>

definition kstrtoint :: "string \<Rightarrow> int + int" where
  "kstrtoint str =
     (case parse_signed str of
        Inl e \<Rightarrow> Inl e
      | Inr x \<Rightarrow> if i32 x = x then Inr x else Inl (- ERANGE))"

text \<open>
  The same on an array that need not hold a NUL: the parser stops at the first character that is no
  digit, or one behind a newline that follows digits. It leaves the array when all characters behind
  the sign are digits, or digits and a newline at the very end.
\<close>

definition skip_sign :: "byte list \<Rightarrow> byte list" where
  "skip_sign ps = (if ps \<noteq> [] \<and> hd ps \<in> {CHR ''-'', CHR ''+''} then tl ps else ps)"

definition kstrtoint_array :: "byte list \<Rightarrow> (int + int) option" where
  "kstrtoint_array ps =
     (let ds = takeWhile is_digit (skip_sign ps); rest = dropWhile is_digit (skip_sign ps) in
      if rest = [] \<or> ds \<noteq> [] \<and> rest = [CHR 0x0A] then None
      else Some (kstrtoint (c_str ps)))"

text \<open>
  \<open>kstrtoint_from_user\<close> copies at most 34 bytes of what the user wrote; the copy may fault.
\<close>

definition kstrtoint_from_user :: "byte list option \<Rightarrow> int + int" where
  "kstrtoint_from_user user =
     (case user of
        None \<Rightarrow> Inl (- EFAULT)
      | Some bytes \<Rightarrow> kstrtoint (c_str (take 34 bytes)))"

subsection \<open>Reading what was printed\<close>

lemma set_dropWhile_keeps: "x \<in> set xs \<Longrightarrow> \<not> P x \<Longrightarrow> x \<in> set (dropWhile P xs)"
  by (induction xs) auto

lemma kstrtoint_array_terminated:
  assumes "NUL \<in> set ps"
  shows "kstrtoint_array ps = Some (kstrtoint (c_str ps))"
proof -
  have "NUL \<in> set (skip_sign ps)" using assms by (cases ps) (auto simp: skip_sign_def)
  moreover have "\<not> is_digit NUL" by (simp add: is_digit_def)
  ultimately have "NUL \<in> set (dropWhile is_digit (skip_sign ps))"
    by (rule set_dropWhile_keeps)
  then have "dropWhile is_digit (skip_sign ps) \<noteq> []" "dropWhile is_digit (skip_sign ps) \<noteq> [CHR 0x0A]"
    by (cases "dropWhile is_digit (skip_sign ps)"; fastforce)+
  then show ?thesis by (simp add: kstrtoint_array_def Let_def del: dropWhile_eq_Nil_conv)
qed

lemma is_digit_digit: "d < 10 \<Longrightarrow> is_digit (digit d)"
  by (simp add: is_digit_def of_char_digit)

lemma digit_value_digit: "d < 10 \<Longrightarrow> digit_value (digit d) = d"
  by (simp add: digit_value_def of_char_digit)

lemma dec_nat_digits: "\<forall>c\<in>set (dec_nat n). is_digit c"
  using dec_nat_chars is_digit_digit by blast

lemma dec_nat_not_Nil [simp]: "dec_nat n \<noteq> []"
  by (subst dec_nat.simps) simp

lemma dec_value_dec_nat: "dec_value (dec_nat n) = n"
proof (induction n rule: dec_nat.induct)
  case (1 n)
  show ?case
  proof (cases "n < 10")
    case True
    then show ?thesis by (subst dec_nat.simps) (simp add: dec_value_def digit_value_digit)
  next
    case False
    then have "foldl (\<lambda>v c. 10 * v + digit_value c) 0 (dec_nat (n div 10)) = n div 10"
      using 1 by (simp add: dec_value_def)
    with False show ?thesis
      by (subst dec_nat.simps) (simp add: dec_value_def digit_value_digit)
  qed
qed

lemma parse_unsigned_dec_nat:
  assumes "n < 2 ^ 64" and "rest = [] \<or> rest = [CHR 0x0A]"
  shows "parse_unsigned (dec_nat n @ rest) = Inr n"
proof -
  have "\<not> is_digit (CHR 0x0A)" by (simp add: is_digit_def)
  then have "takeWhile is_digit (dec_nat n @ rest) = dec_nat n" "dropWhile is_digit (dec_nat n @ rest) = rest"
    using dec_nat_digits [of n] assms(2) by auto
  then show ?thesis using assms by (auto simp: parse_unsigned_def dec_value_dec_nat)
qed

lemma hd_dec_nat: "hd (dec_nat n @ rest) \<noteq> CHR ''-''" "hd (dec_nat n @ rest) \<noteq> CHR ''+''"
proof -
  have "is_digit (hd (dec_nat n @ rest))" using dec_nat_digits [of n] by simp
  moreover have "\<not> is_digit CHR ''-''" "\<not> is_digit CHR ''+''" by (simp_all add: is_digit_def)
  ultimately show "hd (dec_nat n @ rest) \<noteq> CHR ''-''" "hd (dec_nat n @ rest) \<noteq> CHR ''+''" by metis+
qed

lemma kstrtoint_fmt_d:
  assumes "- 2147483648 \<le> x" and "x < 2147483648" and "rest = [] \<or> rest = [CHR 0x0A]"
  shows "kstrtoint (fmt_d x @ rest) = Inr x"
proof -
  have "parse_signed (fmt_d x @ rest) = Inr x"
  proof (cases "x < 0")
    case True
    then show ?thesis
      using assms parse_unsigned_dec_nat [of "nat (- x)" rest]
      by (simp add: parse_signed_def fmt_d_def nat_less_iff)
  next
    case False
    then show ?thesis
      using assms parse_unsigned_dec_nat [of "nat x" rest] hd_dec_nat [of "nat x" rest]
      by (simp add: parse_signed_def fmt_d_def nat_less_iff)
  qed
  then show ?thesis using assms(1,2) by (simp add: kstrtoint_def i32_id)
qed

lemma fmt_d_length: "- 2147483648 \<le> x \<Longrightarrow> x < 2147483648 \<Longrightarrow> length (fmt_d x) \<le> 11"
  using dec_nat_length_bound [of "nat \<bar>x\<bar>" 10] by (auto simp: fmt_d_def nat_less_iff)

lemma fmt_d_inj:
  assumes "- 2147483648 \<le> x" "x < 2147483648" "- 2147483648 \<le> y" "y < 2147483648" "fmt_d x = fmt_d y"
  shows "x = y"
  using kstrtoint_fmt_d [of x "[]"] kstrtoint_fmt_d [of y "[]"] assms by simp

end
