(* ===== verification/Proc_Files.thy ===== *)
theory Proc_Files
  imports Numbers Syscall
begin

text \<open>
  The three modules with a file under \<open>/proc\<close>: \<open>proc_file_num.c\<close> and \<open>proc_queue_len.c\<close>, which hold an
  \<open>int\<close> each, and \<open>proc_key.c\<close>, which holds the encryption key. A write comes from user space, so it is
  an argument: the bytes, or nothing when they cannot be copied.
\<close>

subsection \<open>The two numbers\<close>

record proc_vars =
  num_files :: int
  queue_len :: int

abbreviation newline :: char where "newline \<equiv> CHR 0x0A"

definition file_num_show :: "proc_vars \<Rightarrow> string" where
  "file_num_show v = fmt_d (num_files v) @ [newline]"

text \<open>
  When the user's bytes cannot be copied or are no number, \<open>temp_val\<close> is what the stack held,
  \<open>garbage\<close>. The result is \<open>count\<close> in every case.
\<close>

definition file_num_write ::
  "int \<Rightarrow> byte list option \<Rightarrow> nat \<Rightarrow> proc_vars \<Rightarrow> int \<times> proc_vars" where
  "file_num_write garbage user count v =
     (let val = kstrtoint_from_user (map_option (take count) user);
          temp_val = (case val of Inl e \<Rightarrow> garbage | Inr x \<Rightarrow> x) in
      (int count, v\<lparr>num_files := temp_val\<rparr>))"

definition queue_len_show :: "proc_vars \<Rightarrow> string" where
  "queue_len_show v = fmt_d (queue_len v) @ [newline]"

definition queue_len_write ::
  "int \<Rightarrow> byte list option \<Rightarrow> nat \<Rightarrow> proc_vars \<Rightarrow> int \<times> proc_vars" where
  "queue_len_write garbage user count v =
     (let val = kstrtoint_from_user (map_option (take count) user);
          temp_val = (case val of Inl e \<Rightarrow> garbage | Inr x \<Rightarrow> x) in
      (int count, v\<lparr>queue_len := temp_val\<rparr>))"

text \<open>What a file with a number promises, stated for any such file.\<close>

locale int_file =
  fixes write_op :: "int \<Rightarrow> byte list option \<Rightarrow> nat \<Rightarrow> 'v \<Rightarrow> int \<times> 'v"
    and show_op :: "'v \<Rightarrow> string"
    and get :: "'v \<Rightarrow> int"
  assumes write_get: "get (snd (write_op g user count v)) =
      (case kstrtoint_from_user (map_option (take count) user) of Inl e \<Rightarrow> g | Inr x \<Rightarrow> x)"
    and write_count: "fst (write_op g user count v) = int count"
    and show_get: "show_op v = fmt_d (get v) @ [newline]"
begin

lemma parse_printed:
  assumes "- 2147483648 \<le> x" and "x < 2147483648"
  shows "kstrtoint_from_user (Some (fmt_d x @ [newline])) = Inr x"
proof -
  have "length (fmt_d x @ [newline]) \<le> 34" using fmt_d_length [OF assms] by simp
  then have "take 34 (fmt_d x @ [newline]) = fmt_d x @ [newline]" by (rule take_all)
  moreover have "c_str (fmt_d x @ [newline]) = fmt_d x @ [newline]"
    using fmt_d_no_NUL [of x] by (simp add: c_str_append_rest) (simp add: c_str_def)
  ultimately show ?thesis
    using kstrtoint_fmt_d [OF assms, of "[newline]"] by (simp add: kstrtoint_from_user_def)
qed

lemma write_show:
  "- 2147483648 \<le> x \<Longrightarrow> x < 2147483648 \<Longrightarrow>
   show_op (snd (write_op g (Some (fmt_d x @ [newline])) (length (fmt_d x @ [newline])) v)) =
     fmt_d x @ [newline]"
  by (simp add: show_get write_get parse_printed)

lemma show_write:
  "- 2147483648 \<le> get v \<Longrightarrow> get v < 2147483648 \<Longrightarrow> 
   get (snd (write_op g (Some (show_op v)) (length (show_op v)) u)) = get v"
  by (simp add: show_get write_get parse_printed)

lemma bad_write:
  "kstrtoint_from_user (map_option (take count) user) = Inl e \<Longrightarrow>
   fst (write_op g user count v) = int count \<and> get (snd (write_op g user count v)) = g"
  by (simp add: write_get write_count)

end

interpretation files: int_file file_num_write file_num_show num_files
  by unfold_locales (simp_all add: file_num_write_def file_num_show_def Let_def)

interpretation queue: int_file queue_len_write queue_len_show queue_len
  by unfold_locales (simp_all add: queue_len_write_def queue_len_show_def Let_def)

subsection \<open>The key\<close>

definition key_show :: "'w kst \<Rightarrow> string option" where
  "key_show s =
     (case enc_key s of
        None \<Rightarrow> Some (''(null)'' @ [newline])
      | Some b \<Rightarrow> do {
          m \<leftarrow> buf_bytes (enc_key s) s;
          n \<leftarrow> c_strlen m;
          Some (take n m @ [newline])
        })"

definition key_write ::
  "'w kernel \<Rightarrow> byte list option \<Rightarrow> nat \<Rightarrow> 'w kst \<Rightarrow> (int \<times> 'w kst) option" where
  "key_write K user count s = do {
     (tmp, s) \<leftarrow> kmalloc K (count + 1) s;
     (case tmp of
        None \<Rightarrow> Some (- ENOMEM, s)
      | Some b \<Rightarrow>
          (case user of
             None \<Rightarrow> do {
               (_, s) \<leftarrow> kfree tmp s;
               Some (EFAULT, s)
             }
           | Some bytes \<Rightarrow> do {
               (_, s) \<leftarrow> kfree (enc_key s) s;
               Some (int count,
                 s\<lparr>enc_key := Some (b\<lparr>mem := overlay (replicate (count + 1) NUL) 0 (take count bytes)\<rparr>)\<rparr>)
             }))
   }"

subsection \<open>The files themselves\<close>

text \<open>
  Loading such a module creates its entry under \<open>/proc\<close> (\<open>created\<close> is whether \<open>proc_create\<close> succeeds),
  unloading it removes the entry again.
\<close>

definition proc_entry_init :: "string \<Rightarrow> bool \<Rightarrow> string list \<Rightarrow> int \<times> string list" where
  "proc_entry_init name created entries = (if \<not> created then (- 1, entries) else (0, name # entries))"

definition proc_entry_exit :: "string \<Rightarrow> string list \<Rightarrow> string list" where
  "proc_entry_exit name entries = remove1 name entries"

definition file_num_init :: "bool \<Rightarrow> string list \<Rightarrow> int \<times> string list" where
  "file_num_init = proc_entry_init ''max_file_num''"

definition file_num_exit :: "string list \<Rightarrow> string list" where
  "file_num_exit = proc_entry_exit ''max_file_num''"

definition queue_len_init :: "bool \<Rightarrow> string list \<Rightarrow> int \<times> string list" where
  "queue_len_init = proc_entry_init ''max_queue_len''"

definition queue_len_exit :: "string list \<Rightarrow> string list" where
  "queue_len_exit = proc_entry_exit ''max_queue_len''"

definition key_init :: "bool \<Rightarrow> string list \<Rightarrow> int \<times> string list" where
  "key_init = proc_entry_init ''enc_key_file''"

definition key_exit :: "string list \<Rightarrow> string list" where
  "key_exit = proc_entry_exit ''enc_key_file''"

lemmas proc_module_defs = file_num_init_def file_num_exit_def queue_len_init_def queue_len_exit_def
  key_init_def key_exit_def proc_entry_init_def proc_entry_exit_def

subsection \<open>The invariant of the key\<close>

definition key_wf :: "'w kst \<Rightarrow> bool" where
  "key_wf s \<longleftrightarrow> distinct (live s) \<and> (\<forall>i\<in>set (live s). i < next_id s) \<and>
     (\<forall>b. enc_key s = Some b \<longrightarrow> bid b \<in> set (live s) \<and> length (c_str (mem b)) < length (mem b))"

lemma key_buffer_terminated:
  "length bs \<le> n \<Longrightarrow> length (c_str (overlay (replicate (n + 1) NUL) 0 bs)) <
     length (overlay (replicate (n + 1) NUL) 0 bs)"
proof -
  assume le: "length bs \<le> n"
  have e: "overlay (replicate (n + 1) NUL) 0 bs = bs @ replicate (n + 1 - length bs) NUL"
    by (simp add: overlay_def del: replicate_Suc)
  obtain k where k: "n + 1 - length bs = Suc k" using le by (cases "n + 1 - length bs") simp_all
  have "length (takeWhile (\<lambda>c. c \<noteq> NUL) bs) \<le> length bs" by (rule length_takeWhile_le)
  then show ?thesis
    unfolding e k by (simp add: c_str_def takeWhile_tail)
qed

lemma key_write_wf:
  assumes "key_wf s"
  shows "safely (key_write K user n s) (\<lambda>(r, t). key_wf t)"
  using assms key_buffer_terminated [of "take n (the user)" n]
  by (auto simp: key_write_def exec_simps safely_kfree_opt key_wf_def less_SucI split: option.splits
      dest: in_set_remove1)

lemma processunlink_grown: "safely (processunlink K args s) (\<lambda>(r, t). grown s t)"
  unfolding processunlink_def
  by (auto simp: exec_simps safely_iff [of args] safely_iff [of "fname _"] same_owned_def same_memory_def
      intro!: frame_rules) (auto simp: grown_def Let_def)

lemma processcompress_grown: "safely (processcompress K name s) (\<lambda>(r, t). grown s t)"
  unfolding processcompress_def
  by (auto simp: exec_simps safely_iff [of name] not_bad_ptr transfers_def intro!: frame_rules)
    (auto simp: grown_def Let_def)

lemma grown_wf:
  assumes "grown s t" and "key_wf s"
  shows "key_wf t"
proof -
  define k where "k = length (live t) - length (live s)"
  have t: "live t = take k (live t) @ live s" "distinct (take k (live t))" "next_id s \<le> next_id t"
    "\<forall>i\<in>set (take k (live t)). next_id s \<le> i \<and> i < next_id t" "enc_key t = enc_key s"
    using assms(1) append_take_drop_id [of k "live t"] by (simp_all add: grown_def k_def Let_def)
  define new where "new = take k (live t)"
  have "live t = new @ live s" using t(1) by (simp add: new_def)
  then show ?thesis
    using t(2-5) assms(2) unfolding new_def [symmetric]
    by (fastforce simp: key_wf_def)
qed

subsection \<open>Properties\<close>

text \<open>
  C21. What is written to \<open>max_file_num\<close> or \<open>max_queue_len\<close> as a decimal number with a newline is what
  is read back, for every value of an \<open>int\<close>, and a write to one leaves the other as it was.
\<close>

theorem numbers_write_show:
  assumes "- 2147483648 \<le> x" and "x < 2147483648"
  shows "let line = fmt_d x @ [newline]; n = length line in
    file_num_show (snd (file_num_write g (Some line) n v)) = line \<and>
    queue_len_show (snd (file_num_write g (Some line) n v)) = queue_len_show v \<and>
    queue_len_show (snd (queue_len_write g (Some line) n v)) = line \<and>
    file_num_show (snd (queue_len_write g (Some line) n v)) = file_num_show v \<and>
    fst (file_num_write g (Some line) n v) = int n \<and> fst (queue_len_write g (Some line) n v) = int n"
  using files.write_show [OF assms] queue.write_show [OF assms]
  by (simp add: file_num_write_def queue_len_write_def file_num_show_def queue_len_show_def Let_def)

text \<open>
  A write that is no number, or that cannot be copied from user space, is reported as a success, and
  stores what the stack held.
\<close>

theorem numbers_bad_write:
  assumes "kstrtoint_from_user (map_option (take count) user) = Inl e"
  shows "file_num_write g user count v = (int count, v\<lparr>num_files := g\<rparr>) \<and>
    queue_len_write g user count v = (int count, v\<lparr>queue_len := g\<rparr>)"
  using assms by (simp add: file_num_write_def queue_len_write_def Let_def)

text \<open>
  C20. A key without NUL that is written to \<open>/proc\<close> is the one read back (with a newline) and the one
  the encryption will see; the old key is freed and nothing is leaked.
\<close>

theorem key_write_show:
  assumes A: "allocates K" and wf: "key_wf s" and nul: "NUL \<notin> set bytes"
  shows "returns (key_write K (Some bytes) (length bytes) s) (\<lambda>(r, t). r = int (length bytes) \<and>
    key_show t = Some (bytes @ [newline]) \<and>
    live t = (case enc_key s of None \<Rightarrow> next_id s # live s
              | Some b \<Rightarrow> next_id s # remove1 (bid b) (live s)) \<and> key_wf t)"
proof -
  obtain g w where k: "kmalloc_k K (length bytes + 1) (world s) = (Some g, w)"
    using A unfolding allocates_def by (metis option.exhaust prod.collapse)
  let ?m = "overlay (replicate (length bytes + 1) NUL) 0 bytes"
  have m: "?m = bytes @ NUL # []" by (simp add: overlay_def del: replicate_Suc; simp)
  have str: "c_str ?m = bytes" unfolding m by (rule c_str_prefix [OF nul])
  have key: "bid b \<noteq> next_id s" "bid b \<in> set (live s)" if "enc_key s = Some b" for b
    using wf that by (auto simp: key_wf_def)
  have "returns (key_write K (Some bytes) (length bytes) s) (\<lambda>(r, t). r = int (length bytes) \<and>
    key_show t = Some (bytes @ [newline]) \<and>
    live t = (case enc_key s of None \<Rightarrow> next_id s # live s
              | Some b \<Rightarrow> next_id s # remove1 (bid b) (live s)))"
    using k key m str
    by (cases "enc_key s") (simp_all add: key_write_def kmalloc_def kfree_def key_show_def buf_bytes_def
        c_strlen_def)
  from returns_conj [OF this key_write_wf [OF wf]] show ?thesis by (rule returns_mono) auto
qed

text \<open>
  A key that cannot be copied from user space is not installed, and nothing is leaked; but the
  error is returned as the positive number 14, which the writer takes for 14 bytes written.
\<close>

theorem key_write_fault:
  assumes "allocates K"
  shows "returns (key_write K None count s) (\<lambda>(r, t). r = 14 \<and> enc_key t = enc_key s \<and> live t = live s)"
proof -
  obtain g w where "kmalloc_k K (count + 1) (world s) = (Some g, w)"
    using assms unfolding allocates_def by (metis option.exhaust prod.collapse)
  then show ?thesis by (simp add: key_write_def kmalloc_def kfree_def EFAULT_def)
qed

text \<open>
  The states of the modules before the first encryption: loaded with no key, then any sequence of
  key writes and of system calls with flags that do not encrypt.
\<close>

inductive key_reach :: "'w kernel \<Rightarrow> 'w kst \<Rightarrow> bool" for K where
  reach_boot: "enc_key s = None \<Longrightarrow> live s = [] \<Longrightarrow> key_reach K s"
| reach_write: "key_reach K s \<Longrightarrow> key_write K user n s = Some (r, t) \<Longrightarrow> key_reach K t"
| reach_call: "key_reach K s \<Longrightarrow> flag \<noteq> 4085 \<Longrightarrow> flag \<noteq> 4087 \<Longrightarrow> xclone2 K flag arg s = Some (r, t) \<Longrightarrow>
    key_reach K t"

lemma xclone2_wf:
  assumes "key_wf s" and "flag \<noteq> 4085" and "flag \<noteq> 4087"
  shows "safely (xclone2 K flag arg s) (\<lambda>(r, t). key_wf t)"
proof -
  have m: "safely (processunlink K a s) (\<lambda>(r, t). key_wf t)" for a
    by (rule safely_mono [OF processunlink_grown]) (auto intro: grown_wf assms(1))
  have z: "safely (processcompress K n s) (\<lambda>(r, t). key_wf t)" for n
    by (rule safely_mono [OF processcompress_grown]) (auto intro: grown_wf assms(1))
  show ?thesis
    using assms
    by (auto simp: xclone2_def intro!: safely_mono [OF m] safely_mono [OF z] split: option.splits)
qed

text \<open>
  C19. The invariant of the key: after any sequence of key writes and of system calls that do not
  encrypt, the global \<open>enc_key\<close> is \<open>NULL\<close> or points to memory that is still allocated and holds a
  terminated string, and no buffer has been handed out twice.
\<close>

theorem key_reach_wf: "key_reach K s \<Longrightarrow> key_wf s"
proof (induction rule: key_reach.induct)
  case (reach_boot s)
  then show ?case by (simp add: key_wf_def)
next
  case (reach_write s user n r t)
  then show ?case using safelyD [OF key_write_wf] by fastforce
next
  case (reach_call s flag arg r t)
  then show ?case using safelyD [OF xclone2_wf] by fastforce
qed

text \<open>
  After an encryption the next write of a key frees the old key a second time.
\<close>

theorem key_write_double_free:
  assumes "enc_setup K c E name fr path lo fw kb s" and "enc_key s = Some kb" and "fname a = Some name"
  shows "returns (xclone2 K 4085 (Some a) s) (\<lambda>(r, t). key_write K (Some bytes) n t = None)"
proof -
  have A: "allocates K" and fresh: "\<forall>i\<in>set (live s). i < next_id s" and kb: "bid kb < next_id s"
    using assms(1) by (auto simp: enc_setup_def trash_setup_def)
  have "key_write K (Some bytes) n t = None"
    if run: "processencryption K (Some name) (Some kb) s = Some (r, t)"
      and lv: "live t = [next_id s + 4, next_id s + 2, next_id s + 1, next_id s] @ remove1 (bid kb) (live s)"
    for r t
  proof -
    have t: "enc_key t = Some kb" "next_id s \<le> next_id t"
      using safelyD [OF processencryption_keeps_enc_key [OF fresh] run] assms(2) by simp_all
    have "bid kb \<notin> set (live t)"
      using lv kb assms(1) by (auto simp: enc_setup_def set_remove1_eq)
    then have "safely (key_write K (Some bytes) n t) (\<lambda>x. False)"
      using t kb by (auto simp: key_write_def exec_simps allocates_not_None [OF A])
    then show ?thesis by (simp add: safely_False)
  qed
  then have "returns (processencryption K (Some name) (Some kb) s) (\<lambda>(r, t). key_write K (Some bytes) n t = None)"
    using assms(1) unfolding enc_setup_def
    by (elim conjE, intro returns_mono [OF processencryption_upto_unlink]) auto
  then show ?thesis
    using assms(2,3) by (auto simp: xclone2_def elim!: returns_mono)
qed

subsection \<open>Witnesses\<close>

theorem numbers_write_show_witness:
  "file_num_show (snd (file_num_write 99 (Some (fmt_d (- 12) @ [newline])) (length (fmt_d (- 12) @ [newline]))
     \<lparr>num_files = 3, queue_len = 4\<rparr>)) = fmt_d (- 12) @ [newline]"
  using numbers_write_show [of "- 12" 99 "\<lparr>num_files = 3, queue_len = 4\<rparr>"] by (simp add: Let_def)

theorem numbers_bad_write_witness:
  "file_num_write 99 None 3 \<lparr>num_files = 3, queue_len = 4\<rparr> = (3, \<lparr>num_files = 99, queue_len = 4\<rparr>)"
proof -
  have "kstrtoint_from_user (map_option (take 3) None) = Inl (- 14)"
    by (simp add: kstrtoint_from_user_def EFAULT_def)
  from numbers_bad_write [OF this, of 99 "\<lparr>num_files = 3, queue_len = 4\<rparr>"] show ?thesis by simp
qed

theorem key_write_show_witness:
  "returns (key_write demo_kernel (Some ''1789'') (length ''1789'') (demo_state (\<lambda>d. []))) (\<lambda>(r, t).
     key_show t = Some (''1789'' @ [newline]))"
proof -
  have "key_wf (demo_state (\<lambda>d. []))" by (simp add: key_wf_def)
  from key_write_show [OF demo_allocates this, of "''1789''"] show ?thesis
    by (rule returns_mono) auto
qed

theorem key_write_fault_witness:
  "returns (key_write demo_kernel None 4 (demo_state (\<lambda>d. []))) (\<lambda>(r, t). r = 14)"
  by (rule returns_mono [OF key_write_fault [OF demo_allocates]]) auto

theorem key_reach_wf_witness:
  "\<exists>t. key_write demo_kernel (Some ''1789'') 4 (demo_state (\<lambda>d. [])) = Some (4, t) \<and> key_wf t"
proof -
  obtain t where t: "key_write demo_kernel (Some ''1789'') 4 (demo_state (\<lambda>d. [])) = Some (4, t)"
    by (auto simp: key_write_def kmalloc_def kfree_def demo_kernel_def)
  have "key_reach demo_kernel (demo_state (\<lambda>d. []))" by (rule key_reach.reach_boot) simp_all
  from key_reach_wf [OF key_reach.reach_write [OF this t]] t show ?thesis by blast
qed

theorem key_write_double_free_witness:
  "returns (xclone2 demo_kernel 4085 (Some \<lparr>fname = Some ''/a'', b1 = 0\<rparr>)
     (demo_keyed demo_key ((\<lambda>d. [])(1 := ''secret'')))) (\<lambda>(r, t). key_write demo_kernel (Some ''new'') 3 t = None)"
  using key_write_double_free [OF demo_enc_setup [OF demo_key_terminated, of "(\<lambda>d. [])(1 := ''secret'')"],
      of "\<lparr>fname = Some ''/a'', b1 = 0\<rparr>"]
  by simp

end
