(* ===== verification/Module_Runs.thy ===== *)
theory Module_Runs
  imports Proc_Files
begin

text \<open>
  The synchronous module and the key file together, over whole runs: what every routine
  keeps whatever is called in whatever order (a freed key stays freed, unlinks follow their protocol), and
  the way of a key from the file under \<open>/proc\<close> to an encrypted file.
\<close>

subsection \<open>What every routine keeps\<close>

text \<open>
  The events of a call that neither locks nor unlinks.
\<close>

fun plain_event :: "kevent \<Rightarrow> bool" where
  "plain_event (DirLocked d) = False"
| "plain_event (DirUnlocked d) = False"
| "plain_event (Unlinked d v r) = False"
| "plain_event _ = True"

text \<open>
  A predicate on states that depends on the allocations and the trace only, and that is kept by an
  allocation, by the release of any buffer, by any plain event and by the closing, locking, unlinking
  and unlocking of one file, is kept by every routine of the module, on every kernel, on every path.
\<close>

locale module_predicate =
  fixes K :: "'w kernel" and I :: "'w kst \<Rightarrow> bool"
  assumes quiet: "I s \<Longrightarrow> live t = live s \<Longrightarrow> next_id t = next_id s \<Longrightarrow> enc_key t = enc_key s \<Longrightarrow>
      trace t = trace s \<Longrightarrow> I t"
    and alloc: "I s \<Longrightarrow> live t = next_id s # live s \<Longrightarrow> next_id t = Suc (next_id s) \<Longrightarrow>
      enc_key t = enc_key s \<Longrightarrow> trace t = trace s \<Longrightarrow> I t"
    and release: "I s \<Longrightarrow> live t = remove1 i (live s) \<Longrightarrow> next_id t = next_id s \<Longrightarrow>
      enc_key t = enc_key s \<Longrightarrow> trace t = trace s \<Longrightarrow> I t"
    and event: "I s \<Longrightarrow> live t = live s \<Longrightarrow> next_id t = next_id s \<Longrightarrow> enc_key t = enc_key s \<Longrightarrow>
      trace t = trace s @ [e] \<Longrightarrow> plain_event e \<Longrightarrow> I t"
    and unlinked: "I s \<Longrightarrow> live t = live s \<Longrightarrow> next_id t = next_id s \<Longrightarrow> enc_key t = enc_key s \<Longrightarrow>
      trace t = trace s @ [Closed f, DirLocked d, Unlinked d (f_dentry_k K f) r, DirUnlocked d] \<Longrightarrow> I t"
begin

lemma kept_kmalloc:
  assumes "I s" and "\<And>p t. I t \<Longrightarrow> Q (p, t)"
  shows "safely (kmalloc K n s) Q"
  unfolding safely_kmalloc using assms(1) by (auto intro!: assms(2) intro: quiet alloc)

lemma kept_kfree: "I s \<Longrightarrow> (\<And>t. I t \<Longrightarrow> Q ((), t)) \<Longrightarrow> safely (kfree p s) Q"
  using release [of s] by (cases p) (auto simp: kfree_def)

lemma kept_events:
  "I s \<Longrightarrow> same_owned s t \<Longrightarrow> trace t = trace s @ evs \<Longrightarrow> \<forall>e\<in>set evs. is_transfer e \<Longrightarrow> I t"
proof (induction evs arbitrary: s)
  case Nil
  then show ?case using quiet [of s t] by (simp add: same_ownedD)
next
  case (Cons e evs)
  have "I (note_event e s)"
    by (rule event [OF Cons.prems(1), of _ e]) (use Cons.prems(4) in \<open>cases e; simp\<close>)+
  then show ?case
    using Cons.prems by (intro Cons.IH [of "note_event e s"]) (simp_all add: same_owned_def same_memory_def)
qed

lemma kept_file_open: "I s \<Longrightarrow> (\<And>p t. I t \<Longrightarrow> Q (p, t)) \<Longrightarrow> safely (file_open K path fl md s) Q"
  using event [of s] by (auto simp: exec_simps)

lemma kept_file_close: "I s \<Longrightarrow> (\<And>t. I t \<Longrightarrow> Q ((), t)) \<Longrightarrow> safely (file_close K f s) Q"
  using event [of s] by (auto simp: exec_simps)

lemma kept_setxattr: "I s \<Longrightarrow> (\<And>r t. I t \<Longrightarrow> Q (r, t)) \<Longrightarrow> safely (vfs_setxattr K d n x s) Q"
  using event [of s] by (auto simp: exec_simps)

lemma kept_vfs_read: "I s \<Longrightarrow> (\<And>r t. I t \<Longrightarrow> Q (r, t)) \<Longrightarrow> safely (vfs_read K f b n p s) Q"
  using event [of s] by (auto simp: exec_simps)

lemma kept_vfs_write: "I s \<Longrightarrow> (\<And>r t. I t \<Longrightarrow> Q (r, t)) \<Longrightarrow> safely (vfs_write K f b n p s) Q"
  using event [of s] by (auto simp: exec_simps)

lemma kept_vfs_read_ptr: "I s \<Longrightarrow> (\<And>r t. I t \<Longrightarrow> Q (r, t)) \<Longrightarrow> safely (vfs_read_ptr K f q b n p s) Q"
  using event [of s] by (cases q) (auto simp: exec_simps)

lemma kept_vfs_write_ptr: "I s \<Longrightarrow> (\<And>r t. I t \<Longrightarrow> Q (r, t)) \<Longrightarrow> safely (vfs_write_ptr K f q b n p s) Q"
  using event [of s] by (cases q) (auto simp: exec_simps)

lemma kept_unlink: "I s \<Longrightarrow> (\<And>r t. I t \<Longrightarrow> Q (r, t)) \<Longrightarrow> safely (close_and_unlink K f s) Q"
  using unlinked [of s] by (auto simp: exec_simps)

lemma kept_clone_encryption:
  "I s \<Longrightarrow> (\<And>r t. I t \<Longrightarrow> Q (r, t)) \<Longrightarrow> safely (clone_encryption K key kl dst src sl s) Q"
  using quiet [of s] by (auto intro: safely_clone_encryption)

lemma kept_compress_buffer:
  "I s \<Longrightarrow> (\<And>r t. I t \<Longrightarrow> Q (r, t)) \<Longrightarrow> safely (compress_buffer K ib il ob ol s) Q"
  using quiet [of s] by (auto intro: safely_compress_buffer)

lemma kept_copy_loop:
  "I s \<Longrightarrow> (\<And>r t. I t \<Longrightarrow> Q (r, t)) \<Longrightarrow> safely (copy_loop K f tf buf k tot s) Q"
  using kept_events by (auto intro!: safely_copy_loop)

lemma kept_set_fields: "I s \<Longrightarrow> I (set_fpos f p s)" "I s \<Longrightarrow> I (set_fs g s)" "I s \<Longrightarrow> I (s\<lparr>world := w\<rparr>)"
  by (auto intro: quiet [of s])

lemmas kept_calls = kept_kmalloc kept_kfree kept_file_open kept_file_close kept_setxattr kept_vfs_read
  kept_vfs_write kept_vfs_read_ptr kept_vfs_write_ptr kept_unlink kept_clone_encryption kept_compress_buffer kept_copy_loop kept_set_fields

lemma kept_clock: "I s \<Longrightarrow> (\<And>r t. I t \<Longrightarrow> Q (r, t)) \<Longrightarrow> safely (clock K s) Q"
  using quiet [of s] by (auto simp: clock_def exec_simps)

lemmas kept_reads = safely_if safely_let safely_iff [of "buf_bytes _ _"] safely_iff [of "buf_area _ _"] safely_iff [of "c_memset _ _ _"]
  safely_iff [of "c_memcpy _ _"] safely_iff [of "c_strcat _ _"] safely_iff [of "c_strcats _ _"]
  safely_iff [of "c_strlen _"] safely_iff [of "d_path _ _ _ _ _"] safely_iff [of "name_finish _ _ _ _ _ _"]
  safely_iff [of "deref _"]

lemma kept_name_prefix: "I s \<Longrightarrow> (\<And>r t. I t \<Longrightarrow> Q (r, t)) \<Longrightarrow> safely (name_prefix K s) Q"
  unfolding name_prefix_def by (auto simp: kept_reads intro!: kept_calls kept_clock)

lemma kept_build_name_sized:
  "I s \<Longrightarrow> (\<And>r t. I t \<Longrightarrow> Q (r, t)) \<Longrightarrow> safely (build_name_sized K f n p s) Q"
  unfolding build_name_sized_def by (auto simp: kept_reads intro!: kept_calls kept_clock)

text \<open>The loops: what a round keeps, the loop keeps, however it is left.\<close>

lemma kept_enc_loop:
  assumes "I s" and "\<And>r t. I t \<Longrightarrow> Q (r, t)"
  shows "safely (enc_loop K fr fw key fsize pos s) Q"
proof -
  have r: "safely (enc_round K fr fw key n pos u) (\<lambda>(r, t). case r of Inl e \<Rightarrow> I t | Inr a \<Rightarrow> I t)"
    if "I u" for n pos u
    unfolding enc_round_def using that by (auto simp: kept_reads intro!: kept_calls split: prod.split)
  have "safely (enc_loop K fr fw key fsize pos s) (\<lambda>(r, t). I t \<or> (\<exists>a :: int \<times> int. r = None \<and> I t))"
    by (rule enc.loop_invariant [where E = "\<lambda>e. I" and I = "\<lambda>a. I"]) (erule r, rule assms(1))
  then show ?thesis by (rule safely_mono) (use assms(2) in auto)
qed

lemma kept_zip_loop:
  assumes "I s" and "\<And>r t. I t \<Longrightarrow> Q (r, t)"
  shows "safely (zip_loop K fr fw ol fsize pos s) Q"
proof -
  have r: "safely (zip_round K fr fw ol n pos u) (\<lambda>(r, t). case r of Inl e \<Rightarrow> I t | Inr a \<Rightarrow> I t)"
    if "I u" for n pos u
    unfolding zip_round_def using that by (auto simp: kept_reads intro!: kept_calls split: prod.split)
  have "safely (zip_loop K fr fw ol fsize pos s) (\<lambda>(r, t). I t \<or> (\<exists>a :: zip_pos. r = fst (snd (snd a)) \<and> I t))"
    by (rule zip.loop_invariant [where E = "\<lambda>e. I" and I = "\<lambda>a. I"]) (erule r, rule assms(1))
  then show ?thesis by (rule safely_mono) (use assms(2) in auto)
qed

lemma kept_compress_file:
  "I s \<Longrightarrow> (\<And>r t. I t \<Longrightarrow> Q (r, t)) \<Longrightarrow> safely (compress_file K fr fw s) Q"
  unfolding compress_file_def by (auto simp: kept_reads intro!: kept_calls kept_zip_loop)

lemmas kept_parts = kept_calls kept_name_prefix kept_build_name_sized kept_enc_loop kept_compress_file

text \<open>The four routines, and the system call with any flags and any argument.\<close>

lemma kept_processunlink: "I s \<Longrightarrow> (\<And>r t. I t \<Longrightarrow> Q (r, t)) \<Longrightarrow> safely (processunlink K args s) Q"
  unfolding processunlink_def
  by (auto simp: kept_reads safely_iff [of args] safely_iff [of "fname _"] intro!: kept_parts)

lemma kept_processcompress: "I s \<Longrightarrow> (\<And>r t. I t \<Longrightarrow> Q (r, t)) \<Longrightarrow> safely (processcompress K name s) Q"
  unfolding processcompress_def by (auto simp: kept_reads safely_iff [of name] intro!: kept_parts)

lemma kept_processencryption:
  "I s \<Longrightarrow> (\<And>r t. I t \<Longrightarrow> Q (r, t)) \<Longrightarrow> safely (processencryption K name key s) Q"
  unfolding processencryption_def
  by (auto simp: kept_reads safely_iff [of name] intro!: kept_parts split: option.split)

lemma kept_encrypt_temp:
  "I s \<Longrightarrow> (\<And>r t. I t \<Longrightarrow> Q (r, t)) \<Longrightarrow> safely (encrypt_temp K nb m key s) Q"
  unfolding encrypt_temp_def by (auto simp: kept_reads intro!: kept_parts split: option.split)

lemma kept_process_enc_comp:
  "I s \<Longrightarrow> (\<And>r t. I t \<Longrightarrow> Q (r, t)) \<Longrightarrow> safely (process_enc_comp K name key s) Q"
  unfolding process_enc_comp_def
  by (auto simp: kept_reads safely_iff [of name] intro!: kept_parts kept_encrypt_temp)

lemma kept_xclone2: "I s \<Longrightarrow> safely (xclone2 K flag arg s) (\<lambda>(r, t). I t)"
  unfolding xclone2_def
  by (auto simp: kept_reads safely_iff [of arg] intro!: kept_processunlink kept_processcompress
      kept_processencryption kept_process_enc_comp split: option.split)

end

text \<open>The key has been freed and the global still points to it.\<close>

definition key_dangling :: "'w kst \<Rightarrow> bool" where
  "key_dangling s \<longleftrightarrow> (\<exists>b. enc_key s = Some b \<and> bid b \<notin> set (live s) \<and> bid b < next_id s)"

interpretation dangling: module_predicate K key_dangling
  by unfold_locales (auto simp: key_dangling_def dest: in_set_remove1 notin_set_remove1)

subsection \<open>The order of closing, locking and unlinking\<close>

text \<open>
  The protocol as an automaton over the trace: a directory is locked only straight after a file was
  closed, inside the lock exactly the entry of that file is unlinked from that directory, and the
  directory is unlocked next.
\<close>

datatype phase = Idle | After_close nat | In_lock nat nat | After_unlink nat

fun phase_step :: "'w kernel \<Rightarrow> phase \<Rightarrow> kevent \<Rightarrow> phase option" where
  "phase_step K (In_lock f d) e =
     (if \<exists>r. e = Unlinked d (f_dentry_k K f) r then Some (After_unlink d) else None)"
| "phase_step K (After_unlink d) e = (if e = DirUnlocked d then Some Idle else None)"
| "phase_step K p (Closed f) = Some (After_close f)"
| "phase_step K (After_close f) (DirLocked d) = Some (In_lock f d)"
| "phase_step K p e = (if plain_event e then Some Idle else None)"

fun run_phases :: "'w kernel \<Rightarrow> phase \<Rightarrow> kevent list \<Rightarrow> phase option" where
  "run_phases K p [] = Some p"
| "run_phases K p (e # es) = Option.bind (phase_step K p e) (\<lambda>p. run_phases K p es)"

fun at_rest :: "phase \<Rightarrow> bool" where
  "at_rest Idle = True"
| "at_rest (After_close f) = True"
| "at_rest _ = False"

definition unlink_protocol :: "'w kernel \<Rightarrow> kevent list \<Rightarrow> bool" where
  "unlink_protocol K es \<longleftrightarrow> (\<exists>p. run_phases K Idle es = Some p \<and> at_rest p)"

lemma run_phases_append:
  "run_phases K p (xs @ ys) = Option.bind (run_phases K p xs) (\<lambda>p. run_phases K p ys)"
proof (induction xs arbitrary: p)
  case (Cons e xs)
  then show ?case by (cases "phase_step K p e") simp_all
qed simp

lemma plain_at_rest: "at_rest p \<Longrightarrow> plain_event e \<Longrightarrow> \<exists>q. phase_step K p e = Some q \<and> at_rest q"
  by (cases p; cases e) simp_all

lemma quad_at_rest:
  "at_rest p \<Longrightarrow>
     run_phases K p [Closed f, DirLocked d, Unlinked d (f_dentry_k K f) r, DirUnlocked d] = Some Idle"
  by (cases p) simp_all

interpretation protocol: module_predicate K "\<lambda>s. unlink_protocol K (trace s)"
proof unfold_locales
  fix s t :: "'a kst" and e
  assume "unlink_protocol K (trace s)" "trace t = trace s @ [e]" "plain_event e"
  then show "unlink_protocol K (trace t)"
    using plain_at_rest [of _ e K] by (fastforce simp: unlink_protocol_def run_phases_append)
next
  fix s t :: "'a kst" and f d r
  assume "unlink_protocol K (trace s)"
    and "trace t = trace s @ [Closed f, DirLocked d, Unlinked d (f_dentry_k K f) r, DirUnlocked d]"
  then show "unlink_protocol K (trace t)"
    using quad_at_rest [of _ K f d r]
    by (auto simp: unlink_protocol_def run_phases_append simp del: run_phases.simps)
qed simp_all

text \<open>What acceptance means for an unlink anywhere in the trace.\<close>

lemma in_lock_from:
  "run_phases K p xs = Some (In_lock f d) \<Longrightarrow>
     (\<exists>ys. xs = ys @ [Closed f, DirLocked d]) \<or> xs = [DirLocked d] \<and> p = After_close f \<or> xs = [] \<and> p = In_lock f d"
proof (induction xs arbitrary: p)
  case (Cons e xs)
  then obtain q where q: "phase_step K p e = Some q" "run_phases K q xs = Some (In_lock f d)"
    by (cases "phase_step K p e") simp_all
  from Cons.IH [OF q(2)] show ?case
  proof (elim disjE conjE exE)
    assume "xs = [DirLocked d]" "q = After_close f"
    then show ?thesis using q(1) by (cases p; cases e) (auto split: if_splits)
  next
    assume "xs = []" "q = In_lock f d"
    then show ?thesis using q(1) by (cases p; cases e) (auto split: if_splits)
  qed auto
qed simp

lemma protocol_unlink:
  assumes "unlink_protocol K (xs @ Unlinked d v r # ys)"
  shows "\<exists>f us vs. v = f_dentry_k K f \<and> xs = us @ [Closed f, DirLocked d] \<and> ys = DirUnlocked d # vs"
proof -
  obtain p q z where p: "run_phases K Idle xs = Some p"
    and q: "phase_step K p (Unlinked d v r) = Some q" "run_phases K q ys = Some z" "at_rest z"
    using assms by (auto simp: unlink_protocol_def run_phases_append Option.bind_eq_Some_conv)
  obtain f where f: "p = In_lock f d" "v = f_dentry_k K f" "q = After_unlink d"
    using q(1) by (cases p) (auto split: if_splits)
  have "\<exists>us. xs = us @ [Closed f, DirLocked d]"
    using in_lock_from [OF p [unfolded f(1)]] by auto
  moreover have "\<exists>vs. ys = DirUnlocked d # vs"
    using q(2,3) f(3) by (cases ys) (auto split: if_splits)
  ultimately show ?thesis using f(2) by blast
qed

subsection \<open>Runs\<close>

text \<open>
  A step is a write to the key file, by any process, of any bytes or of none that can be copied, or a
  system call with any flags and any argument; a call that faults has no step.
\<close>

inductive module_step :: "'w kernel \<Rightarrow> 'w kst \<Rightarrow> 'w kst \<Rightarrow> bool" for K where
  step_key: "key_write K user n s = Some (r, t) \<Longrightarrow> module_step K s t"
| step_call: "xclone2 K flag arg s = Some (r, t) \<Longrightarrow> module_step K s t"

inductive_cases module_stepE: "module_step K s t"

abbreviation module_run :: "'w kernel \<Rightarrow> 'w kst \<Rightarrow> 'w kst \<Rightarrow> bool" where
  "module_run K \<equiv> (module_step K)\<^sup>*\<^sup>*"

lemma run_invariant:
  assumes "module_run K s t" and "I s" and "\<And>u v. module_step K u v \<Longrightarrow> I u \<Longrightarrow> I v"
  shows "I t"
  using assms by (induction rule: rtranclp_induct) blast+

lemma key_write_trace: "safely (key_write K user n s) (\<lambda>(r, t). trace t = trace s)"
  unfolding key_write_def by (auto simp: exec_simps split: option.splits)

lemma key_write_dangling: "key_dangling s \<Longrightarrow> safely (key_write K user n s) (\<lambda>(r, t). key_dangling t)"
  unfolding key_write_def by (auto simp: exec_simps key_dangling_def split: option.splits)

lemma step_protocol: "module_step K s t \<Longrightarrow> unlink_protocol K (trace s) \<Longrightarrow> unlink_protocol K (trace t)"
  by (erule module_stepE) (auto dest: safelyD [OF key_write_trace] safelyD [OF protocol.kept_xclone2])

lemma step_dangling: "module_step K s t \<Longrightarrow> key_dangling s \<Longrightarrow> key_dangling t"
  by (erule module_stepE) (auto dest: safelyD [OF key_write_dangling] safelyD [OF dangling.kept_xclone2])

text \<open>What a dangling key does to whoever uses it.\<close>

lemma dangling_uses:
  assumes "key_dangling s"
  shows "key_show s = None"
    and "allocates K \<Longrightarrow> key_write K (Some bytes) n s = None"
    and "allocates K \<Longrightarrow> opens_as K name O_RDONLY 0 fr \<Longrightarrow> creates K \<Longrightarrow> fname a = Some name \<Longrightarrow>
      xclone2 K (ucast (CLONE_PROT_MV OR CLONE_PROT_ENC)) (Some a) s = None"
proof -
  obtain b where b: "enc_key s = Some b" "bid b \<notin> set (live s)" "bid b < next_id s"
    using assms by (auto simp: key_dangling_def)
  show "key_show s = None" using b by (simp add: key_show_def buf_bytes_def)
  show "key_write K (Some bytes) n s = None" if A: "allocates K"
  proof -
    have "safely (key_write K (Some bytes) n s) (\<lambda>x. False)"
      using b by (auto simp: key_write_def exec_simps allocates_not_None [OF A])
    then show ?thesis by (simp add: safely_False)
  qed
  show "xclone2 K (ucast (CLONE_PROT_MV OR CLONE_PROT_ENC)) (Some a) s = None"
    if "allocates K" "opens_as K name O_RDONLY 0 fr" "creates K" "fname a = Some name"
    using processencryption_dead_key [OF that(1-3) b(2,3)] b(1) that(4) by (simp add: xclone2_def flag_defs)
qed

lemma encryption_leaves_dangling:
  assumes "enc_setup K c E name fr path lo fw kb s" and "enc_key s = Some kb"
  shows "returns (processencryption K (Some name) (Some kb) s) (\<lambda>(r, t). key_dangling t)"
proof -
  have fresh: "\<forall>i\<in>set (live s). i < next_id s" and kb: "bid kb < next_id s"
    using assms(1) by (auto simp: enc_setup_def)
  have dangling: "key_dangling t"
    if "processencryption K (Some name) (Some kb) s = Some (r, t)"
      and "live t = [next_id s + 4, next_id s + 2, next_id s + 1, next_id s] @ remove1 (bid kb) (live s)" for r t
    using safelyD [OF processencryption_keeps_enc_key [OF fresh] that(1)] that(2) assms kb
    by (auto simp: key_dangling_def enc_setup_def set_remove1_eq)
  show ?thesis
    using assms(1) dangling unfolding enc_setup_def
    by (elim conjE, intro returns_mono [OF processencryption_upto_unlink]) auto
qed

lemma key_write_installs:
  assumes KK: "keeps_files K c" and A: "allocates K" and wf: "key_wf s" and nul: "NUL \<notin> set bytes"
  shows "returns (key_write K (Some bytes) (length bytes) s) (\<lambda>(r, t). key_wf t \<and>
    (\<exists>kb. enc_key t = Some kb \<and> c_str (mem kb) = bytes) \<and> (\<forall>d. c d (world t) = c d (world s)))"
proof -
  obtain g w where k: "kmalloc_k K (length bytes + 1) (world s) = (Some g, w)"
    using A unfolding allocates_def by (metis option.exhaust prod.collapse)
  have same: "c d w = c d (world s)" for d
    using KK k unfolding keeps_files_def by (metis snd_conv)
  have m: "overlay (replicate (length bytes + 1) NUL) 0 bytes = bytes @ NUL # []"
    by (simp add: overlay_def del: replicate_Suc; simp)
  have str: "c_str (overlay (replicate (length bytes + 1) NUL) 0 bytes) = bytes"
    unfolding m by (rule c_str_prefix [OF nul])
  have key: "bid b \<noteq> next_id s" "bid b \<in> set (live s)" if "enc_key s = Some b" for b
    using wf that by (auto simp: key_wf_def)
  have "returns (key_write K (Some bytes) (length bytes) s) (\<lambda>(r, t).
    (\<exists>kb. enc_key t = Some kb \<and> c_str (mem kb) = bytes) \<and> (\<forall>d. c d (world t) = c d (world s)))"
    using k key str same
    by (cases "enc_key s") (simp_all add: key_write_def kmalloc_def kfree_def)
  from returns_conj [OF this key_write_wf [OF wf]] show ?thesis by (rule returns_mono) auto
qed

subsection \<open>Properties\<close>

text \<open>
  C7. The unlink protocol of the module: in the trace of any sequence of key writes and system calls,
  with any flags and arguments, on any kernel, a directory is locked only straight after the closing
  of a file, inside the lock exactly the entry of that file is unlinked, the directory is unlocked
  next, and no lock is held when the calls are over. So every unlink anywhere in the trace stands
  between the closing of its file with the locking of its directory and the unlocking.
\<close>

theorem module_run_protocol:
  assumes "trace s = []" and "module_run K s t"
  shows "unlink_protocol K (trace t) \<and>
    (\<forall>xs d v r ys. trace t = xs @ Unlinked d v r # ys \<longrightarrow>
      (\<exists>f us vs. v = f_dentry_k K f \<and> xs = us @ [Closed f, DirLocked d] \<and> ys = DirUnlocked d # vs))"
proof -
  have "unlink_protocol K (trace s)" using assms(1) by (simp add: unlink_protocol_def)
  with assms(2) have "unlink_protocol K (trace t)" by (rule run_invariant) (rule step_protocol)
  then show ?thesis using protocol_unlink [of K] by metis
qed

text \<open>
  C8. One encryption disables the key for good: the routine frees the key and the global still points
  to it. Whatever is called after it, the key can no longer be read, no key can be written, and no
  further encryption of a file that opens is possible: each of these uses freed memory.
\<close>

theorem encryption_poisons_key:
  assumes "enc_setup K c E name fr path lo fw kb s" and "enc_key s = Some kb" and "fname a = Some name"
    and "opens_as K name2 O_RDONLY 0 fr2" and "creates K" and "fname a2 = Some name2"
  shows "returns (xclone2 K (ucast (CLONE_PROT_MV OR CLONE_PROT_ENC)) (Some a) s) (\<lambda>(r, t).
    \<forall>u. module_run K t u \<longrightarrow> key_show u = None \<and> key_write K (Some bytes) n u = None \<and>
      xclone2 K (ucast (CLONE_PROT_MV OR CLONE_PROT_ENC)) (Some a2) u = None)"
proof -
  have A: "allocates K" using assms(1) by (simp add: enc_setup_def trash_setup_def)
  have "returns (xclone2 K (ucast (CLONE_PROT_MV OR CLONE_PROT_ENC)) (Some a) s) (\<lambda>(r, t). key_dangling t)"
    using encryption_leaves_dangling [OF assms(1,2)] assms(2,3)
    by (auto simp: xclone2_def flag_defs elim!: returns_mono)
  moreover have "key_dangling u" if "module_run K t u" "key_dangling t" for t u
    using that by (rule run_invariant) (rule step_dangling)
  ultimately show ?thesis
    using dangling_uses(1) dangling_uses(2) [OF _ A] dangling_uses(3) [OF _ A assms(4-6)]
    by (auto elim!: returns_mono)
qed

text \<open>
  C3. From the key file to the decrypted text: a key without NUL that the cipher accepts is written to
  \<open>/proc\<close>, then the system call moves a file with encryption; what the trash file holds, deciphered with
  the bytes that were written to \<open>/proc\<close>, is the content of the file.
\<close>

theorem written_key_roundtrip:
  assumes S: "trash_setup K c name fr path lo ''.enc'' fw" and K: "fs_contract K c" and C: "cipher_contract K c E"
    and D: "\<And>k iv bs. length bs mod 16 = 0 \<Longrightarrow> D k iv (E k iv bs) = bs"
    and wf: "key_wf s" and key: "NUL \<notin> set bytes" "blk_setkey_k K bytes = 0"
    and size: "length (c (f_dentry_k K fr) (world s)) < 2139000000"
    and old: "c (f_dentry_k K fw) (world s) = []" and a: "fname a = Some name"
  shows "returns (do { (_, s) \<leftarrow> key_write K (Some bytes) (length bytes) s;
      xclone2 K (ucast (CLONE_PROT_MV OR CLONE_PROT_ENC)) (Some a) s }) (\<lambda>(r, t).
    dec_text D (Some bytes) (start_iv K) (c (f_dentry_k K fw) (world t)) = c (f_dentry_k K fr) (world s))"
proof -
  have KK: "keeps_files K c" and A: "allocates K" using S by (simp_all add: trash_setup_def)
  have enc: "returns (xclone2 K (ucast (CLONE_PROT_MV OR CLONE_PROT_ENC)) (Some a) t) (\<lambda>(r, v).
      dec_text D (Some bytes) (start_iv K) (c (f_dentry_k K fw) (world v)) = c (f_dentry_k K fr) (world s))"
    if t: "key_wf t" "enc_key t = Some kb" "c_str (mem kb) = bytes" "\<forall>d. c d (world t) = c d (world s)" for t kb
  proof -
    have kb: "length (c_str (mem kb)) < length (mem kb)" "bid kb \<in> set (live t)" "\<forall>i\<in>set (live t). i < next_id t"
      and big: "length (c (f_dentry_k K fr) (world t)) < 2139000000"
      using t size by (auto simp: key_wf_def)
    have "set_key K bytes = Some bytes" using key(2) by (simp add: set_key_def)
    then have dec: "dec_text D (Some bytes) (start_iv K) (enc_text K E bytes src) = src" for src
      using dec_enc_text [OF C, of D bytes src] D by simp
    have "returns (processencryption K (Some name) (Some kb) t) (\<lambda>(r, v).
      dec_text D (Some bytes) (start_iv K) (c (f_dentry_k K fw) (world v)) = c (f_dentry_k K fr) (world s))"
      by (rule returns_mono [OF processencryption_upto_unlink [OF S K C kb(1,2) big kb(3)]])
        (use t old dec in auto)
    then show ?thesis using t(2) a by (auto simp: xclone2_def flag_defs elim!: returns_mono)
  qed
  show ?thesis
    unfolding returns_bind
    by (rule returns_mono [OF key_write_installs [OF KK A wf key(1)]]) (simp only: split_paired_all prod.case, elim conjE exE, rule enc)
qed

subsection \<open>Witnesses\<close>

theorem module_run_protocol_witness:
  "\<exists>t. module_run demo_kernel (demo_keyed demo_key ((\<lambda>d. [])(1 := ''secret''))) t \<and>
     (\<exists>d r. Unlinked d 1 r \<in> set (trace t)) \<and> unlink_protocol demo_kernel (trace t)"
proof -
  have S: "trash_setup demo_kernel (\<lambda>d w. w d) ''/a'' 1 ''/a'' [] ''.enc'' 2"
    by (rule demo_trash_setup) simp_all
  let ?s = "demo_keyed demo_key ((\<lambda>d. [])(1 := ''secret''))"
  obtain r t evs dir where "processencryption demo_kernel (Some ''/a'') (Some demo_key) ?s = Some (r, t)"
    and tr: "trace t = evs @ [Closed 1, DirLocked dir, Unlinked dir (f_dentry_k demo_kernel 1) r,
        DirUnlocked dir, Closed 2]"
    using processencryption_upto_unlink [OF S demo_fs_contract demo_cipher_contract demo_key_terminated, of ?s]
    by (auto simp: returns_iff)
  then have "xclone2 demo_kernel (ucast (CLONE_PROT_MV OR CLONE_PROT_ENC)) (Some \<lparr>fname = Some ''/a'', b1 = 0\<rparr>) ?s =
      Some (0, t)"
    by (simp add: xclone2_def flag_defs)
  then have run: "module_run demo_kernel ?s t"
    by (intro r_into_rtranclp) (rule module_step.step_call)
  have "Unlinked dir 1 r \<in> set (trace t)" using tr by (simp add: demo_kernel_def)
  with module_run_protocol [OF _ run] run show ?thesis by auto
qed

theorem encryption_poisons_key_witness:
  "returns (xclone2 demo_kernel (ucast (CLONE_PROT_MV OR CLONE_PROT_ENC)) (Some \<lparr>fname = Some ''/a'', b1 = 0\<rparr>)
     (demo_keyed demo_key ((\<lambda>d. [])(1 := ''secret'')))) (\<lambda>(r, t).
       key_show t = None \<and> key_write demo_kernel (Some ''new'') 3 t = None)"
proof -
  have o2: "opens_as demo_kernel ''/b'' O_RDONLY 0 2"
    by (simp add: opens_as_def demo_kernel_def demo_file_def)
  have k: "enc_key (demo_keyed demo_key ((\<lambda>d. [])(1 := ''secret''))) = Some demo_key" by simp
  have a: "fname \<lparr>fname = Some ''/a'', b1 = 0\<rparr> = Some ''/a''" "fname \<lparr>fname = Some ''/b'', b1 = 0\<rparr> = Some ''/b''"
    by simp_all
  show ?thesis
    by (rule returns_mono, rule encryption_poisons_key [OF demo_enc_setup [OF demo_key_terminated] k a(1) o2
          demo_creates a(2)]) auto
qed

theorem written_key_roundtrip_witness:
  "returns (do { (_, s) \<leftarrow> key_write demo_kernel (Some ''0123456789abcdef'') (length ''0123456789abcdef'')
        (demo_state ((\<lambda>d. [])(1 := ''secret'')));
      xclone2 demo_kernel (ucast (CLONE_PROT_MV OR CLONE_PROT_ENC)) (Some \<lparr>fname = Some ''/a'', b1 = 0\<rparr>) s })
     (\<lambda>(r, t). dec_text demo_cipher (Some ''0123456789abcdef'') (start_iv demo_kernel) (world t 2) = ''secret'')"
proof -
  have S: "trash_setup demo_kernel (\<lambda>d w. w d) ''/a'' 1 ''/a'' [] ''.enc'' 2"
    by (rule demo_trash_setup) simp_all
  have k: "blk_setkey_k demo_kernel ''0123456789abcdef'' = 0" and d: "f_dentry_k demo_kernel f = f" for f
    by (simp_all add: demo_kernel_def)
  have D: "demo_cipher k iv (demo_cipher k iv bs) = bs" for k iv bs by (simp add: demo_cipher_def)
  have wf: "key_wf (demo_state w)" for w by (simp add: key_wf_def)
  show ?thesis
    using written_key_roundtrip [OF S demo_fs_contract demo_cipher_contract D wf _ k,
        of "(\<lambda>d. [])(1 := ''secret'')" "\<lparr>fname = Some ''/a'', b1 = 0\<rparr>"]
    by (simp add: d del: length_Cons)
qed

end
