(* ===== verification/Decompress.thy ===== *)
theory Decompress
  imports Numbers Syscall
begin

text \<open>
  \<open>sys_xclone2_myorg.c\<close>, an older version of the system call: compress the input into \<open>out.txt\<close>, then
  decompress \<open>out.txt\<close> into \<open>out.txt.cmp\<close>. It has copies of four functions of \<open>sys_xclone2.c\<close>, which are proved
  to be the same functions here; the capacity handed to the compressor is an uninitialised
  variable, and the one handed to the decompressor is read from behind an array of one element, so both
  are what the stack happens to hold.
\<close>

subsection \<open>Code\<close>

record myargs =
  margs_file :: "string option"
  margs_flags :: "32 word"

definition stack_int :: "'w kernel \<Rightarrow> nat \<Rightarrow> int" where
  "stack_int K i = i32 (int (horner_sum of_char 256 (resize 4 (stack_garbage_k K i))))"

text \<open>
  The module's own copies of \<open>open_file\<close>, \<open>close_file\<close>, \<open>compress_buffer\<close> and the loop of \<open>compress_file\<close>.
\<close>

definition myorg_open_file :: "'w kernel \<Rightarrow> string \<Rightarrow> int \<Rightarrow> int \<Rightarrow> 'w kst \<Rightarrow> (nat eptr \<times> 'w kst) option" where
  "myorg_open_file K filepath acces offset s = do {
     let old_fs = addr_limit s;
     let s = set_fs KERNEL_DS s;
     (flip, s) \<leftarrow> filp_open K filepath acces (f_pos_offset_k K) s;
     let s = set_fs old_fs s;
     if is_err flip then Some (Null, s)
     else Some (flip, s)
   }"

definition myorg_close_file :: "'w kernel \<Rightarrow> nat eptr \<Rightarrow> 'w kst \<Rightarrow> (unit \<times> 'w kst) option" where
  "myorg_close_file K flip s = do { f \<leftarrow> deref flip; filp_close K f s }"

definition myorg_compress_buffer ::
  "'w kernel \<Rightarrow> byte list \<Rightarrow> int \<Rightarrow> byte list \<Rightarrow> int \<Rightarrow> 'w kst \<Rightarrow> ((int \<times> byte list) \<times> 'w kst) option" where
  "myorg_compress_buffer K in_buf in_len out_buf out_len s = do {
     let (tfm, w) = alloc_comp_k K ''deflate'' (world s);
     let s = s\<lparr>world := w\<rparr>;
     t \<leftarrow> deref tfm;
     if length in_buf < nat (u32 in_len) then None
     else do {
       let ((err, out, out_len), w) =
         comp_compress_k K t (take (nat (u32 in_len)) in_buf) (u32 out_len) (world s);
       let s = s\<lparr>world := w\<rparr>;
       if length out_buf < length out then None
       else if err < 0 then Some ((- 1, overlay out_buf 0 out), s)
       else Some ((i32 out_len, overlay out_buf 0 out), s)
     }
   }"

definition myorg_zip_round ::
  "'w kernel \<Rightarrow> nat \<Rightarrow> nat \<Rightarrow> int \<Rightarrow> int \<Rightarrow> zip_pos \<Rightarrow> 'w kst \<Rightarrow> ((int + zip_pos) \<times> 'w kst) option" where
  "myorg_zip_round K f_read f_write out_len temp_size pos s = do {
     let (curr_read_size, curr_write_size, err, tei) = pos;
     (buff3, s) \<leftarrow> kmalloc K (nat PAGE_SIZE) s;
     (buff4, s) \<leftarrow> kmalloc K (nat PAGE_SIZE) s;
     let s = set_fpos f_read curr_read_size s;
     let oldfs1 = addr_limit s;
     let s = set_fs KERNEL_DS s;
     m3 \<leftarrow> buf_area buff3 s;
     ((ret1, m3, pos1), s) \<leftarrow> vfs_read_ptr K f_read buff3 m3 temp_size (fpos s f_read) s;
     let s = set_fpos f_read pos1 s;
     let bytes1 = i32 ret1;
     let s = set_fs oldfs1 s;
     m4 \<leftarrow> buf_area buff4 s;
     ((err, m4), s) \<leftarrow> myorg_compress_buffer K m3 bytes1 m4 out_len s;
     if err < 0 then do {
       (_, s) \<leftarrow> kfree buff3 s;
       (_, s) \<leftarrow> kfree buff4 s;
       Some (Inl err, s)
     }
     else do {
       let s = set_fpos f_write curr_write_size s;
       let oldfs2 = addr_limit s;
       let s = set_fs KERNEL_DS s;
       let tei = c_snprintf_d tei err;
       ((ret2, pos2), s) \<leftarrow> vfs_write K f_write tei 4 (fpos s f_write) s;
       let s = set_fpos f_write pos2 s;
       ((ret2, pos2), s) \<leftarrow> vfs_write_ptr K f_write buff4 m4 sizeof_ptr (fpos s f_write) s;
       let s = set_fpos f_write pos2 s;
       let bytes2 = i32 ret2;
       let s = set_fs oldfs2 s;
       (_, s) \<leftarrow> kfree buff3 s;
       (_, s) \<leftarrow> kfree buff4 s;
       Some (Inr (i32 (curr_read_size + bytes1), i32 (curr_write_size + bytes2), err, tei), s)
     }
   }"

function myorg_zip_loop ::
  "'w kernel \<Rightarrow> nat \<Rightarrow> nat \<Rightarrow> int \<Rightarrow> int \<Rightarrow> zip_pos \<Rightarrow> 'w kst \<Rightarrow> (int \<times> 'w kst) option" where
  "myorg_zip_loop K f_read f_write out_len fsize pos s =
     (if 0 < fsize then do {
        let temp_size = (if fsize > PAGE_SIZE - 16 then PAGE_SIZE - 16 else fsize);
        let fsize = (if fsize > PAGE_SIZE - 16 then fsize - temp_size else 0);
        (r, s) \<leftarrow> myorg_zip_round K f_read f_write out_len temp_size pos s;
        (case r of
           Inl err \<Rightarrow> Some (err, s)
         | Inr pos \<Rightarrow> myorg_zip_loop K f_read f_write out_len fsize pos s)
      }
      else Some (fst (snd (snd pos)), s))"
  by pat_completeness auto
termination
  by (relation "measure (\<lambda>(K, fr, fw, out_len, fsize, pos, s). nat fsize)") (auto simp: PAGE_SIZE_def)

declare myorg_zip_loop.simps [simp del]

text \<open>They are the same functions as those of \<open>sys_xclone2.c\<close>.\<close>

lemma myorg_file_eq: "myorg_open_file = open_file" "myorg_close_file = close_file"
  "myorg_compress_buffer = compress_buffer"
  by (intro ext, simp add: myorg_open_file_def open_file_def myorg_close_file_def close_file_def
      myorg_compress_buffer_def compress_buffer_def)+

lemma myorg_zip_round_eq: "myorg_zip_round = zip_round"
  by (intro ext) (simp add: myorg_zip_round_def zip_round_def myorg_file_eq)

lemma myorg_zip_loop_eq: "myorg_zip_loop K fr fw cap fsize pos s = zip_loop K fr fw cap fsize pos s"
proof (induction K fr fw cap fsize pos s rule: zip_loop.induct)
  case (1 K fr fw cap fsize pos s)
  then show ?case
    unfolding myorg_zip_loop.simps [of K fr fw cap fsize] zip_loop.simps [of K fr fw cap fsize]
    by (auto simp: myorg_zip_round_eq Let_def intro!: Option.bind_cong split: sum.split)
qed

definition myorg_compress_file :: "'w kernel \<Rightarrow> nat \<Rightarrow> nat \<Rightarrow> 'w kst \<Rightarrow> (int \<times> 'w kst) option" where
  "myorg_compress_file K f_read f_write s = do {
     let tei = resize 4 (stack_garbage_k K 4);
     let out_len = stack_int K 5;
     let fsize = i32 (i_size_k K (f_dentry_k K f_read) (world s));
     myorg_zip_loop K f_read f_write out_len fsize (0, 0, 0, tei) s
   }"

definition decompress_buffer ::
  "'w kernel \<Rightarrow> byte list \<Rightarrow> int \<Rightarrow> byte list \<Rightarrow> int \<Rightarrow> 'w kst \<Rightarrow> ((int \<times> byte list) \<times> 'w kst) option" where
  "decompress_buffer K in_buf in_len out_buf out_len s = do {
     let (tfm, w) = alloc_comp_k K ''deflate'' (world s);
     let s = s\<lparr>world := w\<rparr>;
     t \<leftarrow> deref tfm;
     if length in_buf < nat (u32 in_len) then None
     else do {
       let ((err, out, out_len), w) =
         comp_decompress_k K t (take (nat (u32 in_len)) in_buf) (u32 out_len) (world s);
       let s = s\<lparr>world := w\<rparr>;
       if length out_buf < length out then None
       else if err < 0 then Some ((- 1, overlay out_buf 0 out), s)
       else Some ((i32 out_len, overlay out_buf 0 out), s)
     }
   }"

text \<open>
  The variables that live across the rounds: the two positions, the four header bytes \<open>ps\<close> and the
  number \<open>psize\<close> read from them, which keeps its value when the header is no number.
\<close>

type_synonym unz_pos = "int \<times> int \<times> byte list \<times> int"

definition unz_round ::
  "'w kernel \<Rightarrow> nat \<Rightarrow> nat \<Rightarrow> int \<Rightarrow> int \<Rightarrow> unz_pos \<Rightarrow> 'w kst \<Rightarrow> ((int + unz_pos) \<times> 'w kst) option" where
  "unz_round K f_read f_write out_len temp_size pos s = do {
     let (curr_read_size, curr_write_size, ps, psize) = pos;
     (buff3, s) \<leftarrow> kmalloc K (nat PAGE_SIZE) s;
     (buff4, s) \<leftarrow> kmalloc K (nat PAGE_SIZE) s;
     let s = set_fpos f_read curr_read_size s;
     let oldfs1 = addr_limit s;
     let s = set_fs KERNEL_DS s;
     ((ret1, ps, pos1), s) \<leftarrow> vfs_read K f_read ps 4 (fpos s f_read) s;
     let s = set_fpos f_read pos1 s;
     te \<leftarrow> kstrtoint_array ps;
     let psize = (case te of Inl e \<Rightarrow> psize | Inr x \<Rightarrow> x);
     m3 \<leftarrow> buf_area buff3 s;
     ((ret1, m3, pos1), s) \<leftarrow> vfs_read_ptr K f_read buff3 m3 psize (fpos s f_read) s;
     let s = set_fpos f_read pos1 s;
     let bytes1 = i32 ret1;
     let s = set_fs oldfs1 s;
     m4 \<leftarrow> buf_area buff4 s;
     ((d_len, m4), s) \<leftarrow> decompress_buffer K m3 psize m4 out_len s;
     if d_len < 0 then do {
       (_, s) \<leftarrow> kfree buff3 s;
       (_, s) \<leftarrow> kfree buff4 s;
       Some (Inl d_len, s)
     }
     else do {
       let s = set_fpos f_write curr_write_size s;
       let oldfs2 = addr_limit s;
       let s = set_fs KERNEL_DS s;
       ((ret2, pos2), s) \<leftarrow> vfs_write_ptr K f_write buff4 m4 d_len (fpos s f_write) s;
       let s = set_fpos f_write pos2 s;
       let bytes2 = i32 ret2;
       let s = set_fs oldfs2 s;
       (_, s) \<leftarrow> kfree buff3 s;
       (_, s) \<leftarrow> kfree buff4 s;
       Some (Inr (i32 (curr_read_size + bytes1), i32 (curr_write_size + bytes2), ps, psize), s)
     }
   }"

function unz_loop ::
  "'w kernel \<Rightarrow> nat \<Rightarrow> nat \<Rightarrow> int \<Rightarrow> int \<Rightarrow> unz_pos \<Rightarrow> 'w kst \<Rightarrow> (int \<times> 'w kst) option" where
  "unz_loop K f_read f_write out_len fsize pos s =
     (if 0 < fsize then do {
        let temp_size = (if fsize > PAGE_SIZE - 16 then PAGE_SIZE - 16 else fsize);
        let fsize = (if fsize > PAGE_SIZE - 16 then fsize - temp_size else 0);
        (r, s) \<leftarrow> unz_round K f_read f_write out_len temp_size pos s;
        (case r of
           Inl err \<Rightarrow> Some (err, s)
         | Inr pos \<Rightarrow> unz_loop K f_read f_write out_len fsize pos s)
      }
      else Some (0, s))"
  by pat_completeness auto
termination
  by (relation "measure (\<lambda>(K, fr, fw, out_len, fsize, pos, s). nat fsize)") (auto simp: PAGE_SIZE_def)

declare unz_loop.simps [simp del]

interpretation unz: chunked_loop "unz_loop K fr fw out_len" "unz_round K fr fw out_len" "\<lambda>pos. 0"
proof unfold_locales
  fix fsize :: int and pos :: unz_pos and s :: "'a kst"
  show "unz_loop K fr fw out_len fsize pos s = Some (0, s)" if "fsize \<le> 0"
    using that by (subst unz_loop.simps) simp
  show "unz_loop K fr fw out_len fsize pos s =
      Option.bind (unz_round K fr fw out_len (min fsize (PAGE_SIZE - 16)) pos s) (\<lambda>(r, s).
        case r of Inl e \<Rightarrow> Some (e, s)
        | Inr pos \<Rightarrow> unz_loop K fr fw out_len (fsize - min fsize (PAGE_SIZE - 16)) pos s)" if "0 < fsize"
    unfolding unz_loop.simps [of K fr fw out_len fsize] Let_def chunk_size if_P [OF that] by (rule refl)
qed

definition decompress_file :: "'w kernel \<Rightarrow> nat \<Rightarrow> nat \<Rightarrow> 'w kst \<Rightarrow> (int \<times> 'w kst) option" where
  "decompress_file K f_read f_write s = do {
     let ps = resize 4 (stack_garbage_k K 6);
     let psize = stack_int K 7;
     let out_len = stack_int K 8;
     let fsize = i32 (i_size_k K (f_dentry_k K f_read) (world s));
     unz_loop K f_read f_write out_len fsize (0, 0, ps, psize) s
   }"

text \<open>
  An error of \<open>decompress_file\<close> is what the routine returns. A file that does not open is \<open>NULL\<close>, and
  dereferenced.
\<close>

definition myorg_xclone2 :: "'w kernel \<Rightarrow> myargs option \<Rightarrow> 'w kst \<Rightarrow> (int \<times> 'w kst) option" where
  "myorg_xclone2 K arg s =
     (case arg of
        None \<Rightarrow> Some (- EINVAL, s)
      | Some args \<Rightarrow>
          (case margs_file args of
             None \<Rightarrow> Some (- EINVAL, s)
           | Some file \<Rightarrow> do {
               (in_file, s) \<leftarrow> myorg_open_file K file O_RDONLY 0 s;
               (out_file, s) \<leftarrow> myorg_open_file K ''out.txt'' (O_CREAT OR O_WRONLY) 0 s;
               (out_file1, s) \<leftarrow> myorg_open_file K ''out.txt.cmp'' (O_CREAT OR O_WRONLY) 0 s;
               fin \<leftarrow> deref in_file;
               fout \<leftarrow> deref out_file;
               (err, s) \<leftarrow> myorg_compress_file K fin fout s;
               (_, s) \<leftarrow> myorg_close_file K in_file s;
               (_, s) \<leftarrow> myorg_close_file K out_file s;
               (out_file, s) \<leftarrow> myorg_open_file K ''out.txt'' O_RDONLY 0 s;
               fout \<leftarrow> deref out_file;
               fout1 \<leftarrow> deref out_file1;
               (err, s) \<leftarrow> decompress_file K fout fout1 s;
               (_, s) \<leftarrow> myorg_close_file K out_file s;
               (_, s) \<leftarrow> myorg_close_file K out_file1 s;
               Some (err, s)
             }))"

definition myorg_init :: "syscall_code option \<Rightarrow> 's \<Rightarrow> ((int \<times> syscall_code option) \<times> 's) option" where
  "myorg_init sysptr s =
     (let sysptr = (if sysptr = None then Some Myorg_xclone2 else sysptr) in Some ((0, sysptr), s))"

definition myorg_exit :: "syscall_code option \<Rightarrow> syscall_code option" where
  "myorg_exit sysptr = (if sysptr \<noteq> None then None else sysptr)"

interpretation myorg: owning_module myorg_init "\<lambda>ptr s. Some (myorg_exit ptr, s)" Myorg_xclone2
  by unfold_locales (auto simp: myorg_init_def myorg_exit_def Let_def)

subsection \<open>For every kernel\<close>

lemma safely_decompress_buffer [frame_rules]:
  assumes "\<And>r m w. length m = length out_buf \<Longrightarrow> Q ((r, m), s\<lparr>world := w\<rparr>)"
  shows "safely (decompress_buffer K in_buf in_len out_buf out_len s) Q"
  using assms
  by (auto simp: decompress_buffer_def exec_simps Let_def length_overlay split: prod.split)

fun is_write :: "kevent \<Rightarrow> bool" where
  "is_write (WroteAt f p b r) = True"
| "is_write _ = False"

text \<open>A round writes at most once, and frees what it allocates.\<close>

definition one_write :: "'w kst \<Rightarrow> 'w kst \<Rightarrow> bool" where
  "one_write s t \<longleftrightarrow> live t = live s \<and> opened t = opened s \<and> enc_key t = enc_key s \<and>
     addr_limit t = addr_limit s \<and> next_id s \<le> next_id t \<and>
     (\<exists>evs. trace t = trace s @ evs \<and> (\<forall>e\<in>set evs. is_transfer e) \<and> length (filter is_write evs) \<le> 1)"

lemma one_read:
  assumes "\<And>r m' p t. one_write s t \<Longrightarrow> next_id t = next_id s \<Longrightarrow>
    trace t = trace s @ [ReadAt f pos (nat (u64 len)) r] \<Longrightarrow> Q ((r, m', p), t)"
  shows "safely (vfs_read_ptr K f b m len pos s) Q" and "safely (vfs_read K f m len pos s) Q"
proof -
  show 2: "safely (vfs_read K f m len pos s) Q"
    by (auto simp: exec_simps one_write_def intro!: assms)
  show "safely (vfs_read_ptr K f b m len pos s) Q"
    using 2 by (cases b) (auto simp: exec_simps one_write_def intro!: assms)
qed

lemma one_written:
  assumes "\<And>r p bs t. one_write s t \<Longrightarrow> next_id t = next_id s \<Longrightarrow>
    trace t = trace s @ [WroteAt f pos bs r] \<Longrightarrow> Q ((r, p), t)"
  shows "safely (vfs_write_ptr K f b m len pos s) Q" and "safely (vfs_write K f m len pos s) Q"
proof -
  show 2: "safely (vfs_write K f m len pos s) Q"
    by (auto simp: exec_simps one_write_def intro!: assms)
  show "safely (vfs_write_ptr K f b m len pos s) Q"
    using 2 by (cases b) (auto simp: exec_simps one_write_def intro!: assms)
qed

lemma unz_round_one_write:
  "safely (unz_round K fr fw out_len n pos s) (\<lambda>(r, t). one_write s t)"
  unfolding unz_round_def Let_def
  by (auto simp: safely_kmalloc safely_kfree_opt safely_buf_bytes safely_if safely_iff [of "kstrtoint_array _"]
      intro!: one_read one_written transfers_area safely_decompress_buffer split: prod.split)
    (auto simp: one_write_def)

lemma unz_loop_kept:
  "safely (unz_loop K fr fw out_len fsize pos s) (\<lambda>(r, t). transfers s t \<and> live t = live s)"
proof -
  have tr: "transfers s u \<and> live u = live s" if "transfers s t" "live t = live s" "one_write t u" for t u
    using that by (auto simp: transfers_def one_write_def)
  have "safely (unz_round K fr fw out_len n a t) (\<lambda>(r, u). case r of
      Inl e \<Rightarrow> transfers s u \<and> live u = live s | Inr a \<Rightarrow> transfers s u \<and> live u = live s)"
    if "transfers s t \<and> live t = live s" for n a t
    by (rule safely_mono [OF unz_round_one_write]) (use that tr in \<open>auto split: sum.split\<close>)
  from unz.loop_invariant [where I = "\<lambda>a u. transfers s u \<and> live u = live s"
      and E = "\<lambda>e u. transfers s u \<and> live u = live s", OF this]
  show ?thesis
    by (rule safely_mono) (auto simp: transfers_def)
qed

lemma safely_zip_loop_kept:
  "(\<And>r t. transfers s t \<Longrightarrow> live t = live s \<Longrightarrow> Q (r, t)) \<Longrightarrow>
   safely (myorg_compress_file K fr fw s) Q"
  unfolding myorg_compress_file_def Let_def myorg_zip_loop_eq by (rule safely_zip_loop)

lemma safely_decompress_file:
  "(\<And>r t. transfers s t \<Longrightarrow> live t = live s \<Longrightarrow> Q (r, t)) \<Longrightarrow>
   safely (decompress_file K fr fw s) Q"
  unfolding decompress_file_def Let_def by (rule safely_mono [OF unz_loop_kept]) auto

lemma safely_open_file [exec_simps]:
  "safely (open_file K path fl off s) Q \<longleftrightarrow>
     (\<forall>p w. filp_open_k K path fl (f_pos_offset_k K) (world s) = (p, w) \<longrightarrow>
       Q (if is_err p then Null else p,
          note_event (Opened path fl p) (s\<lparr>world := w, opened := add_open p (opened s)\<rparr>)))"
  by (auto simp: open_file_def filp_open_def set_fs_def note_event_def Let_def safely_iff split: prod.splits)

lemma safely_close_file [exec_simps]:
  "safely (close_file K p s) Q \<longleftrightarrow>
     (\<forall>f. p = Ptr f \<and> f \<in> set (opened s) \<longrightarrow> Q ((), note_event (Closed f)
       (s\<lparr>world := filp_close_k K f (world s), opened := remove1 f (opened s)\<rparr>)))"
  by (cases p) (auto simp: close_file_def filp_close_def)

subsection \<open>A file of one record, under the contracts\<close>

text \<open>
  What the decompressor promises, with \<open>D bs\<close> the text that was compressed to \<open>bs\<close>: it gives it when
  it fits the capacity it is told, and otherwise fails having written no more than the capacity. The
  format that the module reads is the size of the compressed text as a decimal number in four bytes,
  and the text.
\<close>

definition decomp_contract :: "'w kernel \<Rightarrow> (nat \<Rightarrow> 'w \<Rightarrow> byte list) \<Rightarrow> (byte list \<Rightarrow> byte list) \<Rightarrow> bool" where
  "decomp_contract K c D \<longleftrightarrow>
     (\<forall>name w. \<exists>t w'. alloc_comp_k K name w = (Ptr t, w') \<and> (\<forall>d. c d w' = c d w)) \<and>
     (\<forall>t bs cap w. int (length (D bs)) \<le> cap \<longrightarrow>
        (\<exists>w'. comp_decompress_k K t bs cap w = ((0, D bs, int (length (D bs))), w') \<and>
          (\<forall>d. c d w' = c d w))) \<and>
     (\<forall>t bs cap w. cap < int (length (D bs)) \<longrightarrow>
        (\<exists>e out n w'. comp_decompress_k K t bs cap w = ((e, out, n), w') \<and> e < 0 \<and>
          length out \<le> nat cap \<and> (\<forall>d. c d w' = c d w)))"

definition zip_record :: "byte list \<Rightarrow> byte list" where
  "zip_record body = c_snprintf_d (replicate 4 NUL) (int (length body)) @ body"

lemma returns_decompress_buffer:
  assumes C: "decomp_contract K c D" and sl: "sl = int n" and n: "n \<le> length src" "n \<le> piece_size"
    and fits: "length dst = 4096" "length (D (take n src)) \<le> 4096"
    and ok: "\<And>w. int (length (D (take n src))) \<le> u32 cap \<Longrightarrow> (\<And>d. c d w = c d (world s)) \<Longrightarrow>
      Q ((int (length (D (take n src))), overlay dst 0 (D (take n src))), s\<lparr>world := w\<rparr>)"
    and bad: "\<And>m w. u32 cap < int (length (D (take n src))) \<Longrightarrow> (\<And>d. c d w = c d (world s)) \<Longrightarrow>
      Q ((- 1, m), s\<lparr>world := w\<rparr>)"
  shows "returns (decompress_buffer K src sl dst cap s) Q"
proof -
  have u: "u32 (int n) = int n" using n(2) by (simp add: u32_id piece_size_def)
  have i: "i32 (int (length (D (take n src)))) = int (length (D (take n src)))"
    using fits(2) by (intro i32_id) simp_all
  obtain t w1 where a: "alloc_comp_k K ''deflate'' (world s) = (Ptr t, w1)" and c1: "\<And>d. c d w1 = c d (world s)"
    using C unfolding decomp_contract_def by metis
  show ?thesis
  proof (cases "int (length (D (take n src))) \<le> u32 cap")
    case True
    then obtain w2 where e: "comp_decompress_k K t (take n src) (u32 cap) w1 =
        ((0, D (take n src), int (length (D (take n src)))), w2)" and c2: "\<And>d. c d w2 = c d w1"
      using C unfolding decomp_contract_def by metis
    show ?thesis
      unfolding decompress_buffer_def sl
      using ok [OF True, of w2] a c1 c2 e n fits by (simp add: Let_def u i)
  next
    case False
    then have f: "u32 cap < int (length (D (take n src)))" by simp
    then obtain e out k w2 where e: "comp_decompress_k K t (take n src) (u32 cap) w1 = ((e, out, k), w2)"
      "e < 0" "length out \<le> nat (u32 cap)" and c2: "\<And>d. c d w2 = c d w1"
      using C unfolding decomp_contract_def by metis
    have "length out \<le> 4096" using e(3) f fits(2) by linarith
    then show ?thesis
      unfolding decompress_buffer_def sl
      using bad [OF f, of w2] a c1 c2 e n fits by (simp add: Let_def u)
  qed
qed

lemma record_header:
  assumes "length body < 1000"
  shows "length (c_snprintf_d (replicate 4 NUL) (int (length body))) = 4"
    and "c_str (c_snprintf_d (replicate 4 NUL) (int (length body))) = fmt_d (int (length body))"
    and "length (fmt_d (int (length body))) < 4"
proof -
  show l: "length (fmt_d (int (length body))) < 4"
    using dec_nat_length_bound [of "length body" 3] assms by (simp add: fmt_d_def)
  show "length (c_snprintf_d (replicate 4 NUL) (int (length body))) = 4"
    by (simp add: length_c_snprintf_d)
  have "take 3 (fmt_d (int (length body))) = fmt_d (int (length body))" using l by simp
  then have "c_snprintf_d (replicate 4 NUL) (int (length body)) =
      fmt_d (int (length body)) @ NUL # drop (Suc (length (fmt_d (int (length body))))) (replicate 4 NUL)"
    by (simp add: c_snprintf_d_def overlay_def)
  then show "c_str (c_snprintf_d (replicate 4 NUL) (int (length body))) = fmt_d (int (length body))"
    by (simp only: c_str_prefix [OF fmt_d_no_NUL])
qed

text \<open>One round on such a file.\<close>

lemma unz_round_record:
  assumes F: "fs_contract K c" and A: "allocates K" and C: "decomp_contract K c D"
    and o: "fr \<in> set (opened s)" "fw \<in> set (opened s)" and dif: "f_dentry_k K fr \<noteq> f_dentry_k K fw"
    and src: "c (f_dentry_k K fr) (world s) = zip_record body" and small: "length body < 1000"
    and D: "length (D body) \<le> 4096" and ps: "length ps = 4"
  shows "returns (unz_round K fr fw cap n (0, 0, ps, psize) s) (\<lambda>(r, t).
    (if int (length (D body)) \<le> u32 cap
     then (\<exists>pos. r = Inr pos) \<and>
       c (f_dentry_k K fw) (world t) = D body @ drop (length (D body)) (c (f_dentry_k K fw) (world s))
     else r = Inl (- 1) \<and> c (f_dentry_k K fw) (world t) = c (f_dentry_k K fw) (world s)) \<and>
    (\<forall>d. d \<noteq> f_dentry_k K fw \<longrightarrow> c d (world t) = c d (world s)))"
proof -
  let ?hdr = "c_snprintf_d (replicate 4 NUL) (int (length body))"
  have KK: "keeps_files K c" and R: "reads_files K c" and W: "writes_files K c"
    using F by (simp_all add: fs_contractD)
  note hdr = record_header [OF small]
  have front: "overlay ps 0 (take 4 (zip_record body)) = ?hdr"
    using hdr(1) ps by (simp add: zip_record_def overlay_def)
  have nul: "NUL \<in> set ?hdr"
  proof (rule ccontr)
    assume "NUL \<notin> set ?hdr"
    then have "c_str ?hdr = ?hdr" by (auto simp: c_str_def takeWhile_eq_all_conv)
    then show False using hdr by simp
  qed
  have num: "kstrtoint_array ?hdr = Some (Inr (int (length body)))"
    using kstrtoint_fmt_d [of "int (length body)" "[]"] small hdr(2)
    by (simp add: kstrtoint_array_terminated [OF nul])
  have behind: "take (length body) (drop 4 (zip_record body)) = body" using hdr(1) by (simp add: zip_record_def)
  have all: "take 4 (zip_record body) = ?hdr" "length (zip_record body) = 4 + length body"
    using hdr(1) by (simp_all add: zip_record_def)
  have r1: "returns (vfs_read K fr ps 4 0 u) Q"
    if "c (f_dentry_k K fr) (world u) = zip_record body" "fr \<in> set (opened u)" "addr_limit u = KERNEL_DS"
      and "\<And>w. (\<And>d. c d w = c d (world u)) \<Longrightarrow> Q ((4, ?hdr, 4),
        note_event (ReadAt fr 0 4 4) (u\<lparr>world := w\<rparr>))"
    for u Q
    by (rule returns_vfs_read [OF R that(2,3)])
      (use that(1,4) all front ps hdr(1) in simp_all)
  have r2: "returns (vfs_read K fr buf (int (length body)) 4 u) Q"
    if "c (f_dentry_k K fr) (world u) = zip_record body" "fr \<in> set (opened u)" "addr_limit u = KERNEL_DS"
      "length buf = 4096"
      and "\<And>w. (\<And>d. c d w = c d (world u)) \<Longrightarrow> Q ((int (length body), overlay buf 0 body, 4 + int (length body)),
        note_event (ReadAt fr 4 (length body) (int (length body))) (u\<lparr>world := w\<rparr>))"
    for buf u Q
    by (rule returns_vfs_read [OF R that(2,3)]) (use that(1,4,5) small behind in simp_all)
  have de: "returns (decompress_buffer K (overlay buf 0 body) (int (length body)) dst cap u) Q"
    if "length dst = 4096" "length buf = 4096"
      and "\<And>w. int (length (D body)) \<le> u32 cap \<Longrightarrow> (\<And>d. c d w = c d (world u)) \<Longrightarrow>
        Q ((int (length (D body)), overlay dst 0 (D body)), u\<lparr>world := w\<rparr>)"
      and "\<And>m w. u32 cap < int (length (D body)) \<Longrightarrow> (\<And>d. c d w = c d (world u)) \<Longrightarrow>
        Q ((- 1, m), u\<lparr>world := w\<rparr>)"
    for dst buf u Q
    by (rule returns_decompress_buffer [OF C refl])
      (use that D small in \<open>simp_all add: length_overlay piece_size_def\<close>)
  have wr: "returns (vfs_write K fw (overlay dst 0 (D body)) (int (length (D body))) 0 u) Q"
    if "fw \<in> set (opened u)" "addr_limit u = KERNEL_DS" "length dst = 4096"
      and "\<And>w. c (f_dentry_k K fw) w = D body @ drop (length (D body)) (c (f_dentry_k K fw) (world u)) \<Longrightarrow>
        (\<And>d. d \<noteq> f_dentry_k K fw \<Longrightarrow> c d w = c d (world u)) \<Longrightarrow>
        Q ((int (length (D body)), int (length (D body))),
          note_event (WroteAt fw 0 (D body) (int (length (D body)))) (u\<lparr>world := w\<rparr>))"
    for dst u Q
  proof (rule returns_vfs_write [OF W that(1,2)], goal_cases)
    case (5 w)
    have "write_at old 0 (D body) = D body @ drop (length (D body)) old" for old
      using write_at_front [of "[]" old "D body"] by simp
    with 5 that(4) show ?case by simp
  qed (use D that(3) in \<open>simp_all add: length_overlay\<close>)
  show ?thesis
    unfolding unz_round_def
    using o src dif num hdr ps
    by (auto simp: PAGE_SIZE_def Let_def
        intro!: returns_kmalloc [OF KK A] r1 r2 de wr returns_rules)
qed

subsection \<open>Properties\<close>

text \<open>
  C31. On every kernel, when the older system call returns, it has closed every file it opened, freed
  every buffer, left the key alone and restored the address limit (its \<open>open_file\<close> resets it).
\<close>

theorem myorg_xclone2_clean:
  "safely (myorg_xclone2 K arg s) (\<lambda>(r, t).
     opened t = opened s \<and> live t = live s \<and> enc_key t = enc_key s \<and> addr_limit t = addr_limit s)"
  unfolding myorg_xclone2_def myorg_file_eq
  by (auto simp: exec_simps transfers_def split: option.split
      intro!: safely_zip_loop_kept safely_decompress_file)

text \<open>
  An input that does not open is \<open>NULL\<close> to the older system call, which dereferences it.
\<close>

theorem myorg_xclone2_missing_file:
  assumes "margs_file a = Some file"
    and "\<And>w. bad_ptr (fst (filp_open_k K file O_RDONLY (f_pos_offset_k K) w))"
  shows "myorg_xclone2 K (Some a) s = None"
proof -
  have bad: "bad_ptr p" if "filp_open_k K file O_RDONLY (f_pos_offset_k K) w = (p, w')" for p w w'
    using assms(2) [of w] that by simp
  have "safely (myorg_xclone2 K (Some a) s) (\<lambda>x. False)"
    unfolding myorg_xclone2_def myorg_file_eq
    by (auto simp: exec_simps assms(1) split: if_splits dest!: bad)
  then show ?thesis by (simp add: safely_False)
qed

text \<open>
  C16. A file in the format that the module means to write (the size of the compressed text in four
  bytes, and the text), of one record of less than 1000 bytes, is decompressed to what was
  compressed, when the capacity passed to the decompressor is enough: that is whatever int the stack
  holds behind the array of one element the code reads out of bounds. With a smaller one,
  decompression fails with -1 and the output is as before. No other file changes.
\<close>

theorem decompress_file_roundtrip:
  assumes F: "fs_contract K c" and A: "allocates K" and C: "decomp_contract K c D"
    and o: "fr \<in> set (opened s)" "fw \<in> set (opened s)" and dif: "f_dentry_k K fr \<noteq> f_dentry_k K fw"
    and src: "c (f_dentry_k K fr) (world s) = zip_record (Z p)" and small: "length (Z p) < 1000"
    and D: "D (Z p) = p" "length p \<le> 4096"
  shows "returns (decompress_file K fr fw s) (\<lambda>(r, t).
    (if int (length p) \<le> u32 (stack_int K 8)
     then r = 0 \<and> c (f_dentry_k K fw) (world t) = p @ drop (length p) (c (f_dentry_k K fw) (world s))
     else r = - 1 \<and> c (f_dentry_k K fw) (world t) = c (f_dentry_k K fw) (world s)) \<and>
    (\<forall>d. d \<noteq> f_dentry_k K fw \<longrightarrow> c d (world t) = c d (world s)))"
proof -
  have n: "i32 (i_size_k K (f_dentry_k K fr) (world s)) = int (4 + length (Z p))"
    using record_header(1) [OF small] small
    by (simp add: contract_size [OF F] src zip_record_def i32_id)
  have m: "min (int (4 + length (Z p))) (PAGE_SIZE - 16) = int (4 + length (Z p))"
    using small by (simp add: PAGE_SIZE_def)
  have "length (D (Z p)) \<le> 4096" using D by simp
  note round = unz_round_record [OF F A C o dif src small this, unfolded D(1)]
  have "returns (unz_loop K fr fw cap (int (4 + length (Z p))) (0, 0, resize 4 g, x) s) (\<lambda>(r, t).
    (if int (length p) \<le> u32 cap
     then r = 0 \<and> c (f_dentry_k K fw) (world t) = p @ drop (length p) (c (f_dentry_k K fw) (world s))
     else r = - 1 \<and> c (f_dentry_k K fw) (world t) = c (f_dentry_k K fw) (world s)) \<and>
    (\<forall>d. d \<noteq> f_dentry_k K fw \<longrightarrow> c d (world t) = c d (world s)))" for cap g x
    by (subst unz.go, simp)
      (auto simp: m unz.stop simp del: of_nat_add intro!: returns_mono [OF round] split: if_splits)
  then show ?thesis by (simp add: decompress_file_def Let_def n)
qed

subsection \<open>Witnesses\<close>

definition demo_no_open :: "mem_fs kernel" where
  "demo_no_open = demo_kernel\<lparr>filp_open_k := (\<lambda>p fl m w. (ErrPtr (- 2), w))\<rparr>"

theorem myorg_xclone2_missing_file_witness:
  "myorg_xclone2 demo_no_open (Some \<lparr>margs_file = Some ''/a'', margs_flags = 0\<rparr>) (demo_state (\<lambda>d. [])) = None"
  by (rule myorg_xclone2_missing_file [of _ "''/a''"]) (simp_all add: demo_no_open_def)

definition demo_stack :: "mem_fs kernel" where
  "demo_stack = demo_kernel\<lparr>stack_garbage_k := (\<lambda>n. [CHR 0x00, CHR 0x20])\<rparr>"

theorem decompress_file_roundtrip_witness:
  "returns (decompress_file demo_stack 1 2 ((demo_state ((\<lambda>d. [])(1 := zip_record ''secret'')))\<lparr>opened := [1, 2]\<rparr>))
     (\<lambda>(r, t). r = 0 \<and> world t 2 = ''secret'')"
proof -
  have F: "fs_contract demo_stack (\<lambda>d w. w d)" and A: "allocates demo_stack"
    using demo_fs_contract demo_allocates
    by (simp_all add: fs_contract_def reads_files_def writes_files_def keeps_files_def allocates_def demo_stack_def)
  have "decomp_contract demo_stack (\<lambda>d w. w d) (\<lambda>bs. bs)"
    by (simp add: decomp_contract_def demo_stack_def demo_kernel_def)
  moreover have d: "f_dentry_k demo_stack f = f" for f by (simp add: demo_stack_def demo_kernel_def)
  moreover have "u32 (stack_int demo_stack 8) = 8192"
    by (simp add: stack_int_def demo_stack_def resize_def numeral_eq_Suc i32_id u32_id)
  ultimately show ?thesis
    by (intro returns_mono [OF decompress_file_roundtrip [OF F A,
          where Z = "\<lambda>bs. bs" and p = "''secret''" and fr = 1 and fw = 2]]) auto
qed

end
