(* ===== verification/Kernel_List.thy ===== *)
theory Kernel_List
  imports Kernel
begin

text \<open>
  The work queue of \<open>sys_xclone2async.c\<close> is a list of \<open>linux/list.h\<close>: a ring of nodes linked both ways,
  with a head that holds no entry. The module uses four of its inline functions and macros; they are
  given here over a store from addresses to nodes. A pointer that no node lies behind, in
  particular one of the two poison values a deleted node is left with, faults when it is followed.
\<close>

subsection \<open>Nodes\<close>

datatype lptr = Node nat | Poison1 | Poison2

record wq_node =
  wq_data_node :: nat
  next_p :: lptr
  prev_p :: lptr

type_synonym node_store = "nat \<Rightarrow> wq_node option"

fun node_at :: "node_store \<Rightarrow> lptr \<Rightarrow> wq_node option" where
  "node_at h (Node a) = h a"
| "node_at h _ = None"

fun set_next :: "lptr \<Rightarrow> lptr \<Rightarrow> node_store \<Rightarrow> node_store option" where
  "set_next (Node a) p h = (case h a of None \<Rightarrow> None | Some nd \<Rightarrow> Some (h(a \<mapsto> nd\<lparr>next_p := p\<rparr>)))"
| "set_next _ p h = None"

fun set_prev :: "lptr \<Rightarrow> lptr \<Rightarrow> node_store \<Rightarrow> node_store option" where
  "set_prev (Node a) p h = (case h a of None \<Rightarrow> None | Some nd \<Rightarrow> Some (h(a \<mapsto> nd\<lparr>prev_p := p\<rparr>)))"
| "set_prev _ p h = None"

definition init_list_head :: "nat \<Rightarrow> node_store \<Rightarrow> node_store option" where
  "init_list_head a h = do {
     h \<leftarrow> set_next (Node a) (Node a) h;
     set_prev (Node a) (Node a) h
   }"

definition list_add_tail :: "nat \<Rightarrow> nat \<Rightarrow> node_store \<Rightarrow> node_store option" where
  "list_add_tail a head h = do {
     nd \<leftarrow> h head;
     h \<leftarrow> set_prev (Node head) (Node a) h;
     h \<leftarrow> set_next (Node a) (Node head) h;
     h \<leftarrow> set_prev (Node a) (prev_p nd) h;
     set_next (prev_p nd) (Node a) h
   }"

definition list_del :: "nat \<Rightarrow> node_store \<Rightarrow> node_store option" where
  "list_del a h = do {
     nd \<leftarrow> h a;
     h \<leftarrow> set_prev (next_p nd) (prev_p nd) h;
     h \<leftarrow> set_next (prev_p nd) (next_p nd) h;
     h \<leftarrow> set_next (Node a) Poison1 h;
     set_prev (Node a) Poison2 h
   }"

text \<open>
  \<open>list_for_each_safe\<close> with an empty body: the pair of pointers it moves, until the first is the
  head. The value is where the first pointer is left.
\<close>

partial_function (option) list_walk :: "lptr \<Rightarrow> lptr \<Rightarrow> nat \<Rightarrow> node_store \<Rightarrow> lptr option" where
  "list_walk pos n head h =
     (if pos = Node head then Some pos
      else do { nd \<leftarrow> node_at h n; list_walk n (next_p nd) head h })"

definition list_walked :: "nat \<Rightarrow> node_store \<Rightarrow> lptr option" where
  "list_walked head h = do {
     hd_node \<leftarrow> h head;
     nd \<leftarrow> node_at h (next_p hd_node);
     list_walk (next_p hd_node) (next_p nd) head h
   }"

subsection \<open>Rings\<close>

text \<open>The nodes \<open>xs\<close>, linked both ways between \<open>p\<close> and \<open>q\<close>; a ring starts and ends at its head.\<close>

fun seg :: "node_store \<Rightarrow> nat \<Rightarrow> nat list \<Rightarrow> nat \<Rightarrow> bool" where
  "seg h p [] q = True"
| "seg h p (a # r) q =
     ((\<exists>nd. h a = Some nd \<and> prev_p nd = Node p \<and> next_p nd = Node (hd (r @ [q]))) \<and> seg h a r q)"

definition ring :: "node_store \<Rightarrow> nat \<Rightarrow> nat list \<Rightarrow> bool" where
  "ring h head xs \<longleftrightarrow> distinct (head # xs) \<and> seg h head xs head \<and>
     (\<exists>nd. h head = Some nd \<and> next_p nd = Node (hd (xs @ [head])) \<and> prev_p nd = Node (last (head # xs)))"

lemma seg_snoc:
  "seg h p (xs @ [b]) q \<longleftrightarrow>
     seg h p xs b \<and> (\<exists>nd. h b = Some nd \<and> prev_p nd = Node (last (p # xs)) \<and> next_p nd = Node q)"
  by (induction xs arbitrary: p) (auto simp: hd_append split: list.split)

lemma seg_snoc2:
  "seg h p (xs @ [b, a]) q \<longleftrightarrow> seg h p (xs @ [b]) a \<and>
     (\<exists>nd. h a = Some nd \<and> prev_p nd = Node b \<and> next_p nd = Node q)"
  using seg_snoc [of h p "xs @ [b]" a q] by simp

lemma seg_upd [simp]: "a \<notin> set xs \<Longrightarrow> seg (h(a := v)) p xs q = seg h p xs q"
  by (induction xs arbitrary: p) auto

lemma ring_init: "h a = Some nd \<Longrightarrow> \<exists>h'. init_list_head a h = Some h' \<and> ring h' a []"
  by (simp add: init_list_head_def ring_def)

text \<open>\<open>list_add_tail\<close> puts a new node at the end, and leaves the data of all nodes as it is.\<close>

lemma ring_add_tail:
  assumes "ring h head xs" and "h a = Some nd" and "a \<notin> set (head # xs)"
  shows "\<exists>h'. list_add_tail a head h = Some h' \<and> ring h' head (xs @ [a]) \<and>
    (\<forall>b. map_option wq_data_node (h' b) = map_option wq_data_node (h b))"
proof (cases xs rule: rev_cases)
  case Nil
  then show ?thesis using assms by (auto simp: ring_def list_add_tail_def)
next
  case (snoc ys b)
  then show ?thesis
    using assms by (auto simp: ring_def list_add_tail_def seg_snoc seg_snoc2 hd_append)
qed

lemma seg_Some: "seg h p xs q \<Longrightarrow> b \<in> set xs \<Longrightarrow> \<exists>nd. h b = Some nd"
  by (induction xs arbitrary: p) auto

text \<open>A walk through a ring comes back to its head, whatever is in it.\<close>

lemma list_walk_seg:
  assumes "h head = Some hn"
  shows "seg h p (a # xs) head \<Longrightarrow> head \<notin> set (a # xs) \<Longrightarrow>
    list_walk (Node a) (Node (hd (xs @ [head]))) head h = Some (Node head)"
proof (induction xs arbitrary: p a)
  case Nil
  then show ?case using assms by (simp add: list_walk.simps)
next
  case (Cons b xs)
  then have "list_walk (Node b) (Node (hd (xs @ [head]))) head h = Some (Node head)" by auto
  then show ?case using Cons.prems by (subst list_walk.simps) auto
qed

lemma ring_walk: "ring h head xs \<Longrightarrow> list_walked head h = Some (Node head)"
proof (cases xs)
  case Nil
  moreover assume "ring h head xs"
  ultimately show ?thesis by (auto simp: ring_def list_walked_def list_walk.simps)
next
  case (Cons a ys)
  moreover assume "ring h head xs"
  ultimately show ?thesis
    using list_walk_seg [of h head _ head a ys] by (auto simp: ring_def list_walked_def)
qed

text \<open>
  Deleting the head of a ring succeeds and leaves the head poisoned: after that it cannot be
  walked from, added to or deleted again.
\<close>

definition cut_off :: "node_store \<Rightarrow> nat \<Rightarrow> bool" where
  "cut_off h head \<longleftrightarrow> (\<forall>nd. h head = Some nd \<longrightarrow> next_p nd = Poison1 \<and> prev_p nd = Poison2)"

lemma ring_del_head:
  assumes "ring h head xs"
  shows "\<exists>h'. list_del head h = Some h' \<and> cut_off h' head \<and> dom h' = dom h \<and>
    (\<forall>b. map_option wq_data_node (h' b) = map_option wq_data_node (h b))"
proof (cases xs rule: rev_cases)
  case Nil
  then show ?thesis using assms by (auto simp: ring_def list_del_def cut_off_def)
next
  case (snoc ys b)
  obtain a zs where a: "xs = a # zs" using snoc by (metis append_is_Nil_conv neq_Nil_conv)
  have "a \<in> set xs" "b \<in> set xs" by (simp add: a) (simp add: snoc)
  then have "\<exists>nd. h a = Some nd" "\<exists>nd. h b = Some nd" "a \<noteq> head" "b \<noteq> head"
    using assms seg_Some [of h head xs head] by (auto simp: ring_def simp del: seg.simps)
  moreover have "hd (xs @ [head]) = a" "last (head # xs) = b" by (simp add: a) (simp add: snoc)
  then obtain hn where "h head = Some hn" "next_p hn = Node a" "prev_p hn = Node b"
    using assms unfolding ring_def by metis
  ultimately show ?thesis
    by (cases "a = b") (auto simp: list_del_def cut_off_def)
qed

lemma cut_off_stuck:
  assumes "cut_off h head"
  shows "list_walked head h = None" "list_del head h = None" "list_add_tail a head h = None"
proof -
  show "list_walked head h = None" "list_del head h = None"
    using assms by (cases "h head"; simp add: cut_off_def list_walked_def list_del_def)+
  show "list_add_tail a head h = None"
    using assms by (cases "h head"; cases "h a"; auto simp: cut_off_def list_add_tail_def)
qed

end
