(* ===== verification/Async_Move.thy ===== *)
theory Async_Move
  imports Move
begin

text \<open>
  The part of \<open>sys_xclone2async.c\<close> that moves a file: its copies of \<open>file_open\<close>, \<open>file_close\<close>,
  \<open>file_read\<close> and \<open>file_write\<close>, and \<open>processunlink_async\<close>. The module repeats the code of
  \<open>sys_xclone2.c\<close>; here it is translated again from its own source, and proved to be the same
  function, so that every fact about \<open>processunlink\<close> is one about \<open>processunlink_async\<close>.
\<close>

subsection \<open>Code\<close>

definition file_open_async :: "'w kernel \<Rightarrow> string \<Rightarrow> int \<Rightarrow> int \<Rightarrow> 'w kst \<Rightarrow> (nat eptr \<times> 'w kst) option" where
  "file_open_async K path flags rights s = do {
     let s = set_fs KERNEL_DS s;
     (filp, s) \<leftarrow> filp_open K path flags rights s;
     Some (filp, s)
   }"

definition file_close_async :: "'w kernel \<Rightarrow> nat \<Rightarrow> 'w kst \<Rightarrow> (unit \<times> 'w kst) option" where
  "file_close_async K file s = filp_close K file s"

definition file_read_async ::
  "'w kernel \<Rightarrow> nat \<Rightarrow> int \<Rightarrow> byte list \<Rightarrow> int \<Rightarrow> 'w kst \<Rightarrow> ((int \<times> byte list) \<times> 'w kst) option" where
  "file_read_async K file offset buf len s = do {
     let oldfs = addr_limit s;
     let s = set_fs KERNEL_DS s;
     ((ret, buf, offset), s) \<leftarrow> vfs_read K file buf (u32 len) (i64 offset) s;
     let bytes = i32 ret;
     let s = set_fs oldfs s;
     Some ((bytes, buf), s)
   }"

definition file_write_async ::
  "'w kernel \<Rightarrow> nat \<Rightarrow> int \<Rightarrow> byte list \<Rightarrow> int \<Rightarrow> 'w kst \<Rightarrow> (int \<times> 'w kst) option" where
  "file_write_async K file offset buf len s = do {
     let oldfs = addr_limit s;
     let s = set_fs KERNEL_DS s;
     ((ret, offset), s) \<leftarrow> vfs_write K file buf (u32 len) (i64 offset) s;
     let bytes = i32 ret;
     let s = set_fs oldfs s;
     Some (bytes, s)
   }"

definition build_name_async ::
  "'w kernel \<Rightarrow> nat \<Rightarrow> nat \<Rightarrow> cbuf option \<Rightarrow> 'w kst \<Rightarrow> (byte list \<times> 'w kst) option" where
  "build_name_async K infile bytes trashbinfolder_filename s = do {
     ((tv2, hr, mins), s) \<leftarrow> clock K s;
     m \<leftarrow> buf_bytes trashbinfolder_filename s;
     m \<leftarrow> c_memset m NUL bytes;
     m \<leftarrow> c_memcpy m ''/usr'';
     m \<leftarrow> c_strcats m (stamp_parts tv2 hr mins);
     p \<leftarrow> d_path K infile None PATH_MAX s;
     path \<leftarrow> deref p;
     m \<leftarrow> c_strcat m (flat_path path);
     Some (m, s)
   }"

definition close_and_unlink_async :: "'w kernel \<Rightarrow> nat \<Rightarrow> 'w kst \<Rightarrow> (int \<times> 'w kst) option" where
  "close_and_unlink_async K infile s = do {
     let deletevic = f_dentry_k K infile;
     let deletedir = d_parent_inode_k K deletevic (world s);
     (_, s) \<leftarrow> file_close_async K infile s;
     (_, s) \<leftarrow> lock_dir deletedir s;
     (err, s) \<leftarrow> vfs_unlink K deletedir deletevic s;
     (_, s) \<leftarrow> unlock_dir deletedir s;
     Some (err, s)
   }"

text \<open>The result of the loop is whether it was left at its end (and not through \<open>goto out4\<close>).\<close>

partial_function (option) copy_loop_async ::
  "'w kernel \<Rightarrow> nat \<Rightarrow> nat \<Rightarrow> byte list \<Rightarrow> int \<Rightarrow> int \<Rightarrow> 'w kst \<Rightarrow> (bool \<times> 'w kst) option" where
  "copy_loop_async K infile trashbinfile tempbuf1 pagesread total_bytes_written s = do {
     ((readbytes, tempbuf1), s) \<leftarrow>
       file_read_async K infile (u64 (pagesread * PAGE_SIZE)) tempbuf1 PAGE_SIZE s;
     if readbytes < 0 then Some (False, s)
     else do {
       (writebytes, s) \<leftarrow>
         file_write_async K trashbinfile (u64 total_bytes_written) tempbuf1 readbytes s;
       let total_bytes_written = i32 (total_bytes_written + writebytes);
       let pagesread = (if readbytes = PAGE_SIZE then i32 (pagesread + 1) else pagesread);
       if readbytes = writebytes \<and> readbytes = PAGE_SIZE
       then copy_loop_async K infile trashbinfile tempbuf1 pagesread total_bytes_written s
       else Some (True, s)
     }
   }"

definition processunlink_async :: "'w kernel \<Rightarrow> Param option \<Rightarrow> 'w kst \<Rightarrow> (int \<times> 'w kst) option" where
  "processunlink_async K args s = do {
     (tempbuf1, s) \<leftarrow> kmalloc K (nat PAGE_SIZE) s;
     (tempbuf2, s) \<leftarrow> kmalloc K (nat PAGE_SIZE) s;
     if tempbuf1 = None \<or> tempbuf2 = None then Some (- ENOMEM, s)
     else do {
       param \<leftarrow> args;
       name \<leftarrow> fname param;
       (infile, s) \<leftarrow> file_open_async K name O_RDONLY 0 s;
       if bad_ptr infile then do {
         (_, s) \<leftarrow> kfree tempbuf1 s;
         (_, s) \<leftarrow> kfree tempbuf2 s;
         Some (- EPERM, s)
       }
       else do {
         fin \<leftarrow> deref infile;
         let bytes = sized_name_len (d_name_k K (f_dentry_k K fin) (world s));
         (trashbinfolder_filename, s) \<leftarrow> kmalloc K bytes s;
         if trashbinfolder_filename = None then do {
           (_, s) \<leftarrow> file_close_async K fin s;
           (_, s) \<leftarrow> kfree tempbuf1 s;
           (_, s) \<leftarrow> kfree tempbuf2 s;
           Some (0, s)
         }
         else do {
           (trash_name, s) \<leftarrow> build_name_async K fin bytes trashbinfolder_filename s;
           (trashbinfile, s) \<leftarrow> file_open_async K (c_str trash_name) (O_WRONLY OR O_CREAT) 420 s;
           if bad_ptr trashbinfile then do {
             (_, s) \<leftarrow> file_close_async K fin s;
             (_, s) \<leftarrow> kfree tempbuf1 s;
             (_, s) \<leftarrow> kfree tempbuf2 s;
             (_, s) \<leftarrow> kfree trashbinfolder_filename s;
             Some (- EPERM, s)
           }
           else do {
             tf \<leftarrow> deref trashbinfile;
             buf \<leftarrow> buf_bytes tempbuf1 s;
             (copied, s) \<leftarrow> copy_loop_async K fin tf buf 0 0 s;
             if \<not> copied then do {
               (_, s) \<leftarrow> file_close_async K tf s;
               (_, s) \<leftarrow> file_close_async K fin s;
               (_, s) \<leftarrow> kfree tempbuf1 s;
               (_, s) \<leftarrow> kfree tempbuf2 s;
               (_, s) \<leftarrow> kfree trashbinfolder_filename s;
               Some (0, s)
             }
             else do {
               (err, s) \<leftarrow> close_and_unlink_async K fin s;
               (_, s) \<leftarrow> file_close_async K tf s;
               (_, s) \<leftarrow> kfree trashbinfolder_filename s;
               (_, s) \<leftarrow> kfree tempbuf1 s;
               (_, s) \<leftarrow> kfree tempbuf2 s;
               Some (err, s)
             }
           }
         }
       }
     }
   }"

subsection \<open>The same function\<close>

lemma async_helpers:
  "file_open_async = file_open" "file_close_async = file_close"
  "file_read_async = file_read" "file_write_async = file_write"
  "build_name_async = build_name_sized"
  by (simp_all add: fun_eq_iff file_open_async_def file_open_def file_close_async_def file_close_def
      file_read_async_def file_read_def file_write_async_def file_write_def
      build_name_async_def build_name_sized_def)

lemma close_and_unlink_async_eq: "close_and_unlink_async = close_and_unlink"
  by (simp add: fun_eq_iff close_and_unlink_async_def close_and_unlink_def async_helpers)

text \<open>Two partial functions are equal when each extends the other.\<close>

lemma copy_loop_async_le:
  "copy_loop_async K f t buf k n s = Some r \<Longrightarrow> copy_loop K f t buf k n s = Some r"
  by (erule copy_loop_async.raw_induct [where P = "\<lambda>K f t buf k n s r. copy_loop K f t buf k n s = Some r", rotated])
    (subst copy_loop.simps, auto simp: async_helpers Option.bind_eq_Some_conv Let_def PAGE_SIZE_def split: if_splits)

lemma copy_loop_le_async:
  "copy_loop K f t buf k n s = Some r \<Longrightarrow> copy_loop_async K f t buf k n s = Some r"
  by (erule copy_loop.raw_induct [where P = "\<lambda>K f t buf k n s r. copy_loop_async K f t buf k n s = Some r", rotated])
    (subst copy_loop_async.simps, auto simp: async_helpers Option.bind_eq_Some_conv Let_def PAGE_SIZE_def split: if_splits)

lemma copy_loop_async_eq: "copy_loop_async = copy_loop"
proof (intro ext)
  fix K :: "'a kernel" and f t buf k n s
  show "copy_loop_async K f t buf k n s = copy_loop K f t buf k n s"
    using copy_loop_async_le [of K f t buf k n s] copy_loop_le_async [of K f t buf k n s]
    by (cases "copy_loop_async K f t buf k n s"; cases "copy_loop K f t buf k n s") auto
qed

lemma processunlink_async_same: "processunlink_async = processunlink"
  unfolding fun_eq_iff processunlink_async_def processunlink_def async_helpers copy_loop_async_eq
    close_and_unlink_async_eq
  by simp

text \<open>
  C26. The asynchronous module's own copy of the move, with its own copies of the file helpers, is
  the same function as the synchronous one, on every kernel, faults and endless loops included.
\<close>

theorem processunlink_async_equivalent: "processunlink_async K args s = processunlink K args s"
  by (simp add: processunlink_async_same)

end
