(* ===== verification/Work_Queue.thy ===== *)
theory Work_Queue
  imports Kernel_List Async_Move Syscall
begin

text \<open>
  The work queue of \<open>sys_xclone2async.c\<close>: the module starts two consumer threads, a system call puts its
  argument into the queue, a consumer is meant to take it out and move the file. Every thread is a
  program counter with a step function over the shared state; \<open>async_step\<close> interleaves them. A step
  covers the statements between two synchronisation points (taking or releasing the mutex,
  waiting, a counter), and each list operation is one step.

  What the code leaves open is an argument of the model (\<open>async_env\<close>): the content of uninitialised
  pointers, the room behind an allocation that is too small, and what happens when a thread
  releases a mutex it does not hold. A step that faults ends the run.
\<close>

subsection \<open>Data\<close>

definition max_producers :: int where "max_producers = 2"
definition max_consumers :: nat where "max_consumers = 2"
definition WQ_maxsize :: int where "WQ_maxsize = 2"

lemmas queue_limits = max_producers_def max_consumers_def WQ_maxsize_def

record wq_data =
  wd_fname :: "string option"
  wd_b1 :: "32 word"

datatype tid = Consumer nat | Producer nat

record 'w async_state =
  nodes :: node_store
  w_qnode :: nat
  wq_mutex :: "tid option"
  wq_size :: int
  t_producers :: int
  consumer_wq :: bool
  producer_wq :: bool
  jobs :: "nat \<Rightarrow> wq_data option"
  kstate :: "'w kst"

record async_env =
  room :: "nat \<Rightarrow> nat"
  args_writable :: bool
  bad_unlock :: "tid \<Rightarrow> tid option \<Rightarrow> tid option option"
  consumer_flag :: "nat \<Rightarrow> 64 word"

text \<open>A step is not possible now, is undefined behaviour, or leads on.\<close>

datatype 'a outcome = Blocked | Fault | Go 'a

fun go_on :: "'a option \<Rightarrow> ('a \<Rightarrow> 'b outcome) \<Rightarrow> 'b outcome" where
  "go_on None f = Fault"
| "go_on (Some x) f = f x"

fun and_then :: "'a outcome \<Rightarrow> ('a \<Rightarrow> 'b) \<Rightarrow> 'b outcome" where
  "and_then Blocked f = Blocked"
| "and_then Fault f = Fault"
| "and_then (Go x) f = Go (f x)"

definition mutex_lock :: "tid \<Rightarrow> 'w async_state \<Rightarrow> 'w async_state outcome" where
  "mutex_lock t s = (case wq_mutex s of None \<Rightarrow> Go (s\<lparr>wq_mutex := Some t\<rparr>) | Some _ \<Rightarrow> Blocked)"

definition mutex_unlock :: "async_env \<Rightarrow> tid \<Rightarrow> 'w async_state \<Rightarrow> 'w async_state outcome" where
  "mutex_unlock E t s =
     (if wq_mutex s = Some t then Go (s\<lparr>wq_mutex := None\<rparr>)
      else go_on (bad_unlock E t (wq_mutex s)) (\<lambda>m. Go (s\<lparr>wq_mutex := m\<rparr>)))"

subsection \<open>Taking a job out of the queue\<close>

fun list_entry :: "lptr \<Rightarrow> nat eptr" where
  "list_entry (Node a) = Ptr a"
| "list_entry _ = Null"

text \<open>
  The loop over the queue has an empty body (a semicolon ends it), so its cursor is left at the
  head of the list, and the entry around the head is what is returned.
\<close>

definition process_item :: "'w async_state \<Rightarrow> (nat eptr \<times> 'w async_state) option" where
  "process_item s = do {
     wq_hlist1 \<leftarrow> list_walked (w_qnode s) (nodes s);
     let current_job_item = list_entry wq_hlist1;
     item \<leftarrow> deref current_job_item;
     nd \<leftarrow> nodes s item;
     data \<leftarrow> jobs s (wq_data_node nd);
     if current_job_item \<noteq> Null then do {
       h \<leftarrow> list_del item (nodes s);
       Some (current_job_item, s\<lparr>nodes := h\<rparr>)
     }
     else Some (Null, s)
   }"

subsection \<open>Consumers\<close>

datatype consumer_pc =
    C_Off
  | C_Lock
  | C_Test
  | C_Wait
  | C_Take
  | C_Err int
  | C_Unlock "nat eptr"
  | C_Work "nat eptr"
  | C_Free "nat eptr"
  | C_Exit int

definition take_step :: "'w async_state \<Rightarrow> ('w async_state \<times> consumer_pc) outcome" where
  "take_step s = go_on (process_item s) (\<lambda>(current_job_item, s).
     if is_err current_job_item then Go (s, C_Err (ptr_err current_job_item))
     else
       let s = s\<lparr>wq_size := wq_size s - 1\<rparr> in
       if wq_size s < WQ_maxsize \<and> \<not> producer_wq s then Fault
       else Go (s, C_Unlock current_job_item))"

definition work_step ::
  "async_env \<Rightarrow> 'w kernel \<Rightarrow> nat \<Rightarrow> nat eptr \<Rightarrow> 'w async_state \<Rightarrow> ('w async_state \<times> consumer_pc) outcome" where
  "work_step E K i current_job_item s =
     go_on (do {
         item \<leftarrow> deref current_job_item;
         nd \<leftarrow> nodes s item;
         data \<leftarrow> jobs s (wq_data_node nd);
         if \<not> args_writable E then None else Some data
       })
       (\<lambda>data.
         if wd_fname data = None then Go (s, C_Exit (- 1))
         else
           let args = \<lparr>fname = wd_fname data, b1 = ucast (consumer_flag E i)\<rparr> in
           if b1 args AND CLONE_PROT_MV = CLONE_PROT_MV
           then go_on (processunlink_async K (Some args) ((kstate s)\<lparr>addr_limit := KERNEL_DS\<rparr>))
             (\<lambda>(err, fs). Go (s\<lparr>kstate := fs\<rparr>, C_Free current_job_item))
           else Go (s, C_Free current_job_item))"

definition free_step :: "nat eptr \<Rightarrow> 'w async_state \<Rightarrow> ('w async_state \<times> consumer_pc) outcome" where
  "free_step current_job_item s =
     go_on (do {
         item \<leftarrow> deref current_job_item;
         nd \<leftarrow> nodes s item;
         data \<leftarrow> jobs s (wq_data_node nd);
         Some (item, wq_data_node nd)
       })
       (\<lambda>(item, d). Go (s\<lparr>jobs := (jobs s)(d := None), nodes := (nodes s)(item := None)\<rparr>, C_Lock))"

text \<open>The body of \<open>consumer_work_func\<close>, for the thread \<open>i\<close>.\<close>

fun consumer_step ::
  "async_env \<Rightarrow> 'w kernel \<Rightarrow> nat \<Rightarrow> 'w async_state \<Rightarrow> consumer_pc \<Rightarrow> ('w async_state \<times> consumer_pc) outcome" where
  "consumer_step E K i s C_Lock = and_then (mutex_lock (Consumer i) s) (\<lambda>s. (s, C_Test))"
| "consumer_step E K i s C_Test =
     (if wq_size s = 0 then and_then (mutex_unlock E (Consumer i) s) (\<lambda>s. (s, C_Wait))
      else Go (s, C_Take))"
| "consumer_step E K i s C_Wait =
     (if wq_size s > 0 then Go (s, C_Take)
      else if consumer_wq s then Blocked else Fault)"
| "consumer_step E K i s C_Take = take_step s"
| "consumer_step E K i s (C_Err e) =
     and_then (mutex_unlock E (Consumer i) s) (\<lambda>s. (s, C_Exit e))"
| "consumer_step E K i s (C_Unlock item) =
     and_then (mutex_unlock E (Consumer i) s) (\<lambda>s. (s, C_Work item))"
| "consumer_step E K i s (C_Work item) = work_step E K i item s"
| "consumer_step E K i s (C_Free item) = free_step item s"
| "consumer_step E K i s C_Off = Blocked"
| "consumer_step E K i s (C_Exit r) = Blocked"

subsection \<open>Producers\<close>

datatype producer_pc =
    P_Call "nat option" "64 word"
  | P_Lock nat
  | P_Test nat
  | P_Full nat
  | P_Throttle nat
  | P_Inc nat
  | P_Wait nat
  | P_Dec nat
  | P_Alloc nat
  | P_Count
  | P_Wake
  | P_Done int

text \<open>
  \<open>insert_into_head_job\<close> from \<open>P_Lock\<close> to \<open>P_Count\<close>. The new node is allocated with the size of a
  pointer, 8 bytes, and its links are written up to byte 24. What \<open>kmalloc\<close> returns and whether a
  signal ends the waiting are choices of the environment.
\<close>

fun insert_step ::
  "async_env \<Rightarrow> nat option \<Rightarrow> bool \<Rightarrow> nat \<Rightarrow> 'w async_state \<Rightarrow> producer_pc \<Rightarrow>
   ('w async_state \<times> producer_pc) outcome" where
  "insert_step E alloc sig p s (P_Lock workitem) =
     and_then (mutex_lock (Producer p) s) (\<lambda>s. (s, P_Test workitem))"
| "insert_step E alloc sig p s (P_Test workitem) =
     (if wq_size s \<ge> WQ_maxsize then Go (s, P_Full workitem) else Go (s, P_Alloc workitem))"
| "insert_step E alloc sig p s (P_Full workitem) =
     and_then (mutex_unlock E (Producer p) s) (\<lambda>s. (s, P_Throttle workitem))"
| "insert_step E alloc sig p s (P_Throttle workitem) =
     (if t_producers s \<le> max_producers then Go (s, P_Inc workitem) else Go (s, P_Done (- 1)))"
| "insert_step E alloc sig p s (P_Inc workitem) =
     Go (s\<lparr>t_producers := t_producers s + 1\<rparr>, P_Wait workitem)"
| "insert_step E alloc sig p s (P_Wait workitem) =
     (if wq_size s < WQ_maxsize then Go (s, P_Dec workitem)
      else if \<not> producer_wq s then Fault
      else if sig then Go (s, P_Dec workitem) else Blocked)"
| "insert_step E alloc sig p s (P_Dec workitem) =
     Go (s\<lparr>t_producers := t_producers s - 1\<rparr>, P_Test workitem)"
| "insert_step E alloc sig p s (P_Alloc workitem) =
     (case alloc of
        None \<Rightarrow> Go (s, P_Done (- 1))
      | Some a \<Rightarrow>
          if room E 8 < 24 then Fault
          else
            let h = (nodes s)(a \<mapsto> \<lparr>wq_data_node = workitem, next_p = Poison1, prev_p = Poison2\<rparr>) in
            go_on (list_add_tail a (w_qnode s) h) (\<lambda>h. Go (s\<lparr>nodes := h\<rparr>, P_Count)))"
| "insert_step E alloc sig p s P_Count = Go (s\<lparr>wq_size := wq_size s + 1\<rparr>, P_Wake)"
| "insert_step E alloc sig p s pc = Blocked"

text \<open>The system call around it.\<close>

fun xclone2async_step ::
  "async_env \<Rightarrow> nat option \<Rightarrow> bool \<Rightarrow> nat \<Rightarrow> 'w async_state \<Rightarrow> producer_pc \<Rightarrow>
   ('w async_state \<times> producer_pc) outcome" where
  "xclone2async_step E alloc sig p s (P_Call arg flag) =
     (case arg of
        None \<Rightarrow> Go (s, P_Done (- EINVAL))
      | Some a \<Rightarrow> go_on (jobs s a) (\<lambda>current_job.
          if wd_fname current_job = None then Go (s, P_Done (- EINVAL))
          else
            let current_job = current_job\<lparr>wd_b1 := ucast flag\<rparr>;
                s = s\<lparr>jobs := (jobs s)(a \<mapsto> current_job)\<rparr> in
            if wd_b1 current_job AND CLONE_PROT_MV = CLONE_PROT_MV then Go (s, P_Lock a)
            else Go (s, P_Done 0)))"
| "xclone2async_step E alloc sig p s P_Wake = (if consumer_wq s then Go (s, P_Done 0) else Fault)"
| "xclone2async_step E alloc sig p s (P_Done r) = Blocked"
| "xclone2async_step E alloc sig p s pc = insert_step E alloc sig p s pc"

subsection \<open>Loading and unloading\<close>

text \<open>
  \<open>initialise_wq\<close> up to the start of the threads. \<open>queue\<close> and \<open>qnode\<close> are what the two allocations
  return; the data pointer of the head node is never written, so it is \<open>garbage\<close>.
\<close>

definition initialise_wq ::
  "bool \<Rightarrow> nat option \<Rightarrow> nat \<Rightarrow> 'w async_state \<Rightarrow> (int \<times> 'w async_state) option" where
  "initialise_wq queue qnode garbage s =
     (if \<not> queue then Some (- ENOMEM, s)
      else case qnode of
        None \<Rightarrow> Some (- ENOMEM, s)
      | Some a \<Rightarrow> do {
          let s = s\<lparr>w_qnode := a\<rparr>;
          h \<leftarrow> init_list_head a ((nodes s)(a \<mapsto> \<lparr>wq_data_node = garbage, next_p = Poison1, prev_p = Poison2\<rparr>));
          let s = s\<lparr>nodes := h\<rparr>;
          let s = s\<lparr>wq_mutex := None\<rparr>;
          let s = s\<lparr>wq_size := 0\<rparr>;
          Some (0, s)
        })"

datatype loader_pc = L_Start | L_Heads1 | L_Heads2 | L_Producers | L_Ptr | L_Done

record 'w system =
  shared :: "'w async_state"
  cons :: "nat \<Rightarrow> consumer_pc"
  prods :: "nat \<Rightarrow> producer_pc"
  loader :: loader_pc
  sysptr :: "syscall_code option"

text \<open>
  The rest of \<open>initialise_wq\<close> (\<open>L_Start\<close>) and of \<open>init_sys_xclone2async\<close>; \<open>created\<close> is whether
  \<open>kthread_create\<close> succeeds, an error pointer is passed on to \<open>wake_up_process\<close>.
\<close>

fun loader_step :: "bool \<Rightarrow> 'w system \<Rightarrow> 'w system outcome" where
  "loader_step created S =
     (case loader S of
        L_Start \<Rightarrow>
          if \<not> created then Fault
          else Go (S\<lparr>cons := (\<lambda>i. if i < max_consumers then C_Lock else cons S i), loader := L_Heads1\<rparr>)
      | L_Heads1 \<Rightarrow> Go (S\<lparr>shared := (shared S)\<lparr>consumer_wq := True\<rparr>, loader := L_Heads2\<rparr>)
      | L_Heads2 \<Rightarrow> Go (S\<lparr>shared := (shared S)\<lparr>producer_wq := True\<rparr>, loader := L_Producers\<rparr>)
      | L_Producers \<Rightarrow> Go (S\<lparr>shared := (shared S)\<lparr>t_producers := 0\<rparr>, loader := L_Ptr\<rparr>)
      | L_Ptr \<Rightarrow>
          Go (S\<lparr>sysptr := (if sysptr S = None then Some Async_xclone2async else sysptr S), loader := L_Done\<rparr>)
      | L_Done \<Rightarrow> Blocked)"

definition exit_sys_xclone2async ::
  "syscall_code option \<Rightarrow> 'w async_state \<Rightarrow> (syscall_code option \<times> 'w async_state) option" where
  "exit_sys_xclone2async ptr s = do {
     wq_hlist1 \<leftarrow> list_walked (w_qnode s) (nodes s);
     let current_job_item = list_entry wq_hlist1;
     s \<leftarrow> (if current_job_item \<noteq> Null then do {
             item \<leftarrow> deref current_job_item;
             h \<leftarrow> list_del item (nodes s);
             Some (s\<lparr>nodes := h\<rparr>)
           }
           else Some s);
     s \<leftarrow> (case current_job_item of
             Ptr item \<Rightarrow> if nodes s item = None then None else Some (s\<lparr>nodes := (nodes s)(item := None)\<rparr>)
           | _ \<Rightarrow> Some s);
     let ptr = (if ptr \<noteq> None then None else ptr);
     Some (ptr, s)
   }"

subsection \<open>Interleaving\<close>

text \<open>
  A user may fill in an argument and enter the system call whenever no call of the same thread is
  under way and the module has the system call. The address of a node stands for its allocation,
  so that of the head is not handed out again after the head has been freed.
\<close>

inductive async_step :: "async_env \<Rightarrow> 'w kernel \<Rightarrow> 'w system \<Rightarrow> 'w system \<Rightarrow> bool" for E K where
  step_loader: "loader_step created S = Go S' \<Longrightarrow> async_step E K S S'"
| step_consumer: "i < max_consumers \<Longrightarrow> consumer_step E K i (shared S) (cons S i) = Go (s, pc) \<Longrightarrow>
    async_step E K S (S\<lparr>shared := s, cons := (cons S)(i := pc)\<rparr>)"
| step_producer: "alloc = None \<or> (\<exists>a. alloc = Some a \<and> nodes (shared S) a = None \<and> a \<noteq> w_qnode (shared S)) \<Longrightarrow>
    xclone2async_step E alloc sig p (shared S) (prods S p) = Go (s, pc) \<Longrightarrow>
    async_step E K S (S\<lparr>shared := s, prods := (prods S)(p := pc)\<rparr>)"
| step_call: "prods S p = P_Done r \<Longrightarrow> sysptr S = Some Async_xclone2async \<Longrightarrow>
    async_step E K S (S\<lparr>shared := (shared S)\<lparr>jobs := jobs (shared S) ++ args\<rparr>,
      prods := (prods S)(p := P_Call arg flag)\<rparr>)"

inductive async_reach :: "async_env \<Rightarrow> 'w kernel \<Rightarrow> 'w system \<Rightarrow> bool" for E K where
  reach_load: "initialise_wq queue qnode garbage s = Some (0, s') \<Longrightarrow>
    async_reach E K \<lparr>shared = s', cons = (\<lambda>i. C_Off), prods = (\<lambda>p. P_Done 0), loader = L_Start, sysptr = ptr\<rparr>"
| reach_step: "async_reach E K S \<Longrightarrow> async_step E K S S' \<Longrightarrow> async_reach E K S'"

end
