(* ===== verification/Work_Queue_Props.thy ===== *)
theory Work_Queue_Props
  imports Work_Queue
begin

text \<open>
  What the work queue of the asynchronous module does, over all interleavings of its threads.
\<close>

subsection \<open>One step\<close>

lemma go_on_Go [simp]: "go_on m f = Go y \<longleftrightarrow> (\<exists>x. m = Some x \<and> f x = Go y)"
  by (cases m) simp_all

lemma and_then_Go [simp]: "and_then m f = Go y \<longleftrightarrow> (\<exists>x. m = Go x \<and> y = f x)"
  by (cases m) auto

lemma mutex_lock_Go [simp]:
  "mutex_lock t s = Go s' \<longleftrightarrow> wq_mutex s = None \<and> s' = s\<lparr>wq_mutex := Some t\<rparr>"
  by (auto simp: mutex_lock_def split: option.splits)

lemma mutex_unlock_Go:
  "mutex_unlock E t s = Go s' \<longleftrightarrow>
     (\<exists>m. s' = s\<lparr>wq_mutex := m\<rparr> \<and>
        (if wq_mutex s = Some t then m = None else bad_unlock E t (wq_mutex s) = Some m))"
  by (auto simp: mutex_unlock_def)

fun item_of :: "consumer_pc \<Rightarrow> nat eptr option" where
  "item_of (C_Unlock item) = Some item"
| "item_of (C_Work item) = Some item"
| "item_of (C_Free item) = Some item"
| "item_of _ = None"

text \<open>The queue as a consumer finds it: a ring, or a head that has been cut out.\<close>

lemma process_item_ring:
  assumes "ring (nodes s) (w_qnode s) xs"
  shows "\<exists>nd. nodes s (w_qnode s) = Some nd \<and>
    (case jobs s (wq_data_node nd) of
       None \<Rightarrow> process_item s = None
     | Some d \<Rightarrow> \<exists>h. process_item s = Some (Ptr (w_qnode s), s\<lparr>nodes := h\<rparr>) \<and> cut_off h (w_qnode s) \<and>
         (\<forall>b. map_option wq_data_node (h b) = map_option wq_data_node (nodes s b)))"
proof -
  obtain nd where nd: "nodes s (w_qnode s) = Some nd" using assms by (auto simp: ring_def)
  obtain h where "list_del (w_qnode s) (nodes s) = Some h" "cut_off h (w_qnode s)"
    "\<forall>b. map_option wq_data_node (h b) = map_option wq_data_node (nodes s b)"
    using ring_del_head [OF assms] by blast
  then show ?thesis
    using nd ring_walk [OF assms] by (auto simp: process_item_def Let_def split: option.split)
qed

lemma process_item_cut: "cut_off (nodes s) (w_qnode s) \<Longrightarrow> process_item s = None"
  by (simp add: process_item_def cut_off_stuck)

lemma take_step_Go:
  "take_step s = Go (s', pc) \<Longrightarrow> ring (nodes s) (w_qnode s) xs \<Longrightarrow>
   pc = C_Unlock (Ptr (w_qnode s)) \<and> cut_off (nodes s') (w_qnode s) \<and> w_qnode s' = w_qnode s \<and>
   (\<forall>b. map_option wq_data_node (nodes s' b) = map_option wq_data_node (nodes s b)) \<and>
   wq_size s' = wq_size s - 1 \<and> wq_mutex s' = wq_mutex s"
  using process_item_ring [of s xs]
  by (auto simp: take_step_def Let_def split: if_splits option.splits)

text \<open>Every other step of a consumer leaves the nodes alone, but for the one that frees.\<close>

lemma consumer_step_nodes:
  assumes "consumer_step E K i s pc = Go (s', pc')" and "pc \<noteq> C_Take"
  shows "w_qnode s' = w_qnode s \<and> wq_size s' = wq_size s \<and>
    ((\<forall>e. pc \<noteq> C_Err e) \<longrightarrow> (\<forall>e. pc' \<noteq> C_Err e)) \<and>
    (nodes s' = nodes s \<and> (item_of pc' = None \<or> item_of pc' = item_of pc) \<or>
     (\<exists>a. pc = C_Free (Ptr a) \<and> nodes s' = (nodes s)(a := None) \<and> item_of pc' = None))"
  using assms
  by (cases pc) (auto simp: mutex_unlock_Go work_step_def free_step_def Let_def Option.bind_eq_Some_conv
      split: if_splits)

lemma producer_step_nodes:
  assumes "xclone2async_step E alloc sig p s pc = Go (s', pc')"
  shows "w_qnode s' = w_qnode s \<and>
    (nodes s' = nodes s \<or>
     (\<exists>a w. pc = P_Alloc w \<and> alloc = Some a \<and> pc' = P_Count \<and> list_add_tail a (w_qnode s)
        ((nodes s)(a \<mapsto> \<lparr>wq_data_node = w, next_p = Poison1, prev_p = Poison2\<rparr>)) = Some (nodes s')))"
  using assms
  by (cases pc) (auto simp: mutex_unlock_Go Let_def split: if_splits option.splits)

lemma loader_step_nodes:
  assumes "loader_step c S = Go S'"
  shows "w_qnode (shared S') = w_qnode (shared S) \<and> nodes (shared S') = nodes (shared S) \<and>
    wq_size (shared S') = wq_size (shared S) \<and> wq_mutex (shared S') = wq_mutex (shared S) \<and>
    prods S' = prods S \<and> (loader S \<noteq> L_Start \<and> cons S' = cons S \<or>
      loader S = L_Start \<and> (\<forall>i. cons S' i = (if i < max_consumers then C_Lock else cons S i)))"
  using assms by (cases "loader S") (auto split: if_splits)

subsection \<open>An invariant of all runs\<close>

text \<open>
  Whatever the environment does: a consumer holds nothing but the head of the list, no two consumers
  hold something, and the list is intact until one does.
\<close>

definition queue_inv :: "node_store \<Rightarrow> nat \<Rightarrow> (nat \<Rightarrow> consumer_pc) \<Rightarrow> bool" where
  "queue_inv h w cs \<longleftrightarrow> (\<forall>i e. cs i \<noteq> C_Err e) \<and>
     (\<forall>i item. item_of (cs i) = Some item \<longrightarrow> item = Ptr w) \<and>
     ((\<exists>xs. ring h w xs) \<and> (\<forall>i. item_of (cs i) = None) \<or>
      cut_off h w \<and> (\<forall>i j. item_of (cs i) \<noteq> None \<longrightarrow> item_of (cs j) \<noteq> None \<longrightarrow> i = j))"

definition queue_ok :: "'w system \<Rightarrow> bool" where
  "queue_ok S = queue_inv (nodes (shared S)) (w_qnode (shared S)) (cons S)"

lemma ring_not_cut: "ring h w xs \<Longrightarrow> \<not> cut_off h w"
  by (auto simp: ring_def cut_off_def)

lemma queue_inv_ring:
  "queue_inv h w cs \<Longrightarrow> \<not> cut_off h w \<Longrightarrow> \<exists>xs. ring h w xs \<and> (\<forall>i. item_of (cs i) = None)"
  by (auto simp: queue_inv_def)

lemma queue_inv_mono:
  assumes inv: "queue_inv h w cs" and item: "\<And>j. item_of (cs' j) = None \<or> item_of (cs' j) = item_of (cs j)"
    and err: "\<And>j e. cs' j \<noteq> C_Err e"
  shows "queue_inv h w cs'"
proof -
  have "item_of (cs j) = Some x" if "item_of (cs' j) = Some x" for j x
    using item [of j] that by auto
  then have "(\<forall>i. item_of (cs i) = None) \<longrightarrow> (\<forall>i. item_of (cs' i) = None)"
    and "(\<forall>i j. item_of (cs i) \<noteq> None \<longrightarrow> item_of (cs j) \<noteq> None \<longrightarrow> i = j) \<longrightarrow>
      (\<forall>i j. item_of (cs' i) \<noteq> None \<longrightarrow> item_of (cs' j) \<noteq> None \<longrightarrow> i = j)"
    and "\<forall>i x. item_of (cs' i) = Some x \<longrightarrow> x = Ptr w"
    using inv unfolding queue_inv_def by (metis not_None_eq)+
  then show ?thesis using inv err unfolding queue_inv_def by blast
qed

lemma queue_inv_move:
  assumes "queue_inv h w cs" and "item_of pc = None \<or> item_of pc = item_of (cs i)" and "\<forall>e. pc \<noteq> C_Err e"
  shows "queue_inv h w (cs(i := pc))"
  by (rule queue_inv_mono [OF assms(1)]) (use assms in \<open>auto simp: queue_inv_def\<close>)

lemma queue_inv_free:
  assumes "queue_inv h w cs" and "cs i = C_Free (Ptr a)" and "item_of pc = None" and "\<forall>e. pc \<noteq> C_Err e"
  shows "queue_inv (h(a := None)) w (cs(i := pc))"
proof -
  have "item_of (cs i) = Some (Ptr a)" using assms(2) by simp
  then have a: "a = w" "cut_off h w" "\<forall>i j. item_of (cs i) \<noteq> None \<longrightarrow> item_of (cs j) \<noteq> None \<longrightarrow> i = j"
    using assms(1) unfolding queue_inv_def by (metis eptr.inject(2) option.distinct(1))+
  then have "queue_inv (h(a := None)) w cs"
    using assms(1) by (auto simp: queue_inv_def cut_off_def)
  then show ?thesis
    using queue_inv_move assms(3,4) by blast
qed

lemma queue_inv_take:
  assumes "queue_inv h w cs" and "\<not> cut_off h w" and "cut_off h' w"
  shows "queue_inv h' w (cs(i := C_Unlock (Ptr w)))"
  using queue_inv_ring [OF assms(1,2)] assms(1,3) by (auto simp: queue_inv_def)

lemma queue_inv_add:
  "queue_inv h w cs \<Longrightarrow> \<not> cut_off h w \<Longrightarrow> ring h' w xs \<Longrightarrow> queue_inv h' w cs"
  by (auto simp: queue_inv_def)

lemma ring_fresh:
  assumes "ring h head xs" and "h a = None"
  shows "a \<notin> set (head # xs) \<and> ring (h(a := v)) head xs"
proof -
  have "a \<notin> set (head # xs)"
    using seg_Some [of h head xs head a] assms by (auto simp: ring_def)
  then show ?thesis using assms by (auto simp: ring_def simp del: seg.simps)
qed

lemma cut_off_upd: "cut_off h head \<Longrightarrow> a \<noteq> head \<Longrightarrow> cut_off (h(a := v)) head"
  by (simp add: cut_off_def)

lemma add_tail_fresh:
  assumes "ring h head xs" and "h a = None" and "list_add_tail a head (h(a \<mapsto> nd)) = Some h'"
  shows "ring h' head (xs @ [a])"
  using ring_add_tail [of "h(a \<mapsto> nd)" head xs a nd] ring_fresh [OF assms(1,2)] assms(3) by auto

lemma producer_step_queue:
  assumes "xclone2async_step E alloc sig p s pc = Go (s', pc')"
    and "alloc = None \<or> (\<exists>a. alloc = Some a \<and> nodes s a = None \<and> a \<noteq> w_qnode s)"
  shows "cut_off (nodes s) (w_qnode s) \<Longrightarrow> nodes s' = nodes s"
    and "ring (nodes s) (w_qnode s) xs \<Longrightarrow> nodes s' = nodes s \<or>
      (\<exists>a. pc' = P_Count \<and> (\<exists>w. pc = P_Alloc w) \<and> ring (nodes s') (w_qnode s) (xs @ [a]))"
  using producer_step_nodes [OF assms(1)] assms(2)
  by (auto simp: cut_off_stuck cut_off_upd dest: add_tail_fresh)

lemma queue_ok_step:
  assumes ok: "queue_ok S" and step: "async_step E K S S'"
  shows "queue_ok S'"
  using step
proof cases
  case (step_loader c)
  have cs: "cons S' j = cons S j \<or> cons S' j = C_Lock" for j
    using loader_step_nodes [OF step_loader] by auto
  have err: "cons S j \<noteq> C_Err e" for j e using ok by (simp add: queue_ok_def queue_inv_def)
  have "queue_inv (nodes (shared S)) (w_qnode (shared S)) (cons S')"
  proof (rule queue_inv_mono [of _ _ "cons S"])
    show "item_of (cons S' j) = None \<or> item_of (cons S' j) = item_of (cons S j)" for j
      using cs [of j] by auto
    show "cons S' j \<noteq> C_Err e" for j e
      using cs [of j] err [of j e] by auto
  qed (use ok in \<open>simp add: queue_ok_def\<close>)
  with loader_step_nodes [OF step_loader] show ?thesis by (simp add: queue_ok_def)
next
  case (step_consumer i s pc)
  show ?thesis
  proof (cases "cons S i = C_Take")
    case True
    show ?thesis
    proof (cases "cut_off (nodes (shared S)) (w_qnode (shared S))")
      case True
      with step_consumer \<open>cons S i = C_Take\<close> show ?thesis
        using process_item_cut [of "shared S"] by (auto simp: take_step_def)
    next
      case False
      then obtain xs where "ring (nodes (shared S)) (w_qnode (shared S)) xs"
        using queue_inv_ring [OF ok [unfolded queue_ok_def]] by blast
      with step_consumer True ok take_step_Go [of "shared S" s pc xs] False
      show ?thesis by (auto simp: queue_ok_def intro: queue_inv_take)
    qed
  next
    case False
    have "\<forall>e. cons S i \<noteq> C_Err e" using ok by (auto simp: queue_ok_def queue_inv_def)
    with consumer_step_nodes [OF step_consumer(3) False] ok step_consumer(1) show ?thesis
      by (auto simp: queue_ok_def intro: queue_inv_move queue_inv_free)
  qed
next
  case (step_producer alloc sig p s pc)
  have "queue_inv (nodes s) (w_qnode (shared S)) (cons S)"
  proof (cases "cut_off (nodes (shared S)) (w_qnode (shared S))")
    case True
    then show ?thesis
      using ok producer_step_queue(1) [OF step_producer(3,2)] by (simp add: queue_ok_def)
  next
    case False
    then obtain xs where "ring (nodes (shared S)) (w_qnode (shared S)) xs"
      using queue_inv_ring [OF ok [unfolded queue_ok_def]] by blast
    from producer_step_queue(2) [OF step_producer(3,2) this] ok False show ?thesis
      by (auto simp: queue_ok_def intro: queue_inv_add)
  qed
  then show ?thesis
    using producer_step_nodes [OF step_producer(3)] step_producer(1) by (simp add: queue_ok_def)
next
  case (step_call p r args arg flag)
  then show ?thesis using ok by (simp add: queue_ok_def)
qed

subsection \<open>Reachable states\<close>

lemma initialise_wq_result:
  assumes "initialise_wq queue qnode garbage s = Some (0, s')"
  shows "ring (nodes s') (w_qnode s') [] \<and> wq_mutex s' = None \<and> wq_size s' = 0"
proof -
  have "ring h' a []" if "init_list_head a ((nodes s)(a \<mapsto> nd)) = Some h'" for a nd h'
    using ring_init [of "(nodes s)(a \<mapsto> nd)" a nd] that by auto
  then show ?thesis
    using assms
    by (auto simp: initialise_wq_def ENOMEM_def Let_def Option.bind_eq_Some_conv
        split: if_splits option.splits)
qed

lemma async_reach_ok: "async_reach E K S \<Longrightarrow> queue_ok S"
proof (induction rule: async_reach.induct)
  case (reach_load queue qnode garbage s s' ptr)
  from initialise_wq_result [OF this] show ?case by (auto simp: queue_ok_def queue_inv_def)
next
  case (reach_step S S')
  then show ?case by (blast intro: queue_ok_step)
qed

lemma async_reach_steps: "(async_step E K)\<^sup>*\<^sup>* S S' \<Longrightarrow> async_reach E K S \<Longrightarrow> async_reach E K S'"
  by (induction rule: rtranclp_induct) (auto intro: reach_step)

text \<open>The nodes of submitted jobs stay where they are, with their data.\<close>

lemma add_tail_data:
  assumes "ring h head xs" and "h a = None" and "list_add_tail a head (h(a \<mapsto> nd)) = Some h'" and "h b = Some x"
  shows "\<exists>y. h' b = Some y \<and> wq_data_node y = wq_data_node x"
proof -
  have "map_option wq_data_node (h' b) = map_option wq_data_node ((h(a \<mapsto> nd)) b)"
    using ring_add_tail [of "h(a \<mapsto> nd)" head xs a nd] ring_fresh [OF assms(1,2)] assms(3) by auto
  moreover have "b \<noteq> a" using assms(2,4) by auto
  ultimately show ?thesis using assms(4) by (auto simp: map_option_eq_Some)
qed

lemma step_keeps_node:
  assumes ok: "queue_ok S" and step: "async_step E K S S'"
    and node: "nodes (shared S) a = Some nd" "a \<noteq> w_qnode (shared S)"
  shows "w_qnode (shared S') = w_qnode (shared S) \<and>
    (\<exists>nd'. nodes (shared S') a = Some nd' \<and> wq_data_node nd' = wq_data_node nd)"
  using step
proof cases
  case (step_loader c)
  with loader_step_nodes [OF step_loader] node show ?thesis by simp
next
  case (step_consumer i s pc)
  show ?thesis
  proof (cases "cons S i = C_Take")
    case True
    with step_consumer have take: "take_step (shared S) = Go (s, pc)" by simp
    then have "\<not> cut_off (nodes (shared S)) (w_qnode (shared S))"
      using process_item_cut [of "shared S"] by (auto simp: take_step_def)
    then obtain xs where "ring (nodes (shared S)) (w_qnode (shared S)) xs"
      using queue_inv_ring [OF ok [unfolded queue_ok_def]] by blast
    with take_step_Go [OF take] have t: "w_qnode s = w_qnode (shared S)"
      "map_option wq_data_node (nodes s a) = map_option wq_data_node (nodes (shared S) a)" by auto
    then obtain nd' where "nodes s a = Some nd'" "wq_data_node nd' = wq_data_node nd"
      using node(1) by (auto simp: map_option_eq_Some)
    with t(1) step_consumer(1) show ?thesis by simp
  next
    case False
    have "b = w_qnode (shared S)" if "cons S i = C_Free (Ptr b)" for b
    proof -
      have "item_of (cons S i) = Some (Ptr b)" using that by simp
      then show ?thesis using ok unfolding queue_ok_def queue_inv_def by (metis eptr.inject(2))
    qed
    with consumer_step_nodes [OF step_consumer(3) False] step_consumer(1) node show ?thesis by auto
  qed
next
  case (step_producer alloc sig p s pc)
  show ?thesis
  proof (cases "nodes s = nodes (shared S)")
    case True
    with producer_step_nodes [OF step_producer(3)] step_producer(1) node show ?thesis by simp
  next
    case False
    then have "\<not> cut_off (nodes (shared S)) (w_qnode (shared S))"
      using producer_step_queue(1) [OF step_producer(3,2)] by blast
    then obtain xs where "ring (nodes (shared S)) (w_qnode (shared S)) xs"
      using queue_inv_ring [OF ok [unfolded queue_ok_def]] by blast
    with False producer_step_nodes [OF step_producer(3)] step_producer(1,2) node show ?thesis
      by (auto dest: add_tail_data)
  qed
next
  case (step_call p r args arg flag)
  with node show ?thesis by simp
qed

text \<open>Once the head is out of the list it stays out.\<close>

lemma cut_off_step:
  assumes ok: "queue_ok S" and step: "async_step E K S S'"
    and off: "cut_off (nodes (shared S)) (w_qnode (shared S))"
  shows "cut_off (nodes (shared S')) (w_qnode (shared S'))"
  using step
proof cases
  case (step_loader c)
  with loader_step_nodes [OF step_loader] off show ?thesis by simp
next
  case (step_consumer i s pc)
  have "cons S i \<noteq> C_Take"
    using step_consumer process_item_cut [OF off] by (auto simp: take_step_def)
  from consumer_step_nodes [OF step_consumer(3) this] step_consumer(1) off show ?thesis
    by (auto simp: cut_off_def split: if_splits)
next
  case (step_producer alloc sig p s pc)
  with producer_step_queue(1) [OF step_producer(3,2) off] producer_step_nodes [OF step_producer(3)] off
  show ?thesis by simp
next
  case (step_call p r args arg flag)
  with off show ?thesis by simp
qed

lemma steps_keep:
  assumes "(async_step E K)\<^sup>*\<^sup>* S S'" and "queue_ok S"
  shows "queue_ok S' \<and> (cut_off (nodes (shared S)) (w_qnode (shared S)) \<longrightarrow>
      cut_off (nodes (shared S')) (w_qnode (shared S'))) \<and>
    (\<forall>a nd. a \<noteq> w_qnode (shared S) \<and> nodes (shared S) a = Some nd \<longrightarrow>
      w_qnode (shared S') = w_qnode (shared S) \<and>
      (\<exists>nd'. nodes (shared S') a = Some nd' \<and> wq_data_node nd' = wq_data_node nd))"
  using assms(1)
proof (induction rule: rtranclp_induct)
  case base
  then show ?case using assms(2) by simp
next
  case (step T T')
  then have "queue_ok T" by simp
  from queue_ok_step [OF this step(2)] cut_off_step [OF this step(2)] step_keeps_node [OF this step(2)] step(3)
  show ?case by fastforce
qed

subsection \<open>Properties of all runs\<close>

text \<open>
  C10. Whatever the environment does, a submitted job is never taken out of the queue: in every run
  of the module without a fault its node stays allocated with its data, and no consumer ever holds it.
\<close>

theorem job_never_served:
  assumes "async_reach E K S" and "(async_step E K)\<^sup>*\<^sup>* S S'"
    and "nodes (shared S) a = Some nd" and "a \<noteq> w_qnode (shared S)"
  shows "(\<exists>nd'. nodes (shared S') a = Some nd' \<and> wq_data_node nd' = wq_data_node nd) \<and>
    (\<forall>i. item_of (cons S' i) \<noteq> Some (Ptr a))"
proof -
  have k: "queue_ok S'" "w_qnode (shared S') = w_qnode (shared S)"
    "\<exists>nd'. nodes (shared S') a = Some nd' \<and> wq_data_node nd' = wq_data_node nd"
    using steps_keep [OF assms(2) async_reach_ok [OF assms(1)]] assms(3,4) by blast+
  then show ?thesis
    using assms(4) by (auto simp: queue_ok_def queue_inv_def)
qed

text \<open>
  C39. Once a consumer has taken something, the queue is broken for good: from then on every consumer
  that looks for a job and every call that inserts one faults.
\<close>

theorem queue_breaks:
  assumes "async_reach E K S" and "item_of (cons S i) \<noteq> None" and "(async_step E K)\<^sup>*\<^sup>* S S'"
    and "b \<noteq> w_qnode (shared S')"
  shows "consumer_step E K j (shared S') C_Take = Fault \<and>
    xclone2async_step E (Some b) sig p (shared S') (P_Alloc w) = Fault"
proof -
  have "cut_off (nodes (shared S)) (w_qnode (shared S))"
    using async_reach_ok [OF assms(1)] assms(2) by (auto simp: queue_ok_def queue_inv_def)
  then have off: "cut_off (nodes (shared S')) (w_qnode (shared S'))"
    using steps_keep [OF assms(3) async_reach_ok [OF assms(1)]] by blast
  then show ?thesis
    using cut_off_stuck(3) [OF cut_off_upd [OF off assms(4)]] process_item_cut [OF off]
    by (simp add: take_step_def)
qed

end
