(* ===== verification/Queue_Deadlock.thy ===== *)
theory Queue_Deadlock
  imports Work_Queue_Props
begin

text \<open>
  The work queue when the kernel's rule for a mutex is taken at its word (only the thread that holds
  it may release it), and concrete runs. An accepted call leaves the mutex locked for ever: one job at
  most gets into the queue, no consumer gets as far as moving a file, later calls wait without end.
\<close>

subsection \<open>Runs of a given schedule\<close>

datatype choice =
    Load bool
  | Consume nat
  | Produce nat "nat option" bool
  | Call nat "nat option" "64 word" nat wq_data

fun run_choice :: "async_env \<Rightarrow> 'w kernel \<Rightarrow> choice \<Rightarrow> 'w system \<Rightarrow> 'w system outcome" where
  "run_choice E K (Load created) S = loader_step created S"
| "run_choice E K (Consume i) S =
     (if i < max_consumers
      then and_then (consumer_step E K i (shared S) (cons S i))
        (\<lambda>(s, pc). S\<lparr>shared := s, cons := (cons S)(i := pc)\<rparr>)
      else Blocked)"
| "run_choice E K (Produce p alloc sig) S =
     (if case alloc of None \<Rightarrow> True | Some a \<Rightarrow> nodes (shared S) a = None \<and> a \<noteq> w_qnode (shared S)
      then and_then (xclone2async_step E alloc sig p (shared S) (prods S p))
        (\<lambda>(s, pc). S\<lparr>shared := s, prods := (prods S)(p := pc)\<rparr>)
      else Blocked)"
| "run_choice E K (Call p arg flag a d) S =
     (case prods S p of
        P_Done r \<Rightarrow>
          if sysptr S = Some Async_xclone2async
          then Go (S\<lparr>shared := (shared S)\<lparr>jobs := jobs (shared S) ++ [a \<mapsto> d]\<rparr>,
            prods := (prods S)(p := P_Call arg flag)\<rparr>)
          else Blocked
      | _ \<Rightarrow> Blocked)"

fun run :: "async_env \<Rightarrow> 'w kernel \<Rightarrow> choice list \<Rightarrow> 'w system \<Rightarrow> 'w system option" where
  "run E K [] S = Some S"
| "run E K (c # cs) S = (case run_choice E K c S of Go S' \<Rightarrow> run E K cs S' | _ \<Rightarrow> None)"

lemma run_choice_step: "run_choice E K c S = Go S' \<Longrightarrow> async_step E K S S'"
proof (cases c)
  case (Call p arg flag a d)
  assume "run_choice E K c S = Go S'"
  with Call show ?thesis
    using step_call [where args = "[a \<mapsto> d]"]
    by (auto split: if_splits producer_pc.splits)
qed (auto intro: async_step.intros split: if_splits option.splits)

lemma run_steps: "run E K cs S = Some S' \<Longrightarrow> (async_step E K)\<^sup>*\<^sup>* S S'"
proof (induction cs arbitrary: S)
  case (Cons c cs)
  then obtain T where "run_choice E K c S = Go T" "run E K cs T = Some S'"
    by (auto split: outcome.splits)
  with Cons.IH show ?case using run_choice_step converse_rtranclp_into_rtranclp by metis
qed simp

subsection \<open>A call that is accepted\<close>

definition call_fits :: "async_env \<Rightarrow> nat \<Rightarrow> nat \<Rightarrow> nat list \<Rightarrow> 'w system \<Rightarrow> bool" where
  "call_fits E a b xs S \<longleftrightarrow> wq_mutex (shared S) = None \<and> wq_size (shared S) < WQ_maxsize \<and>
     consumer_wq (shared S) \<and> 24 \<le> room E 8 \<and> ring (nodes (shared S)) (w_qnode (shared S)) xs \<and>
     nodes (shared S) b = None \<and> b \<noteq> w_qnode (shared S) \<and>
     (\<exists>d. jobs (shared S) a = Some d \<and> wd_fname d \<noteq> None)"

text \<open>
  C13. With a free mutex, room in the queue and an allocator that hands out 24 bytes for 8, a call to
  move a file puts its argument at the end of the queue, counts it and returns 0; and it returns
  with the mutex still locked.
\<close>

theorem call_accepted:
  assumes "call_fits E a b xs S" and "prods S p = P_Call (Some a) flag"
    and "ucast flag AND CLONE_PROT_MV = CLONE_PROT_MV"
  shows "\<exists>S'. (async_step E K)\<^sup>*\<^sup>* S S' \<and> prods S' p = P_Done 0 \<and>
    ring (nodes (shared S')) (w_qnode (shared S)) (xs @ [b]) \<and>
    wq_size (shared S') = wq_size (shared S) + 1 \<and> wq_mutex (shared S') = Some (Producer p) \<and>
    (\<exists>d. jobs (shared S') a = Some d \<and> wd_b1 d = ucast flag)"
proof -
  let ?h = "(nodes (shared S))(b \<mapsto> \<lparr>wq_data_node = a, next_p = Poison1, prev_p = Poison2\<rparr>)"
  have h: "ring (nodes (shared S)) (w_qnode (shared S)) xs" "nodes (shared S) b = None"
    using assms(1) by (simp_all add: call_fits_def)
  obtain h' where h': "list_add_tail b (w_qnode (shared S)) ?h = Some h'"
    using ring_add_tail [of ?h "w_qnode (shared S)" xs b] ring_fresh [OF h] by fastforce
  let ?go = "Produce p None False"
  have "\<exists>S'. run E K [?go, ?go, ?go, Produce p (Some b) False, ?go, ?go] S = Some S' \<and> prods S' p = P_Done 0 \<and>
      nodes (shared S') = h' \<and> wq_size (shared S') = wq_size (shared S) + 1 \<and>
      wq_mutex (shared S') = Some (Producer p) \<and> (\<exists>d. jobs (shared S') a = Some d \<and> wd_b1 d = ucast flag)"
    using assms h' by (auto simp: call_fits_def mutex_lock_def)
  then show ?thesis
    using run_steps add_tail_fresh [OF h h'] by metis
qed

subsection \<open>The mutex after it has been left locked\<close>

definition owner_only :: "async_env \<Rightarrow> bool" where
  "owner_only E \<longleftrightarrow> (\<forall>t m. bad_unlock E t m = None)"

fun past_insert :: "producer_pc \<Rightarrow> bool" where
  "past_insert (P_Call arg flag) = True"
| "past_insert (P_Lock w) = True"
| "past_insert P_Count = True"
| "past_insert P_Wake = True"
| "past_insert (P_Done r) = True"
| "past_insert _ = False"

text \<open>The mutex belongs to a producer that is past the code which would release it.\<close>

definition leaked :: "'w system \<Rightarrow> bool" where
  "leaked S \<longleftrightarrow> (\<exists>p. wq_mutex (shared S) = Some (Producer p) \<and> past_insert (prods S p))"

lemma owner_unlock [simp]:
  "owner_only E \<Longrightarrow> mutex_unlock E t s = Go s' \<longleftrightarrow> wq_mutex s = Some t \<and> s' = s\<lparr>wq_mutex := None\<rparr>"
  by (auto simp: mutex_unlock_Go owner_only_def)

lemma take_step_mutex: "take_step s = Go (s', pc) \<Longrightarrow> wq_mutex s' = wq_mutex s \<and> kstate s' = kstate s"
  by (auto simp: take_step_def process_item_def Let_def Option.bind_eq_Some_conv split: if_splits)

lemma consumer_step_locked:
  assumes "owner_only E" and "consumer_step E K i s pc = Go (s', pc')" and "wq_mutex s = Some (Producer p)"
  shows "wq_mutex s' = Some (Producer p) \<and> pc \<noteq> C_Lock"
  using assms take_step_mutex [of s s' pc']
  by (cases pc) (auto simp: work_step_def free_step_def Let_def split: if_splits)

lemma producer_step_locked:
  assumes "owner_only E" and "xclone2async_step E alloc sig q s pc = Go (s', pc')"
    and "wq_mutex s = Some (Producer p)" and "q = p \<Longrightarrow> past_insert pc"
  shows "wq_mutex s' = Some (Producer p) \<and> (\<forall>w. pc \<noteq> P_Lock w) \<and> (q = p \<longrightarrow> past_insert pc')"
  using assms by (cases pc) (auto simp: Let_def split: if_splits option.splits)

lemma leaked_step:
  assumes own: "owner_only E" and step: "async_step E K S S'" and leak: "leaked S"
  shows "leaked S' \<and> (\<forall>q w. prods S q = P_Lock w \<longrightarrow> prods S' q = P_Lock w) \<and>
    (\<forall>i. cons S i = C_Lock \<longrightarrow> cons S' i = C_Lock)"
proof -
  obtain p where p: "wq_mutex (shared S) = Some (Producer p)" "past_insert (prods S p)"
    using leak by (auto simp: leaked_def)
  show ?thesis
    using step
  proof cases
    case (step_loader c)
    with loader_step_nodes [OF step_loader] p show ?thesis by (auto simp: leaked_def)
  next
    case (step_consumer i s pc)
    with consumer_step_locked [OF own step_consumer(3) p(1)] p show ?thesis by (auto simp: leaked_def)
  next
    case (step_producer alloc sig q s pc)
    with producer_step_locked [OF own step_producer(3) p(1)] p show ?thesis by (auto simp: leaked_def)
  next
    case (step_call q r args arg flag)
    with p show ?thesis by (auto simp: leaked_def)
  qed
qed

text \<open>
  C12. Under the rule of the kernel's mutexes that only the owner unlocks (\<open>owner_only\<close>: an unlock by
  another thread is a fault, with no state after it), a call that has been accepted blocks the module
  for ever: in every later state each call and each consumer that waits for the mutex still waits for
  it. Where such an unlock takes effect it need not: the code lets a consumer unlock the mutex of a
  call that has returned, and those that wait go on.
\<close>

theorem accepted_call_deadlocks:
  assumes "owner_only E" and "leaked S" and "(async_step E K)\<^sup>*\<^sup>* S S'"
  shows "leaked S' \<and> (\<forall>q w. prods S q = P_Lock w \<longrightarrow> prods S' q = P_Lock w) \<and>
    (\<forall>i. cons S i = C_Lock \<longrightarrow> cons S' i = C_Lock)"
  using assms(3)
proof (induction rule: rtranclp_induct)
  case base
  then show ?case using assms(2) by simp
next
  case (step T T')
  with leaked_step [OF assms(1) step(2)] show ?case by blast
qed

subsection \<open>One job at most, and no work\<close>

fun early :: "consumer_pc \<Rightarrow> bool" where
  "early (C_Err e) = False"
| "early (C_Work item) = False"
| "early (C_Free item) = False"
| "early (C_Exit r) = False"
| "early _ = True"

fun owning :: "producer_pc \<Rightarrow> bool" where
  "owning (P_Test w) = True"
| "owning (P_Alloc w) = True"
| "owning P_Count = True"
| "owning _ = False"

fun throttled :: "producer_pc \<Rightarrow> bool" where
  "throttled (P_Full w) = True"
| "throttled (P_Throttle w) = True"
| "throttled (P_Inc w) = True"
| "throttled (P_Wait w) = True"
| "throttled (P_Dec w) = True"
| "throttled _ = False"

definition owners_ok :: "'w system \<Rightarrow> bool" where
  "owners_ok S \<longleftrightarrow>
     (\<forall>i. early (cons S i) \<and> (cons S i = C_Test \<longrightarrow> wq_mutex (shared S) = Some (Consumer i))) \<and>
     (\<forall>q. \<not> throttled (prods S q) \<and> (owning (prods S q) \<longrightarrow> wq_mutex (shared S) = Some (Producer q)))"

text \<open>
  The four situations of the queue: nothing in it; a job just linked and not yet counted; a job; the
  head taken out by a consumer.
\<close>

definition no_taker :: "'w system \<Rightarrow> bool" where
  "no_taker S \<longleftrightarrow> (\<forall>i. cons S i \<noteq> C_Take \<and> item_of (cons S i) = None)"

definition phase_empty :: "'w system \<Rightarrow> bool" where
  "phase_empty S \<longleftrightarrow> ring (nodes (shared S)) (w_qnode (shared S)) [] \<and> wq_size (shared S) = 0 \<and>
     no_taker S \<and> (\<forall>q. prods S q \<noteq> P_Count)"

definition phase_linked :: "'w system \<Rightarrow> bool" where
  "phase_linked S \<longleftrightarrow> (\<exists>b. ring (nodes (shared S)) (w_qnode (shared S)) [b]) \<and> wq_size (shared S) = 0 \<and>
     no_taker S \<and> (\<exists>p. wq_mutex (shared S) = Some (Producer p) \<and> prods S p = P_Count)"

definition phase_queued :: "'w system \<Rightarrow> bool" where
  "phase_queued S \<longleftrightarrow> (\<exists>b. ring (nodes (shared S)) (w_qnode (shared S)) [b]) \<and> wq_size (shared S) = 1 \<and>
     (\<forall>i. item_of (cons S i) = None) \<and> leaked S \<and> (\<forall>q. prods S q \<noteq> P_Count)"

definition phase_broken :: "'w system \<Rightarrow> bool" where
  "phase_broken S \<longleftrightarrow> cut_off (nodes (shared S)) (w_qnode (shared S)) \<and> wq_size (shared S) = 0 \<and>
     leaked S \<and> (\<forall>q. prods S q \<noteq> P_Count)"

definition strict_ok :: "'w system \<Rightarrow> bool" where
  "strict_ok S \<longleftrightarrow> owners_ok S \<and> (phase_empty S \<or> phase_linked S \<or> phase_queued S \<or> phase_broken S)"

lemmas phase_defs = phase_empty_def phase_linked_def phase_queued_def phase_broken_def

lemma strict_size: "strict_ok S \<Longrightarrow> 0 \<le> wq_size (shared S) \<and> wq_size (shared S) \<le> 1"
  by (auto simp: strict_ok_def phase_defs)

lemma strict_empty:
  "strict_ok S \<Longrightarrow> \<forall>p. wq_mutex (shared S) \<noteq> Some (Producer p) \<Longrightarrow> phase_empty S"
  by (auto simp: strict_ok_def phase_defs leaked_def)

lemma strict_size_pos: "strict_ok S \<Longrightarrow> wq_size (shared S) \<noteq> 0 \<Longrightarrow> phase_queued S"
  by (auto simp: strict_ok_def phase_defs)

text \<open>A step that only takes or releases the mutex keeps the queue empty.\<close>

lemma consumer_step_unlocked:
  assumes ok: "strict_ok S" and m: "wq_mutex (shared S) = m" "m \<in> {None, Some (Consumer i)}"
    and m': "m' \<in> {None, Some (Consumer i)}"
    and pc: "early pc" "pc \<noteq> C_Take" "item_of pc = None" "pc = C_Test \<Longrightarrow> m' = Some (Consumer i)"
  shows "strict_ok (S\<lparr>shared := (shared S)\<lparr>wq_mutex := m'\<rparr>, cons := (cons S)(i := pc)\<rparr>)"
proof -
  have e: "phase_empty S" using strict_empty [OF ok] m by auto
  have "owners_ok S" using ok by (simp add: strict_ok_def)
  then have "owners_ok (S\<lparr>shared := (shared S)\<lparr>wq_mutex := m'\<rparr>, cons := (cons S)(i := pc)\<rparr>)"
    using m pc(1,4) unfolding owners_ok_def by auto
  moreover have "phase_empty (S\<lparr>shared := (shared S)\<lparr>wq_mutex := m'\<rparr>, cons := (cons S)(i := pc)\<rparr>)"
    using e pc(2,3) by (simp add: phase_empty_def no_taker_def)
  ultimately show ?thesis by (simp add: strict_ok_def)
qed

text \<open>A consumer step, when only owners unlock.\<close>

lemma consumer_step_strict:
  assumes own: "owner_only E" and ok: "strict_ok S"
    and step: "consumer_step E K i (shared S) (cons S i) = Go (s, pc)"
  shows "strict_ok (S\<lparr>shared := s, cons := (cons S)(i := pc)\<rparr>) \<and> kstate s = kstate (shared S)"
proof -
  have o: "early (cons S i)" "cons S i = C_Test \<Longrightarrow> wq_mutex (shared S) = Some (Consumer i)"
    using ok by (simp_all add: strict_ok_def owners_ok_def)
  show ?thesis
  proof (cases "cons S i = C_Take")
    case True
    with step have take: "take_step (shared S) = Go (s, pc)" by simp
    have q: "phase_queued S"
      using ok True take process_item_cut [of "shared S"]
      by (auto simp: strict_ok_def phase_empty_def phase_linked_def phase_broken_def no_taker_def take_step_def)
    then obtain b where "ring (nodes (shared S)) (w_qnode (shared S)) [b]" by (auto simp: phase_queued_def)
    from take_step_Go [OF take this] take_step_mutex [OF take]
    have t: "pc = C_Unlock (Ptr (w_qnode (shared S)))" "cut_off (nodes s) (w_qnode s)"
      "wq_size s = wq_size (shared S) - 1" "wq_mutex s = wq_mutex (shared S)" "kstate s = kstate (shared S)"
      by simp_all
    then have "phase_broken (S\<lparr>shared := s, cons := (cons S)(i := pc)\<rparr>)"
      using q by (simp add: phase_queued_def phase_broken_def leaked_def)
    with t ok show ?thesis by (simp add: strict_ok_def owners_ok_def)
  next
    case False
    then show ?thesis
    proof (cases "cons S i")
      case C_Lock
      with step consumer_step_unlocked [OF ok, of None i "Some (Consumer i)" C_Test] show ?thesis by auto
    next
      case C_Test
      with o own step have "wq_size (shared S) = 0 \<or> phase_queued S \<and> wq_mutex (shared S) = Some (Consumer i)"
        using strict_size_pos [OF ok] by auto
      then have "wq_size (shared S) = 0" by (auto simp: phase_queued_def leaked_def)
      with C_Test o own step consumer_step_unlocked [OF ok, of "Some (Consumer i)" i None C_Wait]
      show ?thesis by auto
    next
      case C_Wait
      with step have s: "s = shared S" "pc = C_Take" "wq_size (shared S) > 0" by (auto split: if_splits)
      then have "phase_queued S" using strict_size_pos [OF ok] by simp
      then have "phase_queued (S\<lparr>cons := (cons S)(i := C_Take)\<rparr>)"
        by (simp add: phase_queued_def leaked_def)
      with s ok show ?thesis by (simp add: strict_ok_def owners_ok_def)
    next
      case (C_Unlock item)
      with step own have "wq_mutex (shared S) = Some (Consumer i)" by simp
      then have "phase_empty S" using strict_empty [OF ok] by simp
      then have "item_of (cons S i) = None" by (simp add: phase_empty_def no_taker_def)
      with C_Unlock show ?thesis by simp
    qed (use step o in auto)
  qed
qed

text \<open>A producer step.\<close>

lemma insert_step_strict:
  assumes own: "owner_only E" and ok: "strict_ok S"
    and fresh: "alloc = None \<or> (\<exists>a. alloc = Some a \<and> nodes (shared S) a = None \<and> a \<noteq> w_qnode (shared S))"
    and step: "xclone2async_step E alloc sig p (shared S) (prods S p) = Go (s, pc)"
    and big: "owning (prods S p)"
  shows "strict_ok (S\<lparr>shared := s, prods := (prods S)(p := pc)\<rparr>) \<and> kstate s = kstate (shared S)"
proof -
  have m: "wq_mutex (shared S) = Some (Producer p)" and ow: "owners_ok S"
    using ok big by (simp_all add: strict_ok_def owners_ok_def)
  have others: "prods S q \<noteq> P_Count" if "q \<noteq> p" for q
    using ow m that unfolding owners_ok_def by (metis owning.simps(3) option.inject tid.inject(2))
  show ?thesis
  proof (cases "prods S p = P_Count")
    case True
    with step have s: "s = (shared S)\<lparr>wq_size := wq_size (shared S) + 1\<rparr>" "pc = P_Wake" by simp_all
    have "phase_linked S" using ok True by (auto simp: strict_ok_def phase_defs)
    then have "phase_queued (S\<lparr>shared := s, prods := (prods S)(p := pc)\<rparr>)"
      using m s others by (auto simp: phase_queued_def phase_linked_def no_taker_def leaked_def)
    with ow s show ?thesis by (simp add: strict_ok_def owners_ok_def)
  next
    case False
    then have "\<not> past_insert (prods S p)" using big by (cases "prods S p") simp_all
    then have e: "phase_empty S"
      using ok False m by (auto simp: strict_ok_def phase_defs leaked_def)
    have r: "ring (nodes (shared S)) (w_qnode (shared S)) []" "wq_size (shared S) = 0"
      using e by (simp_all add: phase_empty_def)
    have "s = shared S \<and> ((\<exists>w. pc = P_Alloc w) \<or> pc = P_Done (- 1)) \<or>
      pc = P_Count \<and> s = (shared S)\<lparr>nodes := nodes s\<rparr> \<and> (\<exists>b. ring (nodes s) (w_qnode (shared S)) [b])"
    proof (cases "prods S p")
      case (P_Alloc w)
      show ?thesis
      proof (cases alloc)
        case None
        with P_Alloc step show ?thesis by simp
      next
        case (Some a)
        then obtain h where h: "list_add_tail a (w_qnode (shared S)) ((nodes (shared S))(a \<mapsto>
            \<lparr>wq_data_node = w, next_p = Poison1, prev_p = Poison2\<rparr>)) = Some h"
          and s: "s = (shared S)\<lparr>nodes := h\<rparr>" "pc = P_Count"
          using P_Alloc step by (auto simp: Let_def split: if_splits)
        have "nodes (shared S) a = None" using Some fresh by simp
        from add_tail_fresh [OF r(1) this h] s show ?thesis by auto
      qed
    qed (use big False step r in \<open>auto simp: WQ_maxsize_def\<close>)
    then show ?thesis
    proof
      assume "s = shared S \<and> ((\<exists>w. pc = P_Alloc w) \<or> pc = P_Done (- 1))"
      then show ?thesis
        using e ow m unfolding strict_ok_def owners_ok_def phase_empty_def no_taker_def by auto
    next
      assume "pc = P_Count \<and> s = (shared S)\<lparr>nodes := nodes s\<rparr> \<and> (\<exists>b. ring (nodes s) (w_qnode (shared S)) [b])"
      then obtain h b where s: "pc = P_Count" "s = (shared S)\<lparr>nodes := h\<rparr>" "ring h (w_qnode (shared S)) [b]" by metis
      have "phase_linked (S\<lparr>shared := s, prods := (prods S)(p := pc)\<rparr>)"
        using s e m by (auto simp: phase_empty_def phase_linked_def no_taker_def)
      then show ?thesis using s ow m by (simp add: strict_ok_def owners_ok_def)
    qed
  qed
qed

text \<open>Outside the insertion a producer changes nothing that the invariant speaks of.\<close>

lemma strict_keep:
  assumes ok: "strict_ok S"
    and old: "past_insert (prods S p)" "prods S p \<noteq> P_Count"
    and new: "past_insert pc" "\<not> owning pc" "\<not> throttled pc" "pc \<noteq> P_Count"
    and s: "nodes s = nodes (shared S)" "wq_size s = wq_size (shared S)"
      "wq_mutex s = wq_mutex (shared S)" "w_qnode s = w_qnode (shared S)"
  shows "strict_ok (S\<lparr>shared := s, prods := (prods S)(p := pc)\<rparr>)"
proof -
  have l: "leaked S \<Longrightarrow> leaked (S\<lparr>shared := s, prods := (prods S)(p := pc)\<rparr>)"
    using new(1) s(3) by (auto simp: leaked_def)
  have "owners_ok (S\<lparr>shared := s, prods := (prods S)(p := pc)\<rparr>)"
    using ok new s by (simp add: strict_ok_def owners_ok_def)
  moreover have "phase_empty S \<Longrightarrow> phase_empty (S\<lparr>shared := s, prods := (prods S)(p := pc)\<rparr>)"
    "phase_queued S \<Longrightarrow> phase_queued (S\<lparr>shared := s, prods := (prods S)(p := pc)\<rparr>)"
    "phase_broken S \<Longrightarrow> phase_broken (S\<lparr>shared := s, prods := (prods S)(p := pc)\<rparr>)"
    using new(4) s l by (simp_all add: phase_defs no_taker_def)
  moreover have "phase_linked (S\<lparr>shared := s, prods := (prods S)(p := pc)\<rparr>)" if linked: "phase_linked S"
  proof -
    obtain q where "wq_mutex (shared S) = Some (Producer q)" "prods S q = P_Count" "q \<noteq> p"
      using linked old(2) by (auto simp: phase_linked_def)
    then have "\<exists>q. wq_mutex s = Some (Producer q) \<and> ((prods S)(p := pc)) q = P_Count"
      using s(3) by (intro exI [of _ q]) simp
    then show ?thesis using linked s by (simp add: phase_linked_def no_taker_def)
  qed
  ultimately show ?thesis using ok by (auto simp: strict_ok_def)
qed

lemma call_step_strict:
  assumes ok: "strict_ok S" and own: "owner_only E"
    and step: "xclone2async_step E alloc sig p (shared S) (prods S p) = Go (s, pc)"
    and small: "\<not> owning (prods S p)"
  shows "strict_ok (S\<lparr>shared := s, prods := (prods S)(p := pc)\<rparr>) \<and> kstate s = kstate (shared S)"
proof (cases "\<exists>w. prods S p = P_Lock w")
  case True
  with step have m: "wq_mutex (shared S) = None"
    and s: "s = (shared S)\<lparr>wq_mutex := Some (Producer p)\<rparr>" "\<exists>w. pc = P_Test w" by auto
  have e: "phase_empty S" using strict_empty [OF ok] m by simp
  have o: "owners_ok S" using ok by (simp add: strict_ok_def)
  show ?thesis
    using e o m s unfolding strict_ok_def owners_ok_def phase_empty_def no_taker_def by auto
next
  case False
  have "\<not> throttled (prods S p)" using ok by (simp add: strict_ok_def owners_ok_def)
  with False step small have s: "past_insert (prods S p)" "prods S p \<noteq> P_Count" "past_insert pc"
    "\<not> owning pc" "\<not> throttled pc" "pc \<noteq> P_Count" "nodes s = nodes (shared S)"
    "wq_size s = wq_size (shared S)" "wq_mutex s = wq_mutex (shared S)" "w_qnode s = w_qnode (shared S)"
    "kstate s = kstate (shared S)"
    by (cases "prods S p"; auto simp: Let_def split: option.splits if_splits)+
  then show ?thesis using strict_keep [OF ok] by simp
qed

text \<open>All steps together, from the loading of the module on.\<close>

lemma strict_step:
  assumes own: "owner_only E" and step: "async_step E K S S'" and ok: "strict_ok S"
  shows "strict_ok S' \<and> kstate (shared S') = kstate (shared S)"
  using step
proof cases
  case (step_loader c)
  have cs: "cons S' j = cons S j \<or> cons S' j = C_Lock" for j
    using loader_step_nodes [OF step_loader] by auto
  have k: "kstate (shared S') = kstate (shared S)"
    using step_loader by (cases "loader S") (auto split: if_splits)
  have item: "item_of (cons S' j) = None" if "item_of (cons S j) = None" for j
    using cs [of j] that by auto
  have take: "cons S' j \<noteq> C_Take" if "cons S j \<noteq> C_Take" for j
    using cs [of j] that by auto
  have "early (cons S j) \<and> (cons S j = C_Test \<longrightarrow> wq_mutex (shared S) = Some (Consumer j))" for j
    using ok by (simp add: strict_ok_def owners_ok_def)
  then have "early (cons S' j) \<and> (cons S' j = C_Test \<longrightarrow> wq_mutex (shared S) = Some (Consumer j))" for j
    using cs [of j] by auto
  then have "owners_ok S'"
    using ok loader_step_nodes [OF step_loader] by (simp add: strict_ok_def owners_ok_def)
  moreover have "phase_empty S \<Longrightarrow> phase_empty S'" "phase_linked S \<Longrightarrow> phase_linked S'"
    "phase_queued S \<Longrightarrow> phase_queued S'" "phase_broken S \<Longrightarrow> phase_broken S'"
    using loader_step_nodes [OF step_loader] item take by (simp_all add: phase_defs no_taker_def leaked_def)
  ultimately show ?thesis using ok k by (auto simp: strict_ok_def)
next
  case (step_consumer i s pc)
  with consumer_step_strict [OF own ok step_consumer(3)] show ?thesis by simp
next
  case (step_producer alloc sig p s pc)
  with insert_step_strict [OF own ok step_producer(2,3)] call_step_strict [OF ok own step_producer(3)]
  show ?thesis by (cases "owning (prods S p)") simp_all
next
  case (step_call p r args arg flag)
  with strict_keep [OF ok, of p "P_Call x y" for x y] show ?thesis by simp
qed

lemma strict_reach: "async_reach E K S \<Longrightarrow> owner_only E \<Longrightarrow> strict_ok S"
proof (induction rule: async_reach.induct)
  case (reach_load queue qnode garbage s s' ptr)
  from initialise_wq_result [OF reach_load(1)] show ?case
    by (auto simp: strict_ok_def owners_ok_def phase_empty_def no_taker_def)
next
  case (reach_step S S')
  then show ?case using strict_step by blast
qed

lemma strict_steps_kstate:
  assumes "owner_only E" and "async_reach E K S" and "(async_step E K)\<^sup>*\<^sup>* S S'"
  shows "kstate (shared S') = kstate (shared S)"
  using assms(3)
proof (induction rule: rtranclp_induct)
  case (step T T')
  have "strict_ok T" by (rule strict_reach [OF async_reach_steps [OF step(1) assms(2)] assms(1)])
  with strict_step [OF assms(1) step(2)] step(3) show ?case by simp
qed simp

text \<open>
  C9. When only the owner of a mutex may release it, no asynchronous call is ever carried out: in every
  run the file system is the one the run started with.
\<close>

theorem async_moves_nothing:
  assumes "owner_only E" and "async_reach E K S" and "(async_step E K)\<^sup>*\<^sup>* S S'"
  shows "kstate (shared S') = kstate (shared S)"
  by (rule strict_steps_kstate [OF assms])

text \<open>
  C11. When only the owner of a mutex may release it, every reachable state has at most one job in the
  queue, a size of 0 or 1, no consumer past the release of the mutex and no call that waits for room.
\<close>

theorem queue_holds_one_job:
  assumes "owner_only E" and "async_reach E K S"
  shows "0 \<le> wq_size (shared S) \<and> wq_size (shared S) \<le> 1 \<and> (\<forall>i. early (cons S i)) \<and>
    (\<forall>q. \<not> throttled (prods S q)) \<and>
    (cut_off (nodes (shared S)) (w_qnode (shared S)) \<or>
     (\<exists>xs. length xs \<le> 1 \<and> ring (nodes (shared S)) (w_qnode (shared S)) xs))"
  using strict_size [OF strict_reach [OF assms(2,1)]] strict_reach [OF assms(2,1)]
  by (auto simp: strict_ok_def owners_ok_def phase_defs intro: exI [of _ "[]"] exI [of _ "[b]" for b])

text \<open>
  C40. The module starts its consumers before it initialises the queue they wait on, so there is a run in
  which a consumer waits on an uninitialised wait queue while the module is still being loaded.
\<close>

theorem load_race:
  fixes K :: "'w kernel" and s :: "'w async_state"
  assumes "initialise_wq queue qnode garbage s = Some (0, s')" and "\<not> consumer_wq s"
  shows "\<exists>S. async_reach E K S \<and> loader S = L_Heads1 \<and> consumer_step E K 0 (shared S) (cons S 0) = Fault"
proof -
  let ?S = "\<lparr>shared = s', cons = (\<lambda>i. C_Off), prods = (\<lambda>p. P_Done 0), loader = L_Start, sysptr = None\<rparr>"
  have s': "wq_mutex s' = None" "wq_size s' = 0" "\<not> consumer_wq s'"
    using initialise_wq_result [OF assms(1)] assms
    by (auto simp: initialise_wq_def ENOMEM_def Let_def Option.bind_eq_Some_conv split: if_splits option.splits)
  then have "\<exists>S. run E K [Load True, Consume 0, Consume 0] ?S = Some S \<and> loader S = L_Heads1 \<and>
      consumer_step E K 0 (shared S) (cons S 0) = Fault"
    by (simp add: max_consumers_def mutex_lock_def mutex_unlock_def)
  then show ?thesis
    using run_steps async_reach_steps reach_load [OF assms(1)] by metis
qed

end
