(* ===== verification/Queue_Spec.thy ===== *)
theory Queue_Spec
  imports Work_Queue_Props
begin

text \<open>
  The work queue against an abstract specification. Read through its links, the queue is a list of jobs
  or broken. The specification the code implements is a log: a job can be appended, nothing is
  ever served, and the log can be lost as a whole.
\<close>

subsection \<open>A ring determines its nodes\<close>

lemma seg_unique:
  "seg h p xs q \<Longrightarrow> seg h p' ys q \<Longrightarrow> q \<notin> set xs \<Longrightarrow> q \<notin> set ys \<Longrightarrow>
   hd (xs @ [q]) = hd (ys @ [q]) \<Longrightarrow> xs = ys"
proof (induction xs arbitrary: p p' ys)
  case Nil
  then show ?case by (cases ys) auto
next
  case (Cons a r)
  then obtain r' where ys: "ys = a # r'" by (cases ys) auto
  then have "hd (r @ [q]) = hd (r' @ [q])" using Cons.prems(1,2) by auto
  then show ?case using Cons.IH [of a a r'] Cons.prems ys by auto
qed

lemma ring_unique: "ring h w xs \<Longrightarrow> ring h w ys \<Longrightarrow> xs = ys"
  by (auto simp: ring_def intro: seg_unique)

subsection \<open>The specification\<close>

datatype job_log = Intact "nat list" | Broken

inductive log_step :: "job_log \<Rightarrow> job_log \<Rightarrow> bool" where
  log_same: "log_step A A"
| log_submit: "log_step (Intact js) (Intact (js @ [j]))"
| log_break: "log_step (Intact js) Broken"

inductive_simps log_step_Broken: "log_step Broken A"
inductive_cases log_step_IntactE: "log_step (Intact js) A"

text \<open>
  What a run of the specification can do is to go up in an order: append at the end, or lose
  everything.
\<close>

instantiation job_log :: order
begin

definition less_eq_job_log :: "job_log \<Rightarrow> job_log \<Rightarrow> bool" where
  "less_eq_job_log A B \<longleftrightarrow> B = Broken \<or> (\<exists>js ks. A = Intact js \<and> B = Intact (js @ ks))"

definition less_job_log :: "job_log \<Rightarrow> job_log \<Rightarrow> bool" where
  "less_job_log A B \<longleftrightarrow> A \<le> B \<and> \<not> B \<le> (A :: job_log)"

instance
proof
  fix A B C :: job_log
  show "A < B \<longleftrightarrow> A \<le> B \<and> \<not> B \<le> A" by (rule less_job_log_def)
  show "A \<le> A" by (cases A) (simp_all add: less_eq_job_log_def)
  show "A \<le> B \<Longrightarrow> B \<le> C \<Longrightarrow> A \<le> C" by (auto simp: less_eq_job_log_def)
  show "A \<le> B \<Longrightarrow> B \<le> A \<Longrightarrow> A = B" by (auto simp: less_eq_job_log_def)
qed

end

lemma log_step_up: "log_step A B \<Longrightarrow> A \<le> B"
  by (cases A) (auto simp: log_step_Broken less_eq_job_log_def elim!: log_step_IntactE)

lemma log_steps_iff: "log_step\<^sup>*\<^sup>* A B \<longleftrightarrow> A \<le> B"
proof
  show "log_step\<^sup>*\<^sup>* A B \<Longrightarrow> A \<le> B"
    by (induction rule: rtranclp_induct) (auto dest: log_step_up)
  have "log_step\<^sup>*\<^sup>* (Intact js) (Intact (js @ ks))" for js ks
    by (induction ks rule: rev_induct) (auto intro: log_submit rtranclp.rtrancl_into_rtrancl simp flip: append_assoc)
  then show "A \<le> B \<Longrightarrow> log_step\<^sup>*\<^sup>* A B"
    using log_break by (cases A) (auto simp: less_eq_job_log_def)
qed

subsection \<open>The abstraction\<close>

definition job_ids :: "node_store \<Rightarrow> nat list \<Rightarrow> nat list" where
  "job_ids h xs = map (\<lambda>a. case h a of None \<Rightarrow> 0 | Some nd \<Rightarrow> wq_data_node nd) xs"

fun queue_view :: "'w system \<Rightarrow> job_log \<Rightarrow> bool" where
  "queue_view S (Intact js) =
     (\<exists>xs. ring (nodes (shared S)) (w_qnode (shared S)) xs \<and> js = job_ids (nodes (shared S)) xs)"
| "queue_view S Broken = cut_off (nodes (shared S)) (w_qnode (shared S))"

lemma queue_view_unique: "queue_view S A \<Longrightarrow> queue_view S B \<Longrightarrow> A = B"
  by (cases A; cases B) (auto dest: ring_unique ring_not_cut)

lemma queue_view_same:
  "nodes (shared S') = nodes (shared S) \<Longrightarrow> w_qnode (shared S') = w_qnode (shared S) \<Longrightarrow>
   queue_view S' A = queue_view S A"
  by (cases A) simp_all

lemma job_ids_add:
  assumes r: "ring h head xs" and f: "h a = None" and d: "wq_data_node nd = j"
    and add: "list_add_tail a head (h(a \<mapsto> nd)) = Some h'"
  shows "job_ids h' (xs @ [a]) = job_ids h xs @ [j]"
proof -
  have e: "map_option wq_data_node (h' b) = map_option wq_data_node ((h(a \<mapsto> nd)) b)" for b
    using ring_add_tail [of "h(a \<mapsto> nd)" head xs a nd] ring_fresh [OF r f] add by auto
  have v: "(case m of None \<Rightarrow> 0 | Some nd \<Rightarrow> wq_data_node nd) = (case map_option wq_data_node m of None \<Rightarrow> 0 | Some j \<Rightarrow> j)"
    for m by (cases m) simp_all
  have "a \<notin> set xs" using ring_fresh [OF r f] by simp
  then show ?thesis using d by (auto simp: job_ids_def v e)
qed

text \<open>One step of the system is one step of the specification.\<close>

lemma step_refines:
  assumes ok: "queue_ok S" and step: "async_step E K S S'" and view: "queue_view S A"
  shows "\<exists>A'. queue_view S' A' \<and> log_step A A'"
proof -
  have same: ?thesis
    if "nodes (shared S') = nodes (shared S)" "w_qnode (shared S') = w_qnode (shared S)"
    using queue_view_same [OF that] view log_same by blast
  show ?thesis
  proof (cases A)
    case Broken
    then have "queue_view S' Broken" using cut_off_step [OF ok step] view by simp
    then show ?thesis using Broken log_same by blast
  next
    case (Intact js)
    then obtain xs where r: "ring (nodes (shared S)) (w_qnode (shared S)) xs"
      and js: "js = job_ids (nodes (shared S)) xs" using view by auto
    show ?thesis
      using step
    proof cases
      case (step_loader c)
      with loader_step_nodes [OF step_loader] same show ?thesis by simp
    next
      case (step_consumer i s pc)
      show ?thesis
      proof (cases "cons S i = C_Take")
        case True
        with step_consumer take_step_Go [of "shared S" s pc xs] r have "queue_view S' Broken" by simp
        then show ?thesis unfolding Intact using log_break by blast
      next
        case False
        have "item_of (cons S i) = None"
          using ok queue_inv_ring [of _ _ "cons S"] ring_not_cut [OF r] by (auto simp: queue_ok_def)
        with consumer_step_nodes [OF step_consumer(3) False] step_consumer(1) same show ?thesis by auto
      qed
    next
      case (step_producer alloc sig p s pc)
      note n = producer_step_nodes [OF step_producer(3)]
      show ?thesis
      proof (cases "nodes s = nodes (shared S)")
        case True
        with n step_producer(1) same show ?thesis by simp
      next
        case False
        with n obtain a w where a: "alloc = Some a" "w_qnode s = w_qnode (shared S)"
          "list_add_tail a (w_qnode (shared S)) ((nodes (shared S))(a \<mapsto>
             \<lparr>wq_data_node = w, next_p = Poison1, prev_p = Poison2\<rparr>)) = Some (nodes s)" by blast
        then have f: "nodes (shared S) a = None" using step_producer(2) by simp
        have "queue_view S' (Intact (js @ [w]))"
          using add_tail_fresh [OF r f a(3)] job_ids_add [OF r f _ a(3), of w] step_producer(1) a(2) js by auto
        then show ?thesis unfolding Intact using log_submit by blast
      qed
    next
      case (step_call q r args arg flag)
      then show ?thesis using same by simp
    qed
  qed
qed

lemma queue_ok_view: "queue_ok S \<Longrightarrow> \<exists>A. queue_view S A"
  using queue_inv_ring [of "nodes (shared S)" "w_qnode (shared S)" "cons S"] queue_view.simps
  unfolding queue_ok_def by blast

subsection \<open>Property\<close>

text \<open>
  C6. The work queue refines the log, in every run, in every environment: each reachable state has
  exactly one abstract value, a list of jobs or broken, and a run from one state to another is a run of the
  specification. So a list of jobs only grows at its end until it is lost as a whole: no run serves a job.
\<close>

theorem queue_refines_log:
  assumes "async_reach E K S" and "(async_step E K)\<^sup>*\<^sup>* S S'"
  shows "\<exists>A A'. (\<forall>B. queue_view S B \<longleftrightarrow> B = A) \<and> (\<forall>B. queue_view S' B \<longleftrightarrow> B = A') \<and> log_step\<^sup>*\<^sup>* A A' \<and>
    (A' = Broken \<or> (\<exists>js ks. A = Intact js \<and> A' = Intact (js @ ks)))"
proof -
  have ok: "queue_ok S" by (rule async_reach_ok [OF assms(1)])
  obtain A where A: "queue_view S A" using queue_ok_view [OF ok] by blast
  obtain A' where A': "queue_view S' A'" "log_step\<^sup>*\<^sup>* A A'"
    using assms(2) A
  proof (induction arbitrary: thesis rule: rtranclp_induct)
    case base
    then show ?case by blast
  next
    case (step T T')
    then obtain B where "queue_view T B" "log_step\<^sup>*\<^sup>* A B" by blast
    moreover have "queue_ok T" using steps_keep [OF step(1) ok] by simp
    ultimately show ?case
      using step_refines [OF _ step(2)] step.prems(1) rtranclp.rtrancl_into_rtrancl by metis
  qed
  have "A' = Broken \<or> (\<exists>js ks. A = Intact js \<and> A' = Intact (js @ ks))"
    using A'(2) by (simp add: log_steps_iff less_eq_job_log_def)
  then show ?thesis
    using A A' queue_view_unique by metis
qed

end
