(* ===== verification/Async_Module.thy ===== *)
theory Async_Module
  imports Queue_Deadlock Queue_Spec
begin

text \<open>
  Loading and unloading the asynchronous module, one call after the other, and the properties that
  concern it together with the synchronous module.
\<close>

subsection \<open>Code\<close>

definition create_trashbin_async :: "'w kernel \<Rightarrow> 'w kst \<Rightarrow> (int \<times> 'w kst) option" where
  "create_trashbin_async K s = do {
     (trashbin_folder_path, s) \<leftarrow> kmalloc K (length ''/usr'' + 9) s;
     if trashbin_folder_path = None then Some (0, s)
     else do {
       m \<leftarrow> buf_bytes trashbin_folder_path s;
       m \<leftarrow> c_memset m NUL (length ''/usr'' + 9);
       m \<leftarrow> c_memcpy m ''/usr'';
       m \<leftarrow> c_strcat m ''/trashbin'';
       let ((tbdentry, dir), w) = kern_path_create_k K (c_str m) (world s);
       let s = s\<lparr>world := w\<rparr>;
       if bad_ptr tbdentry then Some (- ptr_err tbdentry, s)
       else do {
         d \<leftarrow> deref tbdentry;
         let s = s\<lparr>world := done_path_create_k K (world s)\<rparr>;
         (_, s) \<leftarrow> lock_dir dir s;
         let (err, w) = vfs_mkdir_k K dir d (world s);
         let s = s\<lparr>world := w\<rparr>;
         (_, s) \<leftarrow> unlock_dir dir s;
         if err < 0 then do {
           (_, s) \<leftarrow> kfree trashbin_folder_path s;
           Some (err, s)
         }
         else Some (err, s)
       }
     }
   }"

lemma create_trashbin_async_same: "create_trashbin_async K s = create_trashbin K s"
  unfolding create_trashbin_async_def create_trashbin_def trashbin_path_def make_trashbin_def Option.bind_assoc
  by (rule refl)

definition init_sys_xclone2async ::
  "'w kernel \<Rightarrow> bool \<Rightarrow> nat option \<Rightarrow> nat \<Rightarrow> syscall_code option \<Rightarrow> 'w async_state \<Rightarrow>
   ((int \<times> syscall_code option) \<times> 'w async_state) option" where
  "init_sys_xclone2async K queue qnode garbage ptr s = do {
     (err, ks) \<leftarrow> create_trashbin_async K (kstate s);
     let s = s\<lparr>kstate := ks\<rparr>;
     (err, s) \<leftarrow> initialise_wq queue qnode garbage s;
     if err \<noteq> 0 then Some ((0, ptr), s)
     else do {
       let s = s\<lparr>consumer_wq := True\<rparr>;
       let s = s\<lparr>producer_wq := True\<rparr>;
       let s = s\<lparr>t_producers := 0\<rparr>;
       let ptr = (if ptr = None then Some Async_xclone2async else ptr);
       Some ((0, ptr), s)
     }
   }"

interpretation async: syscall_module "init_sys_xclone2async K queue qnode garbage" exit_sys_xclone2async
  Async_xclone2async
  by unfold_locales
    (auto simp: init_sys_xclone2async_def exit_sys_xclone2async_def Option.bind_eq_Some_conv Let_def
      split: if_splits)

subsection \<open>Properties\<close>

text \<open>
  Loading the asynchronous module while the synchronous one has the system call reports success
  and changes nothing; unloading it then takes the system call away from the synchronous one.
\<close>

theorem unload_takes_foreign_call:
  fixes K :: "'w kernel" and s2 :: "'w async_state"
  assumes "init_sys_xclone2async K queue qnode garbage (Some Sync_xclone2) s = Some ((r, ptr), s1)"
    and "exit_sys_xclone2async ptr s2 = Some (ptr', s3)"
  shows "r = 0 \<and> ptr = Some Sync_xclone2 \<and> ptr' = None"
  by (rule async.conflict [OF assms])

text \<open>
  Unloading the asynchronous module frees the head of the queue and none of the jobs in it: the
  nodes stay allocated, and a consumer thread, which is not stopped, faults when it looks for a job.
\<close>

theorem unload_leaks_jobs:
  assumes "ring (nodes s) (w_qnode s) xs"
  shows "\<exists>h. exit_sys_xclone2async ptr s = Some (None, s\<lparr>nodes := h\<rparr>) \<and> h (w_qnode s) = None \<and>
    (\<forall>a\<in>set xs. map_option wq_data_node (h a) = map_option wq_data_node (nodes s a) \<and> h a \<noteq> None) \<and>
    consumer_step E K i (s\<lparr>nodes := h\<rparr>) C_Take = Fault"
proof -
  obtain h where h: "list_del (w_qnode s) (nodes s) = Some h" "dom h = dom (nodes s)"
    "\<forall>b. map_option wq_data_node (h b) = map_option wq_data_node (nodes s b)"
    using ring_del_head [OF assms] by blast
  obtain nd where "nodes s (w_qnode s) = Some nd" using assms by (auto simp: ring_def)
  then have "h (w_qnode s) \<noteq> None" using h(2) by blast
  then have "exit_sys_xclone2async ptr s = Some (None, s\<lparr>nodes := h(w_qnode s := None)\<rparr>)"
    using h(1) ring_walk [OF assms] by (auto simp: exit_sys_xclone2async_def Let_def)
  moreover have "h a \<noteq> None" "a \<noteq> w_qnode s" if "a \<in> set xs" for a
    using seg_Some [of "nodes s" "w_qnode s" xs "w_qnode s" a] assms h(2) that
    by (auto simp: ring_def dom_def simp del: seg.simps)
  moreover have "process_item (s\<lparr>nodes := h(w_qnode s := None)\<rparr>) = None"
    by (rule process_item_cut) (simp add: cut_off_def)
  ultimately show ?thesis
    using h(3) by (intro exI [of _ "h(w_qnode s := None)"]) (auto simp: take_step_def)
qed

text \<open>
  What a consumer takes out of the queue is always the head of the list, for every number of
  waiting jobs, and that breaks the list; if the uninitialised data pointer of the head points
  nowhere, it faults instead.
\<close>

theorem process_item_takes_head:
  assumes "ring (nodes s) (w_qnode s) xs"
  shows "\<exists>nd. nodes s (w_qnode s) = Some nd \<and>
    (if jobs s (wq_data_node nd) = None then process_item s = None
     else \<exists>t. process_item s = Some (Ptr (w_qnode s), t) \<and> process_item t = None \<and>
       wq_size t = wq_size s)"
proof -
  obtain nd where nd: "nodes s (w_qnode s) = Some nd"
    "case jobs s (wq_data_node nd) of
       None \<Rightarrow> process_item s = None
     | Some d \<Rightarrow> \<exists>h. process_item s = Some (Ptr (w_qnode s), s\<lparr>nodes := h\<rparr>) \<and> cut_off h (w_qnode s) \<and>
         (\<forall>b. map_option wq_data_node (h b) = map_option wq_data_node (nodes s b))"
    using process_item_ring [OF assms] by blast
  show ?thesis
  proof (cases "jobs s (wq_data_node nd)")
    case (Some d)
    with nd obtain h where h: "process_item s = Some (Ptr (w_qnode s), s\<lparr>nodes := h\<rparr>)" "cut_off h (w_qnode s)"
      by auto
    then have "process_item (s\<lparr>nodes := h\<rparr>) = None" by (simp add: process_item_cut)
    with nd(1) h(1) Some show ?thesis by auto
  qed (use nd in auto)
qed

subsection \<open>Witnesses\<close>

text \<open>
  A module that has been loaded with the head of the queue at address 1 and a data pointer that
  happens to be 9, where the caller's argument lies; one consumer waits. A call to move \<open>/a\<close> is
  accepted, and then the consumer takes the head.
\<close>

definition demo_env :: async_env where
  "demo_env = \<lparr>room = (\<lambda>n. 32), args_writable = True, bad_unlock = (\<lambda>t m. None), consumer_flag = (\<lambda>i. 0xff1)\<rparr>"

definition demo_unloaded :: "mem_fs async_state" where
  "demo_unloaded = \<lparr>nodes = (\<lambda>a. None), w_qnode = 0, wq_mutex = None, wq_size = 0, t_producers = 0,
     consumer_wq = False, producer_wq = False, jobs = (\<lambda>a. None), kstate = demo_state (\<lambda>d. [])\<rparr>"

definition demo_shared :: "mem_fs async_state" where
  "demo_shared = demo_unloaded\<lparr>nodes := (\<lambda>a. None)(1 \<mapsto> \<lparr>wq_data_node = 9, next_p = Node 1, prev_p = Node 1\<rparr>),
     w_qnode := 1\<rparr>"

definition demo_start :: "mem_fs system" where
  "demo_start = \<lparr>shared = demo_shared, cons = (\<lambda>i. C_Off), prods = (\<lambda>p. P_Done 0), loader = L_Start, sysptr = None\<rparr>"

lemma demo_initialised: "initialise_wq True (Some 1) 9 demo_unloaded = Some (0, demo_shared)"
  by (simp add: initialise_wq_def init_list_head_def demo_unloaded_def demo_shared_def)

lemma demo_reach: "async_reach demo_env demo_kernel demo_start"
  using reach_load [OF demo_initialised, of demo_env demo_kernel None] by (simp add: demo_start_def)

lemma demo_owner: "owner_only demo_env"
  by (simp add: owner_only_def demo_env_def)

definition demo_arg :: wq_data where
  "demo_arg = \<lparr>wd_fname = Some ''/a'', wd_b1 = 0\<rparr>"

definition demo_call :: "choice list" where
  "demo_call = replicate 5 (Load True) @ [Consume 0, Consume 0, Call 7 (Some 9) 0xff1 9 demo_arg]"

definition demo_accept :: "choice list" where
  "demo_accept = [Produce 7 None False, Produce 7 None False, Produce 7 None False, Produce 7 (Some 2) False,
     Produce 7 None False, Produce 7 None False]"

lemmas demo_queue_defs = demo_env_def demo_unloaded_def demo_shared_def demo_start_def demo_arg_def
  demo_call_def demo_accept_def

definition demo_ready :: "mem_fs system" where
  "demo_ready = \<lparr>shared = demo_shared\<lparr>consumer_wq := True, producer_wq := True, jobs := (\<lambda>a. None)(9 \<mapsto> demo_arg)\<rparr>,
     cons = (\<lambda>i. if i < 2 then C_Lock else C_Off)(0 := C_Wait),
     prods = (\<lambda>p. P_Done 0)(7 := P_Call (Some 9) 0xff1), loader = L_Done, sysptr = Some Async_xclone2async\<rparr>"

lemma demo_called: "run demo_env demo_kernel demo_call demo_start = Some demo_ready"
  by (simp add: demo_queue_defs demo_ready_def mutex_lock_def mutex_unlock_def max_consumers_def
      eval_nat_numeral cong: if_cong)

definition demo_after :: "mem_fs system" where
  "demo_after = demo_ready\<lparr>shared := (shared demo_ready)\<lparr>
       nodes := (\<lambda>a. None)(1 \<mapsto> \<lparr>wq_data_node = 9, next_p = Node 2, prev_p = Node 2\<rparr>,
         2 \<mapsto> \<lparr>wq_data_node = 9, next_p = Node 1, prev_p = Node 1\<rparr>),
       wq_mutex := Some (Producer 7), wq_size := 1, jobs := (\<lambda>a. None)(9 \<mapsto> demo_arg\<lparr>wd_b1 := 0xff1\<rparr>)\<rparr>,
     prods := (\<lambda>p. P_Done 0)\<rparr>"

lemma demo_accepted: "run demo_env demo_kernel demo_accept demo_ready = Some demo_after"
  by (simp add: demo_accept_def demo_ready_def demo_arg_def demo_after_def demo_shared_def demo_unloaded_def
      demo_env_def mutex_lock_def flag_defs WQ_maxsize_def list_add_tail_def fun_upd_idem fun_upd_twist cong: if_cong)

lemma demo_after_reach: "async_reach demo_env demo_kernel demo_after"
  using async_reach_steps [OF run_steps [OF demo_accepted] async_reach_steps [OF run_steps [OF demo_called] demo_reach]]
  by simp

lemma demo_after_facts:
  "wq_mutex (shared demo_after) = Some (Producer 7)" "prods demo_after p = P_Done 0" "cons demo_after 0 = C_Wait"
  "cons demo_after 1 = C_Lock" "wq_size (shared demo_after) = 1" "w_qnode (shared demo_after) = 1"
  "ring (nodes (shared demo_after)) 1 [2]"
  by (simp_all add: demo_after_def demo_ready_def demo_shared_def demo_unloaded_def ring_def)

lemma demo_leaked: "leaked demo_after"
  by (simp add: leaked_def demo_after_facts)

lemma demo_taken:
  "\<exists>T. (async_step demo_env demo_kernel)\<^sup>*\<^sup>* demo_after T \<and> item_of (cons T 0) = Some (Ptr 1) \<and>
     w_qnode (shared T) = 1"
proof -
  obtain nd where nd: "nodes (shared demo_after) 1 = Some nd" "wq_data_node nd = 9"
    by (simp add: demo_after_def)
  have ring: "ring (nodes (shared demo_after)) (w_qnode (shared demo_after)) [2]"
    using demo_after_facts by simp
  have job: "jobs (shared demo_after) 9 \<noteq> None" and wq: "producer_wq (shared demo_after)"
    by (simp_all add: demo_after_def demo_ready_def)
  obtain h where "process_item (shared demo_after) = Some (Ptr 1, (shared demo_after)\<lparr>nodes := h\<rparr>)"
    using process_item_ring [OF ring] nd job demo_after_facts by auto
  then have "\<exists>T. run demo_env demo_kernel [Consume 0, Consume 0] demo_after = Some T \<and>
      item_of (cons T 0) = Some (Ptr 1) \<and> w_qnode (shared T) = 1"
    using wq by (simp add: max_consumers_def demo_after_facts take_step_def Let_def)
  then show ?thesis using run_steps by blast
qed

theorem job_never_served_witness:
  "\<exists>T. (async_step demo_env demo_kernel)\<^sup>*\<^sup>* demo_after T \<and> item_of (cons T 0) = Some (Ptr 1) \<and>
     nodes (shared T) 2 \<noteq> None \<and> (\<forall>i. item_of (cons T i) \<noteq> Some (Ptr 2))"
proof -
  obtain T where T: "(async_step demo_env demo_kernel)\<^sup>*\<^sup>* demo_after T" "item_of (cons T 0) = Some (Ptr 1)"
    using demo_taken by blast
  have "nodes (shared demo_after) 2 = Some \<lparr>wq_data_node = 9, next_p = Node 1, prev_p = Node 1\<rparr>"
    "2 \<noteq> w_qnode (shared demo_after)" by (simp add: demo_after_def) (simp add: demo_after_facts)
  from job_never_served [OF demo_after_reach T(1) this] T show ?thesis by blast
qed

theorem queue_refines_log_witness:
  "\<exists>T. (async_step demo_env demo_kernel)\<^sup>*\<^sup>* demo_ready T \<and> queue_view demo_ready (Intact []) \<and>
     queue_view T (Intact [9]) \<and> log_step\<^sup>*\<^sup>* (Intact []) (Intact [9])"
proof -
  have steps: "(async_step demo_env demo_kernel)\<^sup>*\<^sup>* demo_ready demo_after"
    by (rule run_steps [OF demo_accepted])
  have reach: "async_reach demo_env demo_kernel demo_ready"
    by (rule async_reach_steps [OF run_steps [OF demo_called] demo_reach])
  have "ring (nodes (shared demo_ready)) 1 []" and "w_qnode (shared demo_ready) = 1"
    by (simp_all add: demo_ready_def demo_shared_def ring_def)
  then have v: "queue_view demo_ready (Intact [])" by (simp add: job_ids_def)
  have "job_ids (nodes (shared demo_after)) [2] = [9]" by (simp add: job_ids_def demo_after_def)
  then have v': "queue_view demo_after (Intact [9])"
    using demo_after_facts(6,7) by (metis queue_view.simps(1))
  obtain A A' where A: "\<forall>B. queue_view demo_ready B \<longleftrightarrow> B = A" "\<forall>B. queue_view demo_after B \<longleftrightarrow> B = A'"
    "log_step\<^sup>*\<^sup>* A A'"
    using queue_refines_log [OF reach steps] by blast
  then have "A = Intact []" "A' = Intact [9]" using v v' by metis+
  with A(3) v v' steps show ?thesis by metis
qed

theorem queue_breaks_witness:
  "\<exists>T. (async_step demo_env demo_kernel)\<^sup>*\<^sup>* demo_after T \<and>
     consumer_step demo_env demo_kernel 1 (shared T) C_Take = Fault"
proof -
  obtain T where T: "(async_step demo_env demo_kernel)\<^sup>*\<^sup>* demo_after T" "item_of (cons T 0) = Some (Ptr 1)"
    "w_qnode (shared T) = 1"
    using demo_taken by blast
  have "async_reach demo_env demo_kernel T" by (rule async_reach_steps [OF T(1) demo_after_reach])
  from queue_breaks [OF this, of 0 T 3 1 False 0 0] T show ?thesis by auto
qed

theorem call_accepted_witness:
  "\<exists>T. (async_step demo_env demo_kernel)\<^sup>*\<^sup>* demo_ready T \<and> prods T 7 = P_Done 0 \<and>
     ring (nodes (shared T)) 1 [2] \<and> wq_mutex (shared T) = Some (Producer 7)"
proof -
  have "call_fits demo_env 9 2 [] demo_ready" "prods demo_ready 7 = P_Call (Some 9) 0xff1"
    "w_qnode (shared demo_ready) = 1"
    by (simp_all add: call_fits_def demo_ready_def demo_queue_defs WQ_maxsize_def ring_def)
  from call_accepted [OF this(1,2), of demo_kernel] this(3) show ?thesis by (auto simp: flag_defs)
qed

theorem accepted_call_deadlocks_witness:
  "\<exists>T. (async_step demo_env demo_kernel)\<^sup>*\<^sup>* demo_after T \<and> item_of (cons T 0) = Some (Ptr 1) \<and>
     leaked T \<and> cons T 1 = C_Lock"
proof -
  obtain T where T: "(async_step demo_env demo_kernel)\<^sup>*\<^sup>* demo_after T" "item_of (cons T 0) = Some (Ptr 1)"
    using demo_taken by blast
  from accepted_call_deadlocks [OF demo_owner demo_leaked T(1)] T demo_after_facts(4) show ?thesis by blast
qed

theorem async_moves_nothing_witness:
  "\<exists>T. (async_step demo_env demo_kernel)\<^sup>*\<^sup>* demo_after T \<and> item_of (cons T 0) = Some (Ptr 1) \<and>
     kstate (shared T) = demo_state (\<lambda>d. [])"
proof -
  obtain T where T: "(async_step demo_env demo_kernel)\<^sup>*\<^sup>* demo_after T" "item_of (cons T 0) = Some (Ptr 1)"
    using demo_taken by blast
  have "kstate (shared demo_after) = demo_state (\<lambda>d. [])"
    by (simp add: demo_after_def demo_ready_def demo_shared_def demo_unloaded_def)
  with async_moves_nothing [OF demo_owner demo_after_reach T(1)] have "kstate (shared T) = demo_state (\<lambda>d. [])"
    by (rule trans)
  with T show ?thesis by blast
qed

theorem queue_holds_one_job_witness: "wq_size (shared demo_after) \<le> 1 \<and> early (cons demo_after 1)"
  using queue_holds_one_job [OF demo_owner demo_after_reach] by blast

theorem load_race_witness:
  "\<exists>S. async_reach demo_env demo_kernel S \<and> consumer_step demo_env demo_kernel 0 (shared S) (cons S 0) = Fault"
proof -
  have "\<not> consumer_wq demo_unloaded" by (simp add: demo_unloaded_def)
  from load_race [OF demo_initialised this] show ?thesis by blast
qed

definition demo_no_memory :: "mem_fs kernel" where
  "demo_no_memory = demo_kernel\<lparr>kmalloc_k := (\<lambda>n w. (None, w))\<rparr>"

theorem unload_takes_foreign_call_witness:
  "\<exists>ptr s1 ptr' s3. init_sys_xclone2async demo_no_memory True (Some 1) 9 (Some Sync_xclone2) demo_unloaded =
       Some ((0, ptr), s1) \<and>
     exit_sys_xclone2async ptr s1 = Some (ptr', s3) \<and> ptr = Some Sync_xclone2 \<and> ptr' = None"
proof -
  obtain ptr s1 where s1: "init_sys_xclone2async demo_no_memory True (Some 1) 9 (Some Sync_xclone2) demo_unloaded =
      Some ((0, ptr), s1)" "ring (nodes s1) (w_qnode s1) []"
    by (simp add: init_sys_xclone2async_def create_trashbin_async_def kmalloc_def demo_no_memory_def
        initialise_wq_def init_list_head_def ring_def demo_unloaded_def)
  obtain h where "list_del (w_qnode s1) (nodes s1) = Some h" "dom h = dom (nodes s1)"
    using ring_del_head [OF s1(2)] by blast
  moreover have "h (w_qnode s1) \<noteq> None"
    using s1(2) \<open>dom h = dom (nodes s1)\<close> by (auto simp: ring_def dom_def set_eq_iff)
  ultimately obtain ptr' s3 where s3: "exit_sys_xclone2async ptr s1 = Some (ptr', s3)"
    using ring_walk [OF s1(2)] by (auto simp: exit_sys_xclone2async_def Let_def)
  from unload_takes_foreign_call [OF s1(1) s3] s1(1) s3 show ?thesis by blast
qed

theorem unload_leaks_jobs_witness:
  "\<exists>h. exit_sys_xclone2async None (shared demo_after) = Some (None, (shared demo_after)\<lparr>nodes := h\<rparr>) \<and>
     h 1 = None \<and> h 2 \<noteq> None"
proof -
  have "ring (nodes (shared demo_after)) (w_qnode (shared demo_after)) [2]"
    using demo_after_facts by simp
  from unload_leaks_jobs [OF this, of None demo_env demo_kernel 0] demo_after_facts(6) show ?thesis by auto
qed

theorem process_item_takes_head_witness:
  "\<exists>t. process_item (shared demo_after) = Some (Ptr 1, t) \<and> process_item t = None"
proof -
  have "ring (nodes (shared demo_after)) (w_qnode (shared demo_after)) [2]"
    using demo_after_facts by simp
  moreover have "map_option wq_data_node (nodes (shared demo_after) 1) = Some 9" "jobs (shared demo_after) 9 \<noteq> None"
    by (simp_all add: demo_after_def)
  ultimately show ?thesis
    using process_item_takes_head demo_after_facts(6) by fastforce
qed

end
