(* ===== verification/Clone_Cli.thy ===== *)
theory Clone_Cli
  imports Syscall
begin

text \<open>
  \<open>xclone2.c\<close>, the program a user runs: it turns its options into clone flags, clones a child with them,
  and the child enters one of the two system calls depending on the size of the file. The kernel's
  side of \<open>clone\<close>, \<open>stat\<close> and \<open>syscall\<close> is an argument of the model.
\<close>

subsection \<open>Code\<close>

text \<open>
  \<open>getopt\<close> with options that take no argument: the option letters in order, and the operands, which
  it moves to the end. Letters that are no option come back as a question mark.
\<close>

fun getopt_scan :: "string list \<Rightarrow> string \<times> string list" where
  "getopt_scan [] = ([], [])"
| "getopt_scan (a # as) =
     (if a = ''--'' then ([], as)
      else if hd a = CHR ''-'' \<and> 1 < length a
      then (case getopt_scan as of (os, fs) \<Rightarrow> (tl a @ os, fs))
      else (case getopt_scan as of (os, fs) \<Rightarrow> (os, a # fs)))"

definition getopt_result :: "string \<Rightarrow> char \<Rightarrow> char" where
  "getopt_result optstring c = (if c \<in> set optstring then c else CHR ''?'')"

fun read_options :: "string \<Rightarrow> 32 word \<Rightarrow> int + 32 word" where
  "read_options [] b = Inr b"
| "read_options (c # cs) b =
     (if c = CHR ''m'' then read_options cs (b OR CLONE_PROT_MV)
      else if c = CHR ''c'' then read_options cs (b OR CLONE_PROT_ZIP)
      else if c = CHR ''e'' then read_options cs (b OR CLONE_PROT_ENC)
      else Inl 1)"

text \<open>
  \<open>main\<close>: the exit status and the child that is cloned, with its flags and its argument. \<open>m1\<close> to \<open>m3\<close>
  are the results of the allocations, \<open>pid\<close> is what \<open>clone\<close> returns. The name is copied into a buffer
  of \<open>PATH_MAX\<close> bytes.
\<close>

definition start_child :: "(32 word \<Rightarrow> int) \<Rightarrow> 32 word \<Rightarrow> Param \<Rightarrow> (int \<times> (32 word \<times> Param) option) option" where
  "start_child pid flags params =
     (if pid flags = - 1 then Some (- 1, None) else Some (0, Some (flags, params)))"

definition xclone2_main ::
  "bool \<Rightarrow> bool \<Rightarrow> bool \<Rightarrow> (32 word \<Rightarrow> int) \<Rightarrow> string list \<Rightarrow> (int \<times> (32 word \<times> Param) option) option" where
  "xclone2_main m1 m2 m3 pid args =
     (if \<not> m1 then Some (- ENOMEM, None)
      else if \<not> m2 then Some (- ENOMEM, None)
      else if \<not> m3 then Some (- ENOMEM, None)
      else
        let (options, operands) = getopt_scan args in
        case read_options (map (getopt_result ''mce'') options) 0 of
          Inl rc \<Rightarrow> Some (rc, None)
        | Inr flags \<Rightarrow>
            (case operands of
               [] \<Rightarrow> Some (- 1, None)
             | file # _ \<Rightarrow>
                 if PATH_MAX \<le> length file then None
                 else
                   let params = \<lparr>fname = Some file, b1 = flags\<rparr> in
                   if flags = CLONE_PROT_MV then start_child pid CLONE_PROT_MV params
                   else if flags = CLONE_PROT_ZIP then start_child pid CLONE_PROT_ZIP params
                   else if flags = CLONE_PROT_ENC then start_child pid CLONE_PROT_ENC params
                   else if flags = CLONE_PROT_MV OR CLONE_PROT_ENC
                   then start_child pid (CLONE_PROT_MV OR CLONE_PROT_ENC) params
                   else if flags = CLONE_PROT_MV OR CLONE_PROT_ZIP
                   then start_child pid (CLONE_PROT_MV OR CLONE_PROT_ZIP) params
                   else if flags = CLONE_PROT_ENC OR CLONE_PROT_ZIP
                   then start_child pid (CLONE_PROT_ENC OR CLONE_PROT_ZIP) params
                   else if flags = CLONE_PROT_MV OR CLONE_PROT_ENC OR CLONE_PROT_ZIP
                   then start_child pid (CLONE_PROT_MV OR CLONE_PROT_ENC OR CLONE_PROT_ZIP) params
                   else Some (0, None)))"

datatype sys_number = NR_xclone2 | NR_xclone2async

text \<open>The C library's \<open>syscall\<close> turns an error code of the kernel into -1.\<close>

definition libc_result :: "int \<Rightarrow> int" where
  "libc_result r = (if - 4096 < r \<and> r < 0 then - 1 else r)"

definition child_clone ::
  "(string \<Rightarrow> 's \<Rightarrow> int option) \<Rightarrow> int \<Rightarrow> (sys_number \<Rightarrow> Param option \<Rightarrow> 's \<Rightarrow> (int \<times> 's) option) \<Rightarrow>
   Param \<Rightarrow> 's \<Rightarrow> (int \<times> 's) option" where
  "child_clone stat garbage sys param s = do {
     name \<leftarrow> fname param;
     let st_size = (case stat name s of None \<Rightarrow> garbage | Some n \<Rightarrow> n);
     let size = i32 st_size;
     (r, s) \<leftarrow> (if size > 4096 then sys NR_xclone2async (Some param) s else sys NR_xclone2 (Some param) s);
     let rc = i32 (libc_result r);
     Some (rc, s)
   }"

subsection \<open>Options\<close>

definition flags_of :: "char set \<Rightarrow> 32 word" where
  "flags_of opts = (if CHR ''m'' \<in> opts then CLONE_PROT_MV else 0) OR
     (if CHR ''c'' \<in> opts then CLONE_PROT_ZIP else 0) OR (if CHR ''e'' \<in> opts then CLONE_PROT_ENC else 0)"

lemma read_options_flags:
  "set cs \<subseteq> set ''mce'' \<Longrightarrow> read_options (map (getopt_result ''mce'') cs) b = Inr (b OR flags_of (set cs))"
proof (induction cs arbitrary: b)
  case Nil
  then show ?case by (simp add: flags_of_def)
next
  case (Cons c cs)
  have "b OR x OR flags_of (set cs) = b OR flags_of (set (c # cs))"
    if "(c, x) \<in> {(CHR ''m'', CLONE_PROT_MV), (CHR ''c'', CLONE_PROT_ZIP), (CHR ''e'', CLONE_PROT_ENC)}" for x
    using that by (auto simp: flags_of_def ac_simps)
  with Cons show ?case by (auto simp: getopt_result_def or.assoc)
qed

lemma flags_of_cases:
  "flags_of opts \<in> {0, CLONE_PROT_MV, CLONE_PROT_ZIP, CLONE_PROT_ENC, CLONE_PROT_MV OR CLONE_PROT_ENC,
     CLONE_PROT_MV OR CLONE_PROT_ZIP, CLONE_PROT_ENC OR CLONE_PROT_ZIP,
     CLONE_PROT_MV OR CLONE_PROT_ENC OR CLONE_PROT_ZIP}"
  by (simp add: flags_of_def ac_simps)

lemma xclone2_main_flags:
  assumes "getopt_scan args = (options, file # rest)" and "set options \<subseteq> set ''mce''"
    and "length file < PATH_MAX" and "\<And>f. pid f \<noteq> - 1"
  shows "xclone2_main True True True pid args =
    Some (0, if options = [] then None
             else Some (flags_of (set options), \<lparr>fname = Some file, b1 = flags_of (set options)\<rparr>))"
proof -
  have z: "flags_of (set options) = 0 \<longleftrightarrow> options = []"
    using assms(2) by (cases options) (auto simp: flags_of_def flag_defs)
  show ?thesis
    using flags_of_cases [of "set options"] assms z
    by (auto simp: xclone2_main_def start_child_def read_options_flags flag_defs)
qed

subsection \<open>Properties\<close>

text \<open>
  The program and the synchronous module together: the child runs with the flags it was cloned with
  (the task field \<open>xclone_flag\<close>), and its call of \<open>xclone2\<close> is that of the module.
\<close>

definition run_xclone2 ::
  "'w kernel \<Rightarrow> (string \<Rightarrow> 'w kst \<Rightarrow> int option) \<Rightarrow> (Param option \<Rightarrow> 'w kst \<Rightarrow> (int \<times> 'w kst) option) \<Rightarrow>
   string list \<Rightarrow> 'w kst \<Rightarrow> (int \<times> 'w kst) option" where
  "run_xclone2 K stat async args s = do {
     (rc, child) \<leftarrow> xclone2_main True True True (\<lambda>flags. 1) args;
     (case child of
        None \<Rightarrow> Some (rc, s)
      | Some (flags, param) \<Rightarrow>
          child_clone stat 0 (\<lambda>n arg s. if n = NR_xclone2 then xclone2 K (ucast flags) arg s else async arg s)
            param s)
   }"

lemma run_xclone2_small:
  assumes "getopt_scan args = (options, name # rest)" and "set options \<subseteq> set ''mce''" and "options \<noteq> []"
    and "length name < PATH_MAX" and "stat name s = Some n" and "i32 n \<le> 4096"
    and "returns (xclone2 K (ucast (flags_of (set options))) (Some \<lparr>fname = Some name, b1 = flags_of (set options)\<rparr>) s)
      (\<lambda>(r, t). Q (i32 (libc_result r), t))"
  shows "returns (run_xclone2 K stat async args s) Q"
  using xclone2_main_flags [of args options name rest "\<lambda>flags. 1"] assms
  by (auto simp: run_xclone2_def child_clone_def Let_def elim!: returns_mono)

text \<open>
  C28. The program clones its child with exactly the flags its options name, in whatever order and
  however often they are given; without an option it does nothing and exits with 0.
\<close>

theorem cli_flags:
  assumes "getopt_scan args = (options, file # rest)" and "set options \<subseteq> set ''mce''"
    and "length file < PATH_MAX" and "\<And>f. pid f \<noteq> - 1"
  shows "xclone2_main True True True pid args =
    Some (0, if options = [] then None
             else Some (flags_of (set options), \<lparr>fname = Some file, b1 = flags_of (set options)\<rparr>))"
  by (rule xclone2_main_flags [OF assms])

text \<open>
  C17. \<open>xclone2 -me\<close> on a file of at most a page encrypts and unlinks it, from the command line to the
  trash folder: when kernel and cipher keep their contracts, a key is set, the names fit and \<open>stat\<close>
  gives the true size, the program exits with 0, the trash file holds the cipher text of the file, no
  other file but the input has changed, the input was closed and unlinked last (with a result the
  program does not see), and the key was freed.
\<close>

theorem cli_encrypts_small_file:
  assumes "enc_setup K c E name fr path lo fw kb s" and "enc_key s = Some kb" and "name \<noteq> []"
    and "hd name \<noteq> CHR ''-''" and "length name < PATH_MAX"
    and "length (c (f_dentry_k K fr) (world s)) \<le> 4096"
    and "stat name s = Some (int (length (c (f_dentry_k K fr) (world s))))"
  shows "returns (run_xclone2 K stat async [''-me'', name] s) (\<lambda>(r, t). r = 0 \<and>
    c (f_dentry_k K fw) (world t) =
      enc_text K E (c_str (mem kb)) (c (f_dentry_k K fr) (world s)) @
      drop (length (enc_text K E (c_str (mem kb)) (c (f_dentry_k K fr) (world s))))
        (c (f_dentry_k K fw) (world s)) \<and>
    (\<forall>d. d \<noteq> f_dentry_k K fw \<and> d \<noteq> f_dentry_k K fr \<longrightarrow> c d (world t) = c d (world s)) \<and>
    live t = [next_id s + 4, next_id s + 2, next_id s + 1, next_id s] @ remove1 (bid kb) (live s) \<and>
    (\<exists>evs dir q. trace t = evs @ [Closed fr, DirLocked dir, Unlinked dir (f_dentry_k K fr) q,
        DirUnlocked dir, Closed fw]))"
proof (rule run_xclone2_small [where options = "''me''" and name = name and rest = "[]"])
  show "getopt_scan [''-me'', name] = (''me'', [name])" using assms(3,4) by (cases name) auto
  show "i32 (int (length (c (f_dentry_k K fr) (world s)))) \<le> 4096" using assms(6) by (simp add: i32_id)
  let ?P = "\<lambda>t. c (f_dentry_k K fw) (world t) =
      enc_text K E (c_str (mem kb)) (c (f_dentry_k K fr) (world s)) @
      drop (length (enc_text K E (c_str (mem kb)) (c (f_dentry_k K fr) (world s))))
        (c (f_dentry_k K fw) (world s)) \<and>
    (\<forall>d. d \<noteq> f_dentry_k K fw \<and> d \<noteq> f_dentry_k K fr \<longrightarrow> c d (world t) = c d (world s)) \<and>
    live t = [next_id s + 4, next_id s + 2, next_id s + 1, next_id s] @ remove1 (bid kb) (live s) \<and>
    (\<exists>evs dir q. trace t = evs @ [Closed fr, DirLocked dir, Unlinked dir (f_dentry_k K fr) q,
        DirUnlocked dir, Closed fw])"
  have "ucast (flags_of (set ''me'')) = (4085 :: 64 word)" by (simp add: flags_of_def flag_defs)
  moreover have "returns (processencryption K (Some name) (Some kb) s) (\<lambda>(r, t). ?P t)"
    using assms(1) unfolding enc_setup_def
    by (elim conjE, intro returns_mono [OF processencryption_upto_unlink]) auto
  ultimately show "returns (xclone2 K (ucast (flags_of (set ''me''))) (Some \<lparr>fname = Some name, b1 = flags_of (set ''me'')\<rparr>) s)
      (\<lambda>(r, t). case (i32 (libc_result r), t) of (r, t) \<Rightarrow> r = 0 \<and> ?P t)"
    using assms(2) by (auto simp: xclone2_def libc_result_def i32_id elim!: returns_mono)
qed (use assms in simp_all)

text \<open>
  C29. Without \<open>-m\<close> the program does nothing to a file of at most a page: to compress or to encrypt it
  without moving it leaves the whole system as it was, and reports success.
\<close>

theorem cli_without_move:
  assumes "getopt_scan args = (options, name # rest)" and "set options \<subseteq> set ''ce''"
    and "length name < PATH_MAX" and "stat name s = Some n" and "i32 n \<le> 4096"
  shows "run_xclone2 K stat async args s = Some (0, s)"
proof (cases "options = []")
  case True
  with xclone2_main_flags [OF assms(1) _ assms(3), of "\<lambda>flags. 1"] show ?thesis
    by (simp add: run_xclone2_def)
next
  case False
  have "ucast (flags_of (set options)) \<in> {4082, 4084, 4086 :: 64 word}"
    using False assms(2) by (cases options) (auto simp: flags_of_def flag_defs)
  then have idle: "xclone2 K (ucast (flags_of (set options))) (Some \<lparr>fname = Some name, b1 = flags_of (set options)\<rparr>) s =
      Some (0, s)" by (auto simp: xclone2_def)
  have "returns (run_xclone2 K stat async args s) (\<lambda>x. x = (0, s))"
    by (rule run_xclone2_small [OF assms(1) _ False, where n = n])
      (use assms(2-5) idle in \<open>auto simp: libc_result_def i32_id\<close>)
  then show ?thesis by (auto simp: returns_iff)
qed

text \<open>
  C30. \<open>xclone2 -me\<close> on a file of 2 GiB or more (and less than 4 GiB) loses it: the size wraps to a
  negative number twice, in the program, which takes the file for a small one, and in the module,
  which encrypts nothing and unlinks it; and the call returns normally.
\<close>

theorem cli_large_file_lost:
  assumes "trash_setup K c name fr path lo ''.enc'' fw" and "fs_contract K c"
    and "length (c_str (mem kb)) < length (mem kb)" and "bid kb \<in> set (live s)" and "bid kb < next_id s"
    and "enc_key s = Some kb" and "name \<noteq> []" and "hd name \<noteq> CHR ''-''" and "length name < PATH_MAX"
    and "2147483648 \<le> length (c (f_dentry_k K fr) (world s))"
    and "length (c (f_dentry_k K fr) (world s)) < 4294967296"
    and "stat name s = Some (int (length (c (f_dentry_k K fr) (world s))))"
  shows "returns (run_xclone2 K stat async [''-me'', name] s) (\<lambda>(r, t). r = 0 \<and>
    c (f_dentry_k K fw) (world t) = c (f_dentry_k K fw) (world s) \<and>
    (\<exists>evs dir q. trace t = evs @ [Closed fr, DirLocked dir, Unlinked dir (f_dentry_k K fr) q,
        DirUnlocked dir, Closed fw]))"
proof (rule run_xclone2_small [where options = "''me''" and name = name and rest = "[]"])
  show "getopt_scan [''-me'', name] = (''me'', [name])" using assms(7,8) by (cases name) auto
  show "i32 (int (length (c (f_dentry_k K fr) (world s)))) \<le> 4096"
    using assms(10,11) by (simp add: i32_minus_twopow)
  have "ucast (flags_of (set ''me'')) = (4085 :: 64 word)" by (simp add: flags_of_def flag_defs)
  then show "returns (xclone2 K (ucast (flags_of (set ''me''))) (Some \<lparr>fname = Some name, b1 = flags_of (set ''me'')\<rparr>) s)
      (\<lambda>(r, t). case (i32 (libc_result r), t) of (r, t) \<Rightarrow> r = 0 \<and>
        c (f_dentry_k K fw) (world t) = c (f_dentry_k K fw) (world s) \<and>
        (\<exists>evs dir q. trace t = evs @ [Closed fr, DirLocked dir, Unlinked dir (f_dentry_k K fr) q,
            DirUnlocked dir, Closed fw]))"
    using processencryption_large_file_lost [OF assms(1-5,10,11)] assms(6)
    by (auto simp: xclone2_def libc_result_def i32_id elim!: returns_mono)
qed (use assms in simp_all)

subsection \<open>Witnesses\<close>

definition demo_stat :: "string \<Rightarrow> mem_fs kst \<Rightarrow> int option" where
  "demo_stat name s = Some (int (length (world s (demo_file name))))"

theorem cli_flags_witness:
  "xclone2_main True True True (\<lambda>f. 1) [''-em'', ''/a'', ''-m''] =
     Some (0, Some (0xff5, \<lparr>fname = Some ''/a'', b1 = 0xff5\<rparr>))"
  using cli_flags [of "[''-em'', ''/a'', ''-m'']" "''emm''" "''/a''" "[]" "\<lambda>f. 1"]
  by (simp add: flags_of_def flag_defs PATH_MAX_def)

theorem cli_encrypts_small_file_witness:
  "returns (run_xclone2 demo_kernel demo_stat (\<lambda>arg s. None) [''-me'', ''/a'']
     (demo_keyed demo_key ((\<lambda>d. [])(1 := ''secret'')))) (\<lambda>(r, t). r = 0 \<and>
       world t 2 = enc_text demo_kernel demo_cipher (c_str (mem demo_key)) ''secret'')"
proof -
  have d: "f_dentry_k demo_kernel f = f" for f by (simp add: demo_kernel_def)
  show ?thesis
    by (rule returns_mono, rule cli_encrypts_small_file [OF demo_enc_setup [OF demo_key_terminated]])
      (auto simp: d demo_stat_def demo_file_def PATH_MAX_def)
qed

theorem cli_without_move_witness:
  "run_xclone2 demo_kernel demo_stat (\<lambda>arg s. None) [''/a'', ''-ce''] (demo_state (\<lambda>d. [])) =
     Some (0, demo_state (\<lambda>d. []))"
  by (rule cli_without_move [where options = "''ce''" and name = "''/a''" and rest = "[]" and n = 0])
    (simp_all add: PATH_MAX_def demo_stat_def i32_id)

theorem cli_large_file_lost_witness:
  "returns (run_xclone2 demo_kernel demo_stat (\<lambda>arg s. None) [''-me'', ''/a'']
     (demo_keyed demo_key ((\<lambda>d. [])(1 := replicate 3000000000 NUL)))) (\<lambda>(r, t). r = 0 \<and> world t 2 = [])"
proof -
  have d: "f_dentry_k demo_kernel f = f" for f by (simp add: demo_kernel_def)
  have n: "NUL \<notin> set ''.enc''" "length ''.enc'' < 4000" by simp_all
  show ?thesis
    by (rule returns_mono, rule cli_large_file_lost
          [OF demo_trash_setup [OF n] demo_fs_contract demo_key_terminated])
      (auto simp: d demo_stat_def demo_file_def PATH_MAX_def)
qed

end
