(* ===== verification/Async_Cli.thy ===== *)
theory Async_Cli
  imports Async_Module Clone_Cli
begin

text \<open>
  The program and the asynchronous module together: \<open>xclone2.c\<close> sends every file of more than a page to
  the asynchronous system call.
\<close>

subsection \<open>A call run to its end\<close>

text \<open>
  The system call of the thread \<open>p\<close> alone, step by step until it has returned: \<open>b\<close> is the address the
  allocator gives the new node. An accepted call takes six steps; when \<open>n\<close> steps are not enough the
  value is \<open>None\<close>.
\<close>

fun run_call :: "async_env \<Rightarrow> 'w kernel \<Rightarrow> nat \<Rightarrow> nat \<Rightarrow> nat \<Rightarrow> 'w system \<Rightarrow> (int \<times> 'w system) option" where
  "run_call E K p b n S =
     (case prods S p of
        P_Done r \<Rightarrow> Some (r, S)
      | _ \<Rightarrow>
          (case n of
             0 \<Rightarrow> None
           | Suc m \<Rightarrow>
               (case run_choice E K (Produce p (if nodes (shared S) b = None then Some b else None) False) S of
                  Go S' \<Rightarrow> run_call E K p b m S'
                | _ \<Rightarrow> None)))"

declare run_call.simps [simp del]

definition async_call ::
  "async_env \<Rightarrow> 'w kernel \<Rightarrow> nat \<Rightarrow> nat \<Rightarrow> nat \<Rightarrow> 64 word \<Rightarrow> Param option \<Rightarrow> 'w system \<Rightarrow> (int \<times> 'w system) option" where
  "async_call E K p a b flag arg S = do {
     param \<leftarrow> arg;
     S \<leftarrow> run E K [Call p (Some a) flag a \<lparr>wd_fname = fname param, wd_b1 = b1 param\<rparr>] S;
     run_call E K p b 6 S
   }"

text \<open>The program, from its arguments to the return of the system call of its child.\<close>

definition run_xclone2_async ::
  "async_env \<Rightarrow> 'w kernel \<Rightarrow> (string \<Rightarrow> 'w system \<Rightarrow> int option) \<Rightarrow>
   (Param option \<Rightarrow> 'w system \<Rightarrow> (int \<times> 'w system) option) \<Rightarrow> nat \<Rightarrow> nat \<Rightarrow> nat \<Rightarrow> string list \<Rightarrow> 'w system \<Rightarrow>
   (int \<times> 'w system) option" where
  "run_xclone2_async E K stat sync p a b args S = do {
     (rc, child) \<leftarrow> xclone2_main True True True (\<lambda>flags. 1) args;
     (case child of
        None \<Rightarrow> Some (rc, S)
      | Some (flags, param) \<Rightarrow>
          child_clone stat 0
            (\<lambda>n arg S. if n = NR_xclone2 then sync arg S else async_call E K p a b (ucast flags) arg S) param S)
   }"

lemma run_call_steps: "run_call E K p b n S = Some (r, T) \<Longrightarrow> (async_step E K)\<^sup>*\<^sup>* S T"
proof (induction n arbitrary: S)
  case 0
  then show ?case by (subst (asm) run_call.simps) (auto split: producer_pc.splits)
next
  case (Suc n)
  then show ?case
    by (subst (asm) (2) run_call.simps)
      (auto split: producer_pc.splits outcome.splits dest!: run_choice_step
        intro: converse_rtranclp_into_rtranclp simp del: run_choice.simps)
qed

lemma async_call_steps: "async_call E K p a b flag arg S = Some (r, T) \<Longrightarrow> (async_step E K)\<^sup>*\<^sup>* S T"
  unfolding async_call_def
  by (auto simp: Option.bind_eq_Some_conv simp del: run.simps dest!: run_steps run_call_steps
      intro: rtranclp_trans)

subsection \<open>An idle module\<close>

text \<open>
  The asynchronous module has the system call, its wait queues are initialised and the mutex is free;
  the thread \<open>p\<close> is not in a call, and the allocator hands out at least 24 bytes, at the address \<open>b\<close>.
\<close>

definition async_idle :: "async_env \<Rightarrow> nat \<Rightarrow> nat \<Rightarrow> 'w system \<Rightarrow> bool" where
  "async_idle E p b S \<longleftrightarrow> sysptr S = Some Async_xclone2async \<and> consumer_wq (shared S) \<and>
     wq_mutex (shared S) = None \<and> (\<exists>r. prods S p = P_Done r) \<and> 24 \<le> room E 8 \<and>
     nodes (shared S) b = None \<and> b \<noteq> w_qnode (shared S)"

lemma async_call_accepted:
  assumes own: "owner_only E" and reach: "async_reach E K S" and idle: "async_idle E p b S"
    and mv: "ucast flag AND CLONE_PROT_MV = CLONE_PROT_MV" and a: "fname param = Some name"
  shows "\<exists>T. async_call E K p a b flag (Some param) S = Some (0, T)"
proof -
  let ?w = "w_qnode (shared S)"
  let ?h = "(nodes (shared S))(b \<mapsto> \<lparr>wq_data_node = a, next_p = Poison1, prev_p = Poison2\<rparr>)"
  have "phase_empty S" using strict_empty [OF strict_reach [OF reach own]] idle by (simp add: async_idle_def)
  then have r: "ring (nodes (shared S)) ?w []" and z: "wq_size (shared S) = 0"
    by (simp_all add: phase_empty_def)
  have f: "nodes (shared S) b = None" using idle by (simp add: async_idle_def)
  obtain h' where h': "list_add_tail b ?w ?h = Some h'"
    using ring_add_tail [of ?h ?w "[]" b] ring_fresh [OF r f] by fastforce
  then have "h' b \<noteq> None"
    using add_tail_fresh [OF r f h'] by (auto simp: ring_def)
  then show ?thesis
    using idle h' mv a z
    by (auto simp: async_call_def async_idle_def run_call.simps WQ_maxsize_def mutex_lock_def eval_nat_numeral)
qed

subsection \<open>Property\<close>

text \<open>
  C18. \<open>xclone2 -m\<close>, with or without \<open>-c\<close> and \<open>-e\<close>, on a file of more than a page and less than 2 GiB, when
  the asynchronous module is loaded and idle, the allocator hands out 24 bytes for the node, and the
  rule of the kernel's mutexes holds that only the owner unlocks (\<open>owner_only\<close>: an unlock by another
  thread is a fault; the code contains such unlocks, and where they take effect a consumer can go on
  and move a file): the program reports success, and the file is never moved. In every later state of
  the module the file system is as it was before the call.
\<close>

theorem cli_large_file_stays:
  assumes "owner_only E" and "async_reach E K S" and "async_idle E p b S"
    and "getopt_scan args = (options, name # rest)" and "set options \<subseteq> set ''mce''" and "CHR ''m'' \<in> set options"
    and "length name < PATH_MAX" and "stat name S = Some n" and "4096 < n" and "n < 2147483648"
  shows "\<exists>T. run_xclone2_async E K stat sync p a b args S = Some (0, T) \<and>
    (\<forall>U. (async_step E K)\<^sup>*\<^sup>* T U \<longrightarrow> kstate (shared U) = kstate (shared S))"
proof -
  let ?param = "\<lparr>fname = Some name, b1 = flags_of (set options)\<rparr>"
  have ne: "options \<noteq> []" using assms(6) by auto
  have "ucast (ucast (flags_of (set options)) :: 64 word) AND CLONE_PROT_MV = CLONE_PROT_MV"
    using assms(6) by (simp add: flags_of_def flag_defs)
  from async_call_accepted [OF assms(1-3) this, of ?param name a]
  obtain T where T: "async_call E K p a b (ucast (flags_of (set options))) (Some ?param) S = Some (0, T)" by auto
  have size: "i32 n = n" using assms(9,10) by (simp add: i32_id)
  have "run_xclone2_async E K stat sync p a b args S = Some (0, T)"
    using xclone2_main_flags [OF assms(4,5,7), of "\<lambda>flags. 1"] ne T assms(8,9)
    by (simp add: run_xclone2_async_def child_clone_def size Let_def libc_result_def i32_id)
  moreover have "kstate (shared U) = kstate (shared S)" if "(async_step E K)\<^sup>*\<^sup>* T U" for U
    using strict_steps_kstate [OF assms(1,2) rtranclp_trans [OF async_call_steps [OF T] that]] .
  ultimately show ?thesis by blast
qed

subsection \<open>Witness\<close>

definition demo_idle :: "mem_fs system" where
  "demo_idle = \<lparr>shared = demo_shared\<lparr>consumer_wq := True, producer_wq := True\<rparr>,
     cons = (\<lambda>i. if i < 2 then C_Lock else C_Off)(0 := C_Wait), prods = (\<lambda>p. P_Done 0),
     loader = L_Done, sysptr = Some Async_xclone2async\<rparr>"

lemma demo_idle_run:
  "run demo_env demo_kernel (replicate 5 (Load True) @ [Consume 0, Consume 0]) demo_start = Some demo_idle"
  by (simp add: demo_queue_defs demo_idle_def mutex_lock_def mutex_unlock_def max_consumers_def
      eval_nat_numeral cong: if_cong)

theorem cli_large_file_stays_witness:
  "\<exists>T. run_xclone2_async demo_env demo_kernel (\<lambda>name S. Some 5000) (\<lambda>arg S. None) 7 9 2 [''/a'', ''-me''] demo_idle =
      Some (0, T) \<and> kstate (shared T) = demo_state (\<lambda>d. [])"
proof -
  have reach: "async_reach demo_env demo_kernel demo_idle"
    by (rule async_reach_steps [OF run_steps [OF demo_idle_run] demo_reach])
  have idle: "async_idle demo_env 7 2 demo_idle" and k: "kstate (shared demo_idle) = demo_state (\<lambda>d. [])"
    by (simp_all add: async_idle_def demo_idle_def demo_queue_defs)
  have o: "getopt_scan [''/a'', ''-me''] = (''me'', ''/a'' # [])" "set ''me'' \<subseteq> set ''mce''" "CHR ''m'' \<in> set ''me''"
    and n: "length ''/a'' < PATH_MAX" "(4096 :: int) < 5000" "(5000 :: int) < 2147483648"
    by (simp_all add: PATH_MAX_def)
  obtain T where T: "run_xclone2_async demo_env demo_kernel (\<lambda>name S. Some 5000) (\<lambda>arg S. None) 7 9 2 [''/a'', ''-me''] demo_idle =
      Some (0, T)" "\<And>U. (async_step demo_env demo_kernel)\<^sup>*\<^sup>* T U \<Longrightarrow> kstate (shared U) = kstate (shared demo_idle)"
    using cli_large_file_stays [OF demo_owner reach idle o n(1) _ n(2,3), of "\<lambda>name S. Some 5000" "\<lambda>arg S. None" 9]
    by blast
  have "kstate (shared T) = demo_state (\<lambda>d. [])" using T(2) [OF rtranclp.rtrancl_refl] k by simp
  with T(1) show ?thesis by blast
qed

end
