(* ===== verification/User_Tools.thy ===== *)
theory User_Tools
  imports Decompress
begin

text \<open>
  Two files that stand beside the modules: \<open>compression.c\<close>, four file helpers that keep their position in
  the open file, and \<open>tbctl.c\<close>, the program that asks for a file to be taken out of the trash.
\<close>

subsection \<open>The helpers of compression.c\<close>

definition cmp_open_file :: "'w kernel \<Rightarrow> string \<Rightarrow> int \<Rightarrow> int \<Rightarrow> 'w kst \<Rightarrow> (nat eptr \<times> 'w kst) option" where
  "cmp_open_file K filepath acces offset s = do {
     let old_fs = addr_limit s;
     let s = set_fs KERNEL_DS s;
     (flip, s) \<leftarrow> filp_open K filepath acces (f_pos_offset_k K) s;
     let s = set_fs old_fs s;
     if is_err flip then Some (Null, s)
     else Some (flip, s)
   }"

definition cmp_close_file :: "'w kernel \<Rightarrow> nat eptr \<Rightarrow> 'w kst \<Rightarrow> (unit \<times> 'w kst) option" where
  "cmp_close_file K flip s = do { f \<leftarrow> deref flip; filp_close K f s }"

definition cmp_read_file ::
  "'w kernel \<Rightarrow> nat eptr \<Rightarrow> int \<Rightarrow> byte list \<Rightarrow> int \<Rightarrow> 'w kst \<Rightarrow> ((int \<times> byte list) \<times> 'w kst) option" where
  "cmp_read_file K flip len data offset s = do {
     let old_fs = addr_limit s;
     let s = set_fs KERNEL_DS s;
     f \<leftarrow> deref flip;
     ((ret, data, pos), s) \<leftarrow> vfs_read K f data (u32 len) (fpos s f) s;
     let s = set_fpos f pos s;
     let return_data = i32 ret;
     let s = set_fs old_fs s;
     Some ((return_data, data), s)
   }"

definition cmp_write_file ::
  "'w kernel \<Rightarrow> nat eptr \<Rightarrow> int \<Rightarrow> byte list \<Rightarrow> int \<Rightarrow> 'w kst \<Rightarrow> (int \<times> 'w kst) option" where
  "cmp_write_file K flip len data offset s = do {
     f \<leftarrow> deref flip;
     let s = set_fpos f 0 s;
     let old_fs = addr_limit s;
     let s = set_fs KERNEL_DS s;
     ((ret, offset), s) \<leftarrow> vfs_write K f data (u32 len) (i64 offset) s;
     let return_data = i32 ret;
     let s = set_fs old_fs s;
     Some (return_data, s)
   }"

text \<open>
  What is written to the front of a file is what a read of the same length gives next, whatever offset
  that read is asked for: the write sets the position of the file to 0, and the read starts there.
\<close>

theorem cmp_write_read:
  assumes "fs_contract K c" and "f \<in> set (opened s)" and "length data < 2147483648" and "length buf = length data"
  shows "returns (do {
      (n, s) \<leftarrow> cmp_write_file K (Ptr f) (int (length data)) data 0 s;
      cmp_read_file K (Ptr f) n buf offset s
    }) (\<lambda>((n, out), t). n = int (length data) \<and> out = data \<and> addr_limit t = addr_limit s \<and>
      fpos t f = int (length data))"
proof -
  have R: "reads_files K c" and W: "writes_files K c" using assms(1) by (simp_all add: fs_contractD)
  have u: "u32 (int (length data)) = int (length data)" "i64 0 = 0"
    "i32 (int (length data)) = int (length data)"
    using assms(3) by (simp_all add: u32_id i64_id i32_id)
  have old: "take (length data) (write_at old 0 data) = data" for old
    by (simp add: write_at_def)
  have all: "overlay buf 0 data = data" using assms(4) by (simp add: overlay_def)
  show ?thesis
    unfolding cmp_write_file_def cmp_read_file_def Let_def
    using assms(2-4) u
    by (auto simp: old all intro!: returns_vfs_write [OF W] returns_vfs_read [OF R])
qed

subsection \<open>tbctl\<close>

text \<open>
  The number of the request: direction 1 (write), the size of a pointer, and the letter \<open>a\<close> twice.
\<close>

definition IOC_MAGIC :: int where "IOC_MAGIC = 97"

definition IOW :: "int \<Rightarrow> int \<Rightarrow> int \<Rightarrow> int" where
  "IOW typ nr sz = 1 * 2 ^ 30 + sz * 2 ^ 16 + typ * 2 ^ 8 + nr"

definition IOCTL_TB_UNDELETE :: int where
  "IOCTL_TB_UNDELETE = IOW IOC_MAGIC IOC_MAGIC sizeof_ptr"

definition O_RDWR :: int where "O_RDWR = 2"

text \<open>
  \<open>main\<close>, with what \<open>getopt\<close> gives as an argument: its results, each with the word before the next one it
  would look at. Without an option \<open>filename\<close> is not initialised, which is \<open>None\<close>.
\<close>

fun tbctl_options :: "nat \<Rightarrow> (char \<times> string) list \<Rightarrow> string option \<Rightarrow> int + string option" where
  "tbctl_options argc [] filename = Inr filename"
| "tbctl_options argc ((c, arg) # rest) filename =
     (if c = CHR ''u'' then tbctl_options argc rest (if argc = 3 then Some arg else filename) else Inl 1)"

definition tbctl_main ::
  "nat \<Rightarrow> (char \<times> string) list \<Rightarrow> (string \<Rightarrow> int \<Rightarrow> 's \<Rightarrow> int \<times> 's) \<Rightarrow> (int \<Rightarrow> int \<Rightarrow> int \<Rightarrow> 's \<Rightarrow> int \<times> 's) \<Rightarrow>
   (int \<Rightarrow> 's \<Rightarrow> 's) \<Rightarrow> 's \<Rightarrow> (int \<times> 's) option" where
  "tbctl_main argc opts open_k ioctl_k close_k s =
     (if argc < 3 \<or> argc > 3 then Some (0, s)
      else case tbctl_options argc opts None of
        Inl rc \<Rightarrow> Some (rc, s)
      | Inr filename \<Rightarrow> do {
          name \<leftarrow> filename;
          let (fd, s) = open_k name (O_RDWR OR O_CREAT) s;
          if fd < 0 then Some (0, s)
          else do {
            let (rc, s) = ioctl_k fd IOCTL_TB_UNDELETE 0 s;
            let s = close_k fd s;
            Some (rc, s)
          }
        })"

text \<open>
  Asked to undelete a file, the program opens it, creating an empty one when there is none, sends
  the request 0x40086161 to it and returns the answer. With no option it uses an uninitialised name.
\<close>

theorem tbctl_undelete:
  assumes "open_k name 66 s = (fd, s1)" and "0 \<le> fd" and "ioctl_k fd 0x40086161 0 s1 = (rc, s2)"
  shows "tbctl_main 3 [(CHR ''u'', name)] open_k ioctl_k close_k s = Some (rc, close_k fd s2) \<and>
    tbctl_main 3 [] open_k ioctl_k close_k s = None"
proof -
  have "O_RDWR OR O_CREAT = 66" by (simp add: O_RDWR_def O_CREAT_def)
  moreover have "IOCTL_TB_UNDELETE = 0x40086161"
    by (simp add: IOCTL_TB_UNDELETE_def IOW_def IOC_MAGIC_def sizeof_ptr_def)
  ultimately show ?thesis using assms by (simp add: tbctl_main_def Let_def)
qed

end
