(* ===== verification/Dedup_Fragment.thy ===== *)
theory Dedup_Fragment
  imports Kernel_Contract Demo_Kernel "HOL-Library.Sublist"
begin

text \<open>
  \<open>read_write.c\<close>, the start of a system call \<open>xdedup\<close> that no build file names and that ends with its first
  loop: it reads two files page by page and writes what both begin with to a third. The local variables
  the loop uses are declared and never set; what they hold is an argument (\<open>dedup_locals\<close>).
\<close>

subsection \<open>Code\<close>

record dedup_locals =
  filp1 :: "nat eptr"
  filp2 :: "nat eptr"
  filp3 :: "nat eptr"
  stats1_size :: int
  path3_dentry :: nat

text \<open>
  The comparison loop: the byte of the first buffer is read before the index is compared with the size
  of the buffers.
\<close>

function compare_bytes :: "byte list \<Rightarrow> byte list \<Rightarrow> nat \<Rightarrow> nat option" where
  "compare_bytes buff3 buff4 i =
     (if length buff3 \<le> i then None
      else if buff3 ! i = NUL then Some i
      else if \<not> i < 4096 then Some i
      else if length buff4 \<le> i then None
      else if buff4 ! i = NUL then Some i
      else if buff3 ! i \<noteq> buff4 ! i then Some i
      else compare_bytes buff3 buff4 (i + 1))"
  by pat_completeness auto
termination
  by (relation "measure (\<lambda>(buff3, buff4, i). length buff3 - i)") auto

declare compare_bytes.simps [simp del]

text \<open>One read of a page into a buffer, at the position of the file.\<close>

definition dedup_read ::
  "'w kernel \<Rightarrow> nat eptr \<Rightarrow> cbuf option \<Rightarrow> 'w kst \<Rightarrow> ((int \<times> byte list) \<times> 'w kst) option" where
  "dedup_read K filp buff s = do {
     let oldfs = addr_limit s;
     let s = set_fs KERNEL_DS s;
     f \<leftarrow> deref filp;
     m \<leftarrow> buf_area buff s;
     ((ret, m, pos), s) \<leftarrow> vfs_read_ptr K f buff m 4096 (fpos s f) s;
     let s = set_fpos f pos s;
     let s = set_fs oldfs s;
     Some ((i32 ret, m), s)
   }"

text \<open>
  One round of the loop, \<open>dedup_rest\<close> from the comparison on: a \<open>return\<close> with its value, or whether the loop
  goes on (and is not left with \<open>break\<close>), with the new \<open>file_size\<close>.
\<close>

definition dedup_rest ::
  "'w kernel \<Rightarrow> string option \<Rightarrow> dedup_locals \<Rightarrow> int \<Rightarrow> cbuf option \<Rightarrow> cbuf option \<Rightarrow> int \<Rightarrow> byte list \<Rightarrow> byte list
   \<Rightarrow> 'w kst \<Rightarrow> ((int + bool \<times> int) \<times> 'w kst) option" where
  "dedup_rest K outfile l file_size buff3 buff4 bytes1 m3 m4 s = do {
     i \<leftarrow> compare_bytes m3 m4 0;
     if i = 0 \<and> file_size = 0 then do {
       name \<leftarrow> outfile;
       (filp4, s) \<leftarrow> filp_open K name (O_WRONLY OR O_CREAT) 420 s;
       if bad_ptr filp4 then Some (Inl (- i32 (ptr_err filp4)), s)
       else Some (Inl 0, s)
     }
     else do {
       let oldfs3 = addr_limit s;
       let s = set_fs KERNEL_DS s;
       f3 \<leftarrow> deref (filp3 l);
       ((ret3, pos3), s) \<leftarrow> vfs_write K f3 m3 (int i) (fpos s f3) s;
       let s = set_fpos f3 pos3 s;
       let bytes3 = i32 ret3;
       if int i \<noteq> bytes3 then do {
         let dir = d_parent_inode_k K (path3_dentry l) (world s);
         (_, s) \<leftarrow> lock_dir dir s;
         (unlink_temp_err, s) \<leftarrow> vfs_unlink K dir (path3_dentry l) s;
         (_, s) \<leftarrow> unlock_dir dir s;
         if unlink_temp_err \<noteq> 0 then Some (Inl (- unlink_temp_err), s)
         else Some (Inl (- 1004), s)
       }
       else if i < 4096 \<and> i32 (file_size + int i) \<noteq> stats1_size l
       then Some (Inr (False, i32 (file_size + int i)), s)
       else do {
         (_, s) \<leftarrow> kfree buff4 s;
         (_, s) \<leftarrow> kfree buff3 s;
         Some (Inr (True, i32 (file_size + bytes1)), s)
       }
     }
   }"

definition dedup_round ::
  "'w kernel \<Rightarrow> string option \<Rightarrow> dedup_locals \<Rightarrow> int \<Rightarrow> 'w kst \<Rightarrow> ((int + bool \<times> int) \<times> 'w kst) option" where
  "dedup_round K outfile l file_size s = do {
     (buff3, s) \<leftarrow> kmalloc K 4096 s;
     (buff4, s) \<leftarrow> kmalloc K 4096 s;
     ((bytes1, m3), s) \<leftarrow> dedup_read K (filp1 l) buff3 s;
     ((bytes2, m4), s) \<leftarrow> dedup_read K (filp2 l) buff4 s;
     dedup_rest K outfile l file_size buff3 buff4 bytes1 m3 m4 s
   }"

text \<open>The address limit is not restored behind the write.\<close>

partial_function (option) dedup_loop ::
  "'w kernel \<Rightarrow> string option \<Rightarrow> dedup_locals \<Rightarrow> int \<Rightarrow> 'w kst \<Rightarrow> ((int + int) \<times> 'w kst) option" where
  "dedup_loop K outfile l file_size s =
     (if file_size < stats1_size l then do {
        (r, s) \<leftarrow> dedup_round K outfile l file_size s;
        (case r of
           Inl ret \<Rightarrow> Some (Inl ret, s)
         | Inr (go, file_size) \<Rightarrow>
             if go then dedup_loop K outfile l file_size s else Some (Inr file_size, s))
      }
      else Some (Inr file_size, s))"

text \<open>\<open>xdedup\<close> up to the end of the fragment: a \<open>return\<close>, or the final \<open>file_size\<close>.\<close>

definition xdedup ::
  "'w kernel \<Rightarrow> string option \<Rightarrow> dedup_locals \<Rightarrow> 'w kst \<Rightarrow> ((int + int) \<times> 'w kst) option" where
  "xdedup K outfile l s = dedup_loop K outfile l 0 s"

subsection \<open>The comparison\<close>

lemma drop_nth: "i < length xs \<Longrightarrow> drop i xs = xs ! i # drop (Suc i) xs"
  by (rule Cons_nth_drop_Suc [symmetric])

text \<open>
  The index it stops at is the length of what the two C strings have in common, unless that fills the
  buffers, when the loop reads behind them.
\<close>

lemma compare_bytes_prefix:
  assumes "length b3 = 4096" and "length b4 = 4096" and "i \<le> 4096"
  shows "compare_bytes b3 b4 i =
    (let n = i + length (longest_common_prefix (c_str (drop i b3)) (c_str (drop i b4))) in
     if n < 4096 then Some n else None)"
  using assms
proof (induction b3 b4 i rule: compare_bytes.induct)
  case (1 b3 b4 i)
  show ?case
  proof (cases "i < 4096")
    case True
    with 1 show ?thesis
      by (subst compare_bytes.simps) (auto simp: drop_nth [of i] c_str_def Let_def)
  next
    case False
    with 1 show ?thesis by (subst compare_bytes.simps) (simp add: c_str_def Let_def)
  qed
qed

lemma lcp_take: "take (length (longest_common_prefix xs ys)) xs = longest_common_prefix xs ys"
  by (induction xs ys rule: longest_common_prefix.induct) auto

lemma lcp_same: "longest_common_prefix xs xs = xs"
  by (induction xs) simp_all

lemma c_str_prefix_page: "take (length (longest_common_prefix (c_str a) ys)) a = longest_common_prefix (c_str a) ys"
proof -
  let ?n = "length (longest_common_prefix (c_str a) ys)"
  have n: "?n \<le> length (c_str a)"
    using lcp_take [of "c_str a" ys] by (metis length_take min.cobounded1 min.commute)
  have "take ?n (c_str a @ dropWhile (\<lambda>c. c \<noteq> NUL) a) = take ?n (c_str a)" using n by simp
  then have "take ?n a = take ?n (c_str a)" by (simp add: c_str_def)
  then show ?thesis by (simp add: lcp_take)
qed

lemma common_append:
  "length (longest_common_prefix (c_str xs) (c_str ys)) < length xs \<Longrightarrow>
   length (longest_common_prefix (c_str xs) (c_str ys)) < length ys \<Longrightarrow>
   longest_common_prefix (c_str (xs @ r)) (c_str (ys @ r')) = longest_common_prefix (c_str xs) (c_str ys)"
proof (induction xs arbitrary: ys)
  case (Cons x xs)
  then show ?case by (cases ys) (auto simp: c_str_def split: if_splits)
qed simp

subsection \<open>A round, under the contract\<close>

text \<open>
  What the C strings in the first pages of two files begin with; and the situation in which the loop can
  run at all: the three file pointers, which no statement of the fragment sets, hold three different open
  files at their beginning, and the size in \<open>stats1\<close>, which is not set either, is that of the first.
\<close>

definition common :: "byte list \<Rightarrow> byte list \<Rightarrow> byte list" where
  "common a b = longest_common_prefix (c_str (take 4096 a)) (c_str (take 4096 b))"

definition dedup_setup ::
  "'w kernel \<Rightarrow> (nat \<Rightarrow> 'w \<Rightarrow> byte list) \<Rightarrow> dedup_locals \<Rightarrow> nat \<Rightarrow> nat \<Rightarrow> nat \<Rightarrow> 'w kst \<Rightarrow> bool" where
  "dedup_setup K c l f1 f2 f3 s \<longleftrightarrow>
     fs_contract K c \<and> allocates K \<and> filp1 l = Ptr f1 \<and> filp2 l = Ptr f2 \<and> filp3 l = Ptr f3 \<and>
     {f1, f2, f3} \<subseteq> set (opened s) \<and> distinct [f1, f2, f3] \<and> fpos s f1 = 0 \<and> fpos s f2 = 0 \<and> fpos s f3 = 0 \<and>
     stats1_size l = int (length (c (f_dentry_k K f1) (world s)))"

text \<open>A page buffer after the read of a file with content \<open>a\<close>: its first page, then what \<open>kmalloc\<close> left.\<close>

definition page_of :: "byte list \<Rightarrow> byte list \<Rightarrow> bool" where
  "page_of a m \<longleftrightarrow> length m = 4096 \<and> take (length (take 4096 a)) m = take 4096 a"

lemma page_ofE:
  assumes "page_of a m"
  obtains r where "m = take 4096 a @ r" and "length m = 4096"
  using assms by (metis append_take_drop_id page_of_def)

lemma page_of_overlay: "length m = 4096 \<Longrightarrow> page_of a (overlay m 0 (take 4096 a))"
  by (auto simp: page_of_def overlay_def min_def)

lemma common_pages:
  assumes a: "page_of a m3" and b: "page_of b m4" and p: "common a b = p"
    and l: "length p < 4096" "length p < length a" "length p < length b"
  shows "compare_bytes m3 m4 0 = Some (length p)" and "take (length p) m3 = p"
proof -
  obtain r3 r4 where m: "m3 = take 4096 a @ r3" "m4 = take 4096 b @ r4" "length m3 = 4096" "length m4 = 4096"
    using a b by (metis page_ofE)
  have "longest_common_prefix (c_str m3) (c_str m4) = p"
    unfolding m(1,2) using l by (subst common_append) (auto simp: p [symmetric] common_def)
  with l m compare_bytes_prefix [of m3 m4 0] c_str_prefix_page [of m3 "c_str m4"]
  show "compare_bytes m3 m4 0 = Some (length p)" and "take (length p) m3 = p"
    by (simp_all add: Let_def)
qed

lemma returns_dedup_read:
  assumes R: "reads_files K c" and f: "f \<in> set (opened s)" "fpos s f = 0"
    and b: "bid b \<in> set (live s)" "length (mem b) = 4096"
    and Q: "\<And>t m. (\<And>d. c d (world t) = c d (world s)) \<Longrightarrow> live t = live s \<Longrightarrow> opened t = opened s \<Longrightarrow>
      next_id t = next_id s \<Longrightarrow> (\<And>g. g \<noteq> f \<Longrightarrow> fpos t g = fpos s g) \<Longrightarrow>
      page_of (c (f_dentry_k K f) (world s)) m \<Longrightarrow>
      Q ((int (length (take 4096 (c (f_dentry_k K f) (world s)))), m), t)"
  shows "returns (dedup_read K (Ptr f) (Some b) s) Q"
proof -
  have "i32 (int (length (take 4096 xs))) = int (length (take 4096 xs))" for xs :: "byte list"
    by (simp add: i32_id)
  then show ?thesis
    unfolding dedup_read_def using f b
    by (auto simp: page_of_overlay simp del: length_take intro!: returns_buf_bytes returns_vfs_read [OF R] Q)
qed

text \<open>The two reads of the first round always come to an end, with the two pages.\<close>

lemma dedup_round_reads:
  assumes S: "dedup_setup K c l f1 f2 f3 s"
  obtains t b3 b4 m3 m4 where "\<And>d. c d (world t) = c d (world s)" and "opened t = opened s"
    and "live t = [Suc (next_id s), next_id s] @ live s" and "fpos t f3 = 0"
    and "page_of (c (f_dentry_k K f1) (world s)) m3" and "page_of (c (f_dentry_k K f2) (world s)) m4"
    and "dedup_round K outfile l 0 s = dedup_rest K outfile l 0 b3 b4
        (int (length (take 4096 (c (f_dentry_k K f1) (world s))))) m3 m4 t"
proof -
  have KK: "keeps_files K c" and R: "reads_files K c" and A: "allocates K"
    and f: "filp1 l = Ptr f1" "filp2 l = Ptr f2" "f1 \<in> set (opened s)" "f2 \<in> set (opened s)" "f1 \<noteq> f2"
      "f1 \<noteq> f3" "f2 \<noteq> f3" "fpos s f1 = 0" "fpos s f2 = 0" "fpos s f3 = 0"
    using S by (auto simp: dedup_setup_def fs_contract_def)
  let ?reads = "do {
     (buff3, s) \<leftarrow> kmalloc K 4096 s;
     (buff4, s) \<leftarrow> kmalloc K 4096 s;
     ((bytes1, m3), s) \<leftarrow> dedup_read K (filp1 l) buff3 s;
     ((bytes2, m4), s) \<leftarrow> dedup_read K (filp2 l) buff4 s;
     Some ((buff3, buff4, bytes1, m3, m4), s)
   }"
  have "returns ?reads (\<lambda>((b3, b4, n1, m3, m4), t). (\<forall>d. c d (world t) = c d (world s)) \<and>
      opened t = opened s \<and> live t = [Suc (next_id s), next_id s] @ live s \<and> fpos t f3 = 0 \<and>
      n1 = int (length (take 4096 (c (f_dentry_k K f1) (world s)))) \<and>
      page_of (c (f_dentry_k K f1) (world s)) m3 \<and> page_of (c (f_dentry_k K f2) (world s)) m4)"
    using f by (auto simp del: length_take intro!: returns_kmalloc [OF KK A] returns_dedup_read [OF R])
  then obtain t b3 b4 m3 m4 where "\<forall>d. c d (world t) = c d (world s)" "opened t = opened s"
    "live t = [Suc (next_id s), next_id s] @ live s" "fpos t f3 = 0"
    "page_of (c (f_dentry_k K f1) (world s)) m3" "page_of (c (f_dentry_k K f2) (world s)) m4"
    "?reads = Some ((b3, b4, int (length (take 4096 (c (f_dentry_k K f1) (world s)))), m3, m4), t)"
    by (auto simp only: returns_iff split_paired_Ex prod.case)
  moreover have "dedup_round K outfile l 0 s = Option.bind ?reads (\<lambda>((buff3, buff4, bytes1, m3, m4), s).
      dedup_rest K outfile l 0 buff3 buff4 bytes1 m3 m4 s)"
    by (auto simp: dedup_round_def intro!: Option.bind_cong)
  ultimately show thesis by (intro that [of t m3 m4 b3 b4]) simp_all
qed

text \<open>The rest of the first round, when the pages part before their end and before that of the files.\<close>

lemma dedup_rest_writes:
  assumes S: "dedup_setup K c l f1 f2 f3 s" and t: "opened t = opened s" "fpos t f3 = 0"
    and m: "length m3 = 4096" "compare_bytes m3 m4 0 = Some (length p)" "take (length p) m3 = p"
    and p: "p \<noteq> []" "length p < 4096" "int (length p) \<noteq> stats1_size l"
    and Q: "\<And>u. c (f_dentry_k K f3) (world u) = p @ drop (length p) (c (f_dentry_k K f3) (world t)) \<Longrightarrow>
      (\<And>d. d \<noteq> f_dentry_k K f3 \<Longrightarrow> c d (world u) = c d (world t)) \<Longrightarrow> live u = live t \<Longrightarrow>
      Q (Inr (False, int (length p)), u)"
  shows "returns (dedup_rest K outfile l 0 b3 b4 r1 m3 m4 t) Q"
proof -
  have W: "writes_files K c" and f: "filp3 l = Ptr f3" "f3 \<in> set (opened t)"
    using S t by (auto simp: dedup_setup_def fs_contract_def)
  have i: "i32 (int (length p)) = int (length p)" using p by (simp add: i32_id)
  have w: "write_at old 0 p = p @ drop (length p) old" for old
    using p by (simp add: write_at_def)
  show ?thesis
    unfolding dedup_rest_def using f t i p w m
    by (auto intro!: returns_vfs_write [OF W] Q)
qed

subsection \<open>Properties\<close>

text \<open>
  C33. When the file pointers and the size, which the fragment uses without setting them, happen to hold
  three different open files at their beginning and the size of the first, and when the first pages of the
  first two files, read as C strings, begin with the same bytes \<open>p\<close> (at least one, less than a page) and
  part before the end of either file, \<open>xdedup\<close> returns from its loop with the length of \<open>p\<close>, has written
  \<open>p\<close> over the start of the third file and changed no other file, and has lost both page buffers. What
  \<open>kmalloc\<close> leaves in the buffers does not matter then.
\<close>

theorem xdedup_writes_common:
  assumes "dedup_setup K c l f1 f2 f3 s"
    and "common (c (f_dentry_k K f1) (world s)) (c (f_dentry_k K f2) (world s)) = p" and "p \<noteq> []" and "length p < 4096"
    and "length p < length (c (f_dentry_k K f1) (world s))" and "length p < length (c (f_dentry_k K f2) (world s))"
  shows "returns (xdedup K outfile l s) (\<lambda>(r, t). r = Inr (int (length p)) \<and>
    c (f_dentry_k K f3) (world t) = p @ drop (length p) (c (f_dentry_k K f3) (world s)) \<and>
    (\<forall>d. d \<noteq> f_dentry_k K f3 \<longrightarrow> c d (world t) = c d (world s)) \<and>
    live t = [Suc (next_id s), next_id s] @ live s)"
proof -
  have size: "stats1_size l = int (length (c (f_dentry_k K f1) (world s)))"
    using assms(1) unfolding dedup_setup_def by blast
  have round: "returns (dedup_round K outfile l 0 s) (\<lambda>(r, t). r = Inr (False, int (length p)) \<and>
      c (f_dentry_k K f3) (world t) = p @ drop (length p) (c (f_dentry_k K f3) (world s)) \<and>
      (\<forall>d. d \<noteq> f_dentry_k K f3 \<longrightarrow> c d (world t) = c d (world s)) \<and>
      live t = [Suc (next_id s), next_id s] @ live s)"
  proof (rule dedup_round_reads [OF assms(1), of outfile], simp only:, goal_cases)
    case (1 t b3 b4 m3 m4)
    then have "length m3 = 4096" by (simp add: page_of_def)
    with 1 assms size show ?case
      by (intro dedup_rest_writes [where p = p]) (auto simp: common_pages)
  qed
  have "0 < stats1_size l" using size assms(5) by linarith
  then show ?thesis
    unfolding xdedup_def by (subst dedup_loop.simps) (auto intro!: returns_mono [OF round])
qed

text \<open>
  When the first pages of the two files are equal and hold no NUL, the comparison reads behind both
  buffers before it looks at the index.
\<close>

theorem xdedup_page_overrun:
  assumes "dedup_setup K c l f1 f2 f3 s"
    and "take 4096 (c (f_dentry_k K f1) (world s)) = take 4096 (c (f_dentry_k K f2) (world s))"
    and "4096 \<le> length (c (f_dentry_k K f1) (world s))"
    and "NUL \<notin> set (take 4096 (c (f_dentry_k K f1) (world s)))"
  shows "xdedup K outfile l s = None"
proof -
  let ?a = "c (f_dentry_k K f1) (world s)" and ?b = "c (f_dentry_k K f2) (world s)"
  have "4096 \<le> length ?b" using arg_cong [OF assms(2), of length] assms(3) by simp
  then have page: "m = take 4096 ?a" if "page_of ?a m \<or> page_of ?b m" for m
    using that assms(2,3) by (auto simp: page_of_def min_def)
  have "c_str (take 4096 ?a) = take 4096 ?a"
    using assms(4) by (auto simp: c_str_def)
  then have over: "compare_bytes (take 4096 ?a) (take 4096 ?a) 0 = None"
    using assms(3) by (simp add: compare_bytes_prefix lcp_same)
  have "dedup_round K outfile l 0 s = None"
  proof (rule dedup_round_reads [OF assms(1), of outfile], goal_cases)
    case (1 t b3 b4 m3 m4)
    then have "m3 = take 4096 ?a" "m4 = take 4096 ?a" using page by blast+
    with 1 over show ?case by (simp add: dedup_rest_def)
  qed
  moreover have "0 < stats1_size l" using assms(1,3) by (auto simp: dedup_setup_def)
  ultimately show ?thesis by (simp add: xdedup_def dedup_loop.simps [of K outfile l 0])
qed

subsection \<open>Witnesses\<close>

definition demo_dedup :: "byte list \<Rightarrow> byte list \<Rightarrow> mem_fs kst" where
  "demo_dedup a b = (demo_state ((\<lambda>d. [])(1 := a, 2 := b)))\<lparr>opened := [1, 2, 3]\<rparr>"

definition demo_locals :: "byte list \<Rightarrow> dedup_locals" where
  "demo_locals a = \<lparr>filp1 = Ptr 1, filp2 = Ptr 2, filp3 = Ptr 3, stats1_size = int (length a), path3_dentry = 3\<rparr>"

lemma demo_dedup_setup:
  "dedup_setup demo_kernel (\<lambda>d w. w d) (demo_locals a) 1 2 3 (demo_dedup a b)"
  using demo_fs_contract demo_allocates
  by (simp add: dedup_setup_def demo_locals_def demo_dedup_def demo_state_def) (simp add: demo_kernel_def)

lemma demo_dedup_files:
  "f_dentry_k demo_kernel f = f" "world (demo_dedup a b) = (\<lambda>d. [])(1 := a, 2 := b)"
  "live (demo_dedup a b) = []" "next_id (demo_dedup a b) = 0"
  by (simp_all add: demo_dedup_def demo_kernel_def demo_state_def)

theorem xdedup_writes_common_witness:
  "returns (xdedup demo_kernel None (demo_locals ''abcX'') (demo_dedup ''abcX'' ''abcY'')) (\<lambda>(r, t).
     r = Inr 3 \<and> world t 3 = ''abc'' \<and> live t = [1, 0])"
proof -
  have "common ''abcX'' ''abcY'' = ''abc''"
    by (simp add: common_def c_str_def)
  then show ?thesis
    using xdedup_writes_common [OF demo_dedup_setup [of "''abcX''" "''abcY''"], of "''abc''" None]
    by (auto simp: demo_dedup_files elim!: returns_mono)
qed

theorem xdedup_page_overrun_witness:
  "xdedup demo_kernel None (demo_locals (replicate 5000 CHR ''x''))
     (demo_dedup (replicate 5000 CHR ''x'') (replicate 6000 CHR ''x'')) = None"
  by (rule xdedup_page_overrun [OF demo_dedup_setup]) (simp_all add: demo_dedup_files)

end
