(* ===== verification/Spec2Isabelle.thy ===== *)
theory Spec2Isabelle
  imports Encrypt_Props Compress_Props Enc_Comp Syscall Module_Runs Decompress Async_Module Async_Cli
    User_Tools Dedup_Fragment
begin

text \<open>
  A model of AsynchronousFileSystem: Linux modules that move a file into a trash folder, encrypted or
  compressed on request, and the programs around them.

  \<^bold>\<open>The program.\<close> \<open>xclone2.c\<close> turns its options into clone flags and clones a child; the child enters the
  system call \<open>xclone2\<close> for a file of at most a page and \<open>xclone2async\<close> for a larger one. The module
  \<open>sys_xclone2.c\<close> answers the first: depending on the flags it copies the file into the trash folder
  (\<open>processunlink\<close>), encrypts it (\<open>processencryption\<close>), compresses it (\<open>processcompress\<close>) or both
  (\<open>process_enc_comp\<close>), and unlinks it. The module \<open>sys_xclone2async.c\<close> answers the second with a queue and
  two consumer threads. The modules \<open>proc_key.c\<close>, \<open>proc_file_num.c\<close> and \<open>proc_queue_len.c\<close> hold settings
  in files under \<open>/proc\<close>, of which only the key is used, by the encryption. \<open>sys_xclone2_myorg.c\<close> is an
  older system call with the decompression, \<open>compression.c\<close> a set of file helpers, \<open>tbctl.c\<close> a program that
  asks for a file to be undeleted. All modules reach the kernel through one pointer, \<open>sysptr\<close>.

  \<^bold>\<open>How it is modelled.\<close> A routine is a function from a state to an \<open>option\<close> of a result and a state.
  \<open>None\<close> is undefined behaviour, or a loop that does not end. The kernel is an argument, the record
  \<open>'w kernel\<close> of \<open>Kernel\<close>, with a function for each of the kernel's functions the code calls, over an
  unknown type of kernel states; the cipher, the compressor, the clock, the allocator and the content
  of uninitialised memory are among them. \<open>'w kst\<close> adds what the code itself owns: the address limit, the
  positions of open files, the key, and, as observations, its allocations, its open files and the
  trace of its calls. The error paths and labels of the code are the branches of the definitions, and
  integers are kept at their width (\<open>i32\<close>, \<open>u32\<close>, \<open>u64\<close>, words for flags).
  Statements come in two forms. \<open>safely m Q\<close>: if \<open>m\<close> returns, \<open>Q\<close> holds of what it returns; these hold for
  every kernel. \<open>returns m Q\<close>: \<open>m\<close> does return, and \<open>Q\<close> holds; these need what the kernel's documentation
  promises (\<open>fs_contract\<close>: reads, writes and all other calls treat the contents of files as they
  should; \<open>allocates\<close>; \<open>clock_contract\<close>; \<open>cipher_contract\<close>; \<open>comp_contract\<close> and \<open>decomp_contract\<close>, by which
  the compressor succeeds when its output fits the capacity it is told and fails otherwise), and
  \<open>Demo_Kernel\<close> is a kernel that keeps all of it. \<open>d_path\<close> on a buffer is taken to answer with the path; on
  the \<open>NULL\<close> that \<open>processunlink\<close> passes nothing is assumed of it but, in one theorem, that it faults.
  A page buffer that could not be allocated is a \<open>NULL\<close> that the code hands to \<open>vfs_read\<close> and \<open>vfs_write\<close>,
  which answer with an error rather than fault (\<open>vfs_read_ptr\<close>, \<open>vfs_write_ptr\<close>).

  \<^bold>\<open>Theories.\<close>
  \<open>Prelude\<close>: bytes, C integers, buffers, pieces of a file, \<open>safely\<close> and \<open>returns\<close>.
  \<open>Kernel\<close>, \<open>Kernel_Contract\<close>, \<open>Demo_Kernel\<close>: the kernel, its promises, an instance.
  \<open>C_Strings\<close>, \<open>Numbers\<close>: the string functions of C in bounded buffers, printing and reading numbers.
  \<open>Params\<close> (\<open>params.h\<close>, \<open>flags.h\<close>), \<open>File_IO\<close> (\<open>file_open\<close>, \<open>file_close\<close>, \<open>file_read\<close>, \<open>file_write\<close>,
  \<open>open_file\<close>, \<open>close_file\<close>), \<open>Trash_Name\<close> (the names in the trash folder).
  \<open>Move\<close>: \<open>processunlink\<close>. Its copy loop gives the trash file the whole content under the contracts, and
  ends within a bound on its reads and writes; on every kernel everything is freed and closed except
  on named paths and the unlink comes last; with the documented \<open>d_path\<close>, which is handed \<open>NULL\<close> here, the
  routine never gets as far as the loop.
  \<open>Chunked_Loop\<close>: the locale of the loops that work in pieces of 4080 bytes, with its invariant and its
  termination; the encryption, compression and decompression loops are its interpretations.
  \<open>Encrypt\<close>, \<open>Encrypt_Props\<close>: \<open>clone_encryption\<close> and \<open>processencryption\<close>: the trash file holds the cipher
  texts of the padded pieces and deciphers to the input; the freed key, keys the cipher rejects,
  failing reads and writes, sizes of 2 GiB.
  \<open>Compress\<close>, \<open>Compress_Props\<close>: \<open>compress_buffer\<close>, \<open>compress_file\<close>, \<open>processcompress\<close>: what the trash file
  holds, its size, and that the input cannot be recovered from it. The capacity the code passes is half
  of a pointer (\<open>out_capacity\<close>), so these theorems ask that the pieces fit it.
  \<open>Enc_Comp\<close>: \<open>process_enc_comp\<close>, both passes through its temporary file.
  \<open>Syscall\<close>: the dispatch of \<open>xclone2\<close>, the trash folder, the module; the abstract trash folder
  (\<open>spec_trash\<close>) which the system call refines for the three combinations of flags that encrypt or
  compress; the locales of a module that shares \<open>sysptr\<close>.
  \<open>Proc_Files\<close>: the three files under \<open>/proc\<close>; the locale of a file with a number; the invariant of the
  key over all sequences of key writes and of calls that do not encrypt.
  \<open>Module_Runs\<close>: the system call and the key file over whole runs. The locale \<open>module_predicate\<close> shows once what
  every routine keeps; its two interpretations give that a freed key stays freed, and the protocol of
  the unlinks (an automaton over the trace: close, lock, unlink, unlock); then the way of a key from
  \<open>/proc\<close> to a file that can be deciphered with it.
  \<open>Decompress\<close>: \<open>sys_xclone2_myorg.c\<close>; its copies of helpers are those of \<open>sys_xclone2.c\<close>; the round
  trip of a record in the format it reads, and its failure when the capacity is too small.
  \<open>Async_Move\<close>: the asynchronous module's copies of the move and of its helpers, proved to be the same
  functions.
  \<open>Kernel_List\<close>: the linked list of the kernel over a store of nodes, rings and broken heads.
  \<open>Work_Queue\<close>: the queue of \<open>sys_xclone2async.c\<close> as threads with program counters: \<open>consumer_step\<close> is
  \<open>consumer_work_func\<close> with \<open>process_item\<close>, \<open>insert_step\<close> is \<open>insert_into_head_job\<close>, \<open>xclone2async_step\<close> the
  system call around it, \<open>loader_step\<close> the start of the threads; \<open>async_step\<close> interleaves them.
  \<open>Work_Queue_Props\<close>: the invariant of all interleavings, in every environment.
  \<open>Queue_Spec\<close>: the queue as an abstract log of jobs, which every run refines.
  \<open>Queue_Deadlock\<close>: what follows when only the owner may release a mutex; concrete schedules.
  \<open>Async_Module\<close>: entry and exit of the module, and the demonstration runs.
  \<open>Clone_Cli\<close>: \<open>xclone2.c\<close>, and the whole path from the options to the files.
  \<open>Async_Cli\<close>: the same for a file of more than a page, which goes to the asynchronous module.
  \<open>User_Tools\<close>: \<open>compression.c\<close> and \<open>tbctl.c\<close>.
  \<open>Dedup_Fragment\<close>: the loop of \<open>read_write.c\<close>, which compares two files.

  \<^bold>\<open>What the theorems show.\<close> Encryption does what it is for when the kernel keeps its promises and the
  file is smaller than 2 GiB, but that the key is freed at its first use and used again. A compressed
  trash file keeps eight bytes of each piece. The plain move copies correctly in its loop, and does not
  reach it, since the path is to be written into a \<open>NULL\<close> buffer. The asynchronous
  module never processes a job: the loop that should find one has an empty body, the head of the list
  is taken in its place, and an accepted call leaves the mutex locked. The remaining error
  theorems say what each unchecked result leads to.

  \<^bold>\<open>Bounds.\<close> No operation of the code has fuel; only \<open>run_call\<close>, which runs one call of the asynchronous
  module alone, has it, and six steps are proved enough for a call that is accepted. The
  loops over pieces end because the rest gets smaller. \<open>copy_loop\<close> and \<open>list_walk\<close> have no bound of their
  own and are partial functions, and theorems that they return are total.
  A \<open>kmalloc\<close> of \<open>n\<close> bytes gives a buffer of \<open>n\<close> bytes; real allocators may leave some slack behind it. In
  the work queue the slack is an argument (\<open>room\<close>). A thread's step runs from one synchronisation point to
  the next, and list operations and a whole move are one step; races inside them are not modelled.

  \<^bold>\<open>Not modelled.\<close> \<open>printk\<close> (which in places is given buffers without a terminator) and the messages of the
  programs; the \<open>seq_file\<close> plumbing of the files under
  \<open>/proc\<close>; leftover variables that nothing reads; the kernel's own changes for the system calls (how
  \<open>clone\<close> stores its flags in the task, how the two calls find \<open>sysptr\<close>), which are not in the
  repository; the generated \<open>sys_xclone2.mod.c\<close>; build and load scripts. Of \<open>read_write.c\<close>, a fragment that
  no build file names, the variables that are never set are an argument, and its theorems assume values
  for them. The threads of an unloaded module are not followed.
\<close>

end
